(* ===== verification/Prelude.thy ===== *)
theory Prelude
  imports Main "HOL-Library.Word"
begin

text \<open>
  The vocabulary the components share: the C integer types, byte buffers, the little-endian
  view of words in memory, \<open>memcpy\<close> into a buffer, and the shape of a firmware main loop
  (a list of stages, each of which continues or spins for ever).

  The collection \<open>codec_simps\<close> holds the round-trip and length laws of the byte codecs and
  \<open>buf_simps\<close> the read-over-write laws of buffers.
\<close>

unbundle bit_operations_syntax

named_theorems codec_simps \<open>round-trip and length laws of the byte codecs\<close>
named_theorems buf_simps \<open>reading a buffer after writing it\<close>

section \<open>C integers and byte buffers\<close>

type_synonym u8 = "8 word"
type_synonym u16 = "16 word"
type_synonym u32 = "32 word"
type_synonym u64 = "64 word"
type_synonym bytes = "u8 list"

text \<open>A \<open>memcpy\<close> of \<open>src\<close> into \<open>dst\<close> at offset \<open>off\<close>. It is used only where the copy
  stays inside the destination; copies that leave their field are modelled on the bytes of
  the enclosing struct.\<close>

definition blit :: "nat \<Rightarrow> 'a list \<Rightarrow> 'a list \<Rightarrow> 'a list" where
  "blit off src dst = take off dst @ src @ drop (off + length src) dst"

text \<open>The \<open>n\<close> bytes of a buffer from offset \<open>off\<close>.\<close>

definition sub_bytes :: "nat \<Rightarrow> nat \<Rightarrow> 'a list \<Rightarrow> 'a list" where
  "sub_bytes off n xs = take n (drop off xs)"

lemma length_blit [buf_simps, simp]:
  "off + length src \<le> length dst \<Longrightarrow> length (blit off src dst) = length dst"
  by (simp add: blit_def)

lemma blit_0: "blit 0 src dst = src @ drop (length src) dst"
  by (simp add: blit_def)

lemma sub_bytes_blit [buf_simps]:
  "off + length src \<le> length dst \<Longrightarrow> n = length src \<Longrightarrow> sub_bytes off n (blit off src dst) = src"
  by (simp add: blit_def sub_bytes_def)

lemma sub_bytes_0_append [buf_simps, simp]: "n = length xs \<Longrightarrow> sub_bytes 0 n (xs @ ys) = xs"
  by (simp add: sub_bytes_def)

lemma sub_bytes_append_skip [buf_simps]:
  "length xs \<le> off \<Longrightarrow> sub_bytes off n (xs @ ys) = sub_bytes (off - length xs) n ys"
  by (simp add: sub_bytes_def)

lemma length_sub_bytes [buf_simps, simp]: "length (sub_bytes off n xs) = min n (length xs - off)"
  by (simp add: sub_bytes_def)

lemma nth_sub_bytes [buf_simps]:
  "i < n \<Longrightarrow> off + i < length xs \<Longrightarrow> sub_bytes off n xs ! i = xs ! (off + i)"
  by (simp add: sub_bytes_def)

lemma sub_bytes_join:
  "sub_bytes a k xs @ sub_bytes (a + k) n xs = sub_bytes a (k + n) xs"
  by (simp add: sub_bytes_def take_add add.commute)

lemma sub_bytes_all: "n = length xs \<Longrightarrow> sub_bytes 0 n xs = xs"
  by (simp add: sub_bytes_def)

lemma sub_bytes_Suc_0: "k < length xs \<Longrightarrow> sub_bytes k (Suc 0) xs = [xs ! k]"
  by (simp add: sub_bytes_def take_Suc_conv_app_nth)

lemma nth_blit:
  "off + length src \<le> length dst \<Longrightarrow> i < length dst \<Longrightarrow>
   blit off src dst ! i =
     (if off \<le> i \<and> i < off + length src then src ! (i - off) else dst ! i)"
  by (auto simp: blit_def nth_append)

section \<open>Bytes as numbers\<close>

lemma unat_u8_le: "unat (b :: u8) \<le> 255"
proof -
  have "unat b < 2 ^ LENGTH(8)" by (rule unsigned_less)
  then show ?thesis by simp
qed

lemma unat_ucast_u8 [simp]: "unat (ucast (b :: u8) :: u32) = unat b"
  using unat_u8_le [of b] by (simp add: unsigned_ucast_eq take_bit_nat_eq_self_iff)

section \<open>Little-endian words\<close>

lemma ones_and [simp]: "(0xFFFFFFFF :: u32) AND w = w"
proof -
  have "(0xFFFFFFFF :: u32) = - 1" by simp
  then show ?thesis by (metis and.left_neutral)
qed

definition le16 :: "u16 \<Rightarrow> bytes" where
  "le16 w = [ucast w, ucast (drop_bit 8 w)]"

definition le32 :: "u32 \<Rightarrow> bytes" where
  "le32 w = [ucast w, ucast (drop_bit 8 w), ucast (drop_bit 16 w), ucast (drop_bit 24 w)]"

definition le64 :: "u64 \<Rightarrow> bytes" where
  "le64 w = le32 (ucast w) @ le32 (ucast (drop_bit 32 w))"

text \<open>A \<open>uint32_t\<close> read at offset \<open>off\<close> of a buffer (an unaligned access through a packed
  struct), and the same for the other widths.\<close>

definition get8 :: "nat \<Rightarrow> bytes \<Rightarrow> u8" where
  "get8 off b = b ! off"

definition get16 :: "nat \<Rightarrow> bytes \<Rightarrow> u16" where
  "get16 off b = ucast (b ! off) OR push_bit 8 (ucast (b ! (off + 1)))"

definition get32 :: "nat \<Rightarrow> bytes \<Rightarrow> u32" where
  "get32 off b = ucast (b ! off) OR push_bit 8 (ucast (b ! (off + 1)))
     OR push_bit 16 (ucast (b ! (off + 2))) OR push_bit 24 (ucast (b ! (off + 3)))"

definition get64 :: "nat \<Rightarrow> bytes \<Rightarrow> u64" where
  "get64 off b = ucast (get32 off b) OR push_bit 32 (ucast (get32 (off + 4) b))"

lemma length_le [codec_simps, simp]:
  "length (le16 x) = 2" "length (le32 y) = 4" "length (le64 z) = 8"
  by (simp_all add: le16_def le32_def le64_def)

lemma le32_bytes:
  "ucast (ucast w :: u8) OR push_bit 8 (ucast (ucast (drop_bit 8 w) :: u8))
     OR push_bit 16 (ucast (ucast (drop_bit 16 w) :: u8))
     OR push_bit 24 (ucast (ucast (drop_bit 24 w) :: u8)) = (w :: u32)"
proof (rule bit_word_eqI)
  fix n assume "n < LENGTH(32)"
  then consider "n < 8" | "8 \<le> n" "n < 16" | "16 \<le> n" "n < 24" | "24 \<le> n" "n < 32"
    by force
  then show "bit (ucast (ucast w :: u8) OR push_bit 8 (ucast (ucast (drop_bit 8 w) :: u8))
     OR push_bit 16 (ucast (ucast (drop_bit 16 w) :: u8))
     OR push_bit 24 (ucast (ucast (drop_bit 24 w) :: u8)) :: u32) n = bit w n"
    by cases (auto simp: bit_simps)
qed

lemma le16_bytes:
  "ucast (ucast w :: u8) OR push_bit 8 (ucast (ucast (drop_bit 8 w) :: u8)) = (w :: u16)"
  by (rule bit_word_eqI) (auto simp: bit_simps)

lemma word_halves:
  "ucast (ucast w :: u32) OR push_bit 32 (ucast (ucast (drop_bit 32 w) :: u32)) = (w :: u64)"
  by (rule bit_word_eqI) (auto simp: bit_simps)

lemma get32_le32 [codec_simps]: "get32 0 (le32 w @ r) = w"
  by (simp add: get32_def le32_def le32_bytes)

lemma get16_le16 [codec_simps]: "get16 0 (le16 w @ r) = w"
  by (simp add: get16_def le16_def le16_bytes)

lemma get32_skip [codec_simps]:
  "length xs \<le> off \<Longrightarrow> get32 off (xs @ ys) = get32 (off - length xs) ys"
  by (simp add: get32_def nth_append Suc_diff_le)

lemma get16_skip [codec_simps]:
  "length xs \<le> off \<Longrightarrow> get16 off (xs @ ys) = get16 (off - length xs) ys"
  by (simp add: get16_def nth_append Suc_diff_le)

lemma get32_Cons [codec_simps]: "0 < off \<Longrightarrow> get32 off (x # ys) = get32 (off - 1) ys"
  using get32_skip [of "[x]" off ys] by simp

lemma get64_le64 [codec_simps]: "get64 0 (le64 w @ r) = w"
  by (simp add: get64_def le64_def get32_skip get32_le32 word_halves)

lemma get32_le32_exact [codec_simps]: "get32 0 (le32 w) = w"
  using get32_le32 [of w "[]"] by simp

lemma bit_u8_high [simp]:
  "\<not> bit (b :: u8) (8 + n)" "\<not> bit b (16 + n)" "\<not> bit b (24 + n)"
  by (auto dest: bit_imp_le_length)

lemma le32_get32 [codec_simps]: "le32 (get32 0 [a, b, c, d]) = [a, b, c, d]"
  by (auto simp: get32_def le32_def bit_simps intro!: bit_word_eqI)

lemma get32_sub_bytes:
  "off + 4 \<le> length b \<Longrightarrow> get32 0 (sub_bytes off 4 b) = get32 off b"
  by (simp add: get32_def sub_bytes_def)

end
