(* ===== verification/Layout.thy ===== *)
theory Layout
  imports Prelude
begin

text \<open>
  The packed C structs the two cores exchange. A struct is a list of named fields; a field's
  offset is the size of what stands before it (every struct here is
  \<open>__attribute__((packed))\<close>). Enumerations take one byte: the firmware is built for the ARM
  embedded ABI, whose enums take the smallest integer type, and \<open>_handle_packet\<close> relies on
  it, reading the message type as the first byte of the buffer that is then read as
  \<open>swrmt_request_t\<close>.

  The application core (\<open>bootloader/Source/ipc.h\<close>) and the network core
  (\<open>network_core/Source/ipc.h\<close>) declare the shared RAM independently; \<open>fields\<close> makes the
  agreement of the two declarations a statement.
\<close>

datatype ctype =
    U8 | U16 | U32 | U64 | I32 | CBool | CEnum
  | Arr nat ctype
  | Struct "(string \<times> ctype) list"

fun sizeof :: "ctype \<Rightarrow> nat"
  and sizeof_fields :: "(string \<times> ctype) list \<Rightarrow> nat"
where
  "sizeof U8 = 1"
| "sizeof U16 = 2"
| "sizeof U32 = 4"
| "sizeof U64 = 8"
| "sizeof I32 = 4"
| "sizeof CBool = 1"
| "sizeof CEnum = 1"
| "sizeof (Arr n t) = n * sizeof t"
| "sizeof (Struct fs) = sizeof_fields fs"
| "sizeof_fields [] = 0"
| "sizeof_fields ((n, t) # fs) = sizeof t + sizeof_fields fs"

text \<open>The fields of a struct with their offsets, from offset \<open>off\<close>.\<close>

fun fields_from :: "nat \<Rightarrow> (string \<times> ctype) list \<Rightarrow> (string \<times> nat \<times> ctype) list" where
  "fields_from off [] = []"
| "fields_from off ((n, t) # fs) = (n, off, t) # fields_from (off + sizeof t) fs"

fun fields :: "ctype \<Rightarrow> (string \<times> nat \<times> ctype) list" where
  "fields (Struct fs) = fields_from 0 fs"
| "fields _ = []"

definition offsetof :: "ctype \<Rightarrow> string \<Rightarrow> nat option" where
  "offsetof t n = map_option fst (map_of (fields t) n)"

section \<open>The packets of the SwarmIT protocol\<close>

definition position_2d_t :: ctype where
  "position_2d_t = Struct [(''x'', U32), (''y'', U32)]"

definition swrmt_request_t :: ctype where
  "swrmt_request_t = Struct [(''type'', CEnum), (''data'', Arr 255 U8)]"

definition swrmt_ota_start_pkt_t :: ctype where
  "swrmt_ota_start_pkt_t = Struct [(''image_size'', U32), (''chunk_count'', U32)]"

definition net_swrmt_ota_chunk_pkt_t :: ctype where
  "net_swrmt_ota_chunk_pkt_t =
     Struct [(''index'', U32), (''chunk_size'', U8), (''sha'', Arr 8 U8), (''chunk'', Arr 64 U8)]"

definition sc_swrmt_ota_chunk_pkt_t :: ctype where
  "sc_swrmt_ota_chunk_pkt_t =
     Struct [(''index'', U32), (''chunk_size'', U8), (''sha'', Arr 8 U8), (''chunk'', Arr 128 U8)]"

definition app_swrmt_ota_chunk_pkt_t :: ctype where
  "app_swrmt_ota_chunk_pkt_t =
     Struct [(''index'', U32), (''chunk_size'', U8), (''chunk'', Arr 128 U8)]"

definition swrmt_lh2_calibration_data_t :: ctype where
  "swrmt_lh2_calibration_data_t =
     Struct [(''homography_count'', U32), (''homography_index'', U32),
             (''homography'', Arr 3 (Arr 3 I32))]"

definition protocol_header_t :: ctype where
  "protocol_header_t =
     Struct [(''version'', U8), (''packet_type'', CEnum), (''dst'', U64), (''src'', U64)]"

definition swarmit_config_t :: ctype where
  "swarmit_config_t =
     Struct [(''magic'', U32), (''has_net_id'', U32), (''net_id'', U32),
             (''homography_count'', U32), (''homographies'', Arr 16 (Arr 3 (Arr 3 I32)))]"

definition lh2_raw_sample_t :: ctype where
  "lh2_raw_sample_t = Struct [(''lh_index'', U8), (''count1'', U32), (''count2'', U32)]"

section \<open>The shared RAM, as each core declares it\<close>

definition app_ipc_log_data_t :: ctype where
  "app_ipc_log_data_t = Struct [(''length'', U8), (''data'', Arr 127 U8)]"

definition app_ipc_ota_data_t :: ctype where
  "app_ipc_ota_data_t =
     Struct [(''image_size'', U32), (''chunk_count'', U32), (''chunk_index'', U32),
             (''chunk_size'', U32), (''last_chunk_acked'', I32), (''chunk'', Arr (127 + 1) U8)]"

definition app_ipc_lh2_calibration_t :: ctype where
  "app_ipc_lh2_calibration_t =
     Struct [(''homography_count'', U32), (''homographies'', Arr 16 (Arr 3 (Arr 3 I32)))]"

definition app_ipc_rng_data_t :: ctype where
  "app_ipc_rng_data_t = Struct [(''value'', U8)]"

definition app_ipc_radio_pdu_t :: ctype where
  "app_ipc_radio_pdu_t = Struct [(''length'', U8), (''buffer'', Arr 255 U8)]"

definition app_ipc_shared_data_t :: ctype where
  "app_ipc_shared_data_t =
     Struct [(''net_ready'', CBool), (''net_ack'', CBool), (''req'', CEnum), (''status'', U8),
             (''battery_level'', U16), (''device_type'', CEnum),
             (''log'', app_ipc_log_data_t), (''rng'', app_ipc_rng_data_t),
             (''ota'', app_ipc_ota_data_t), (''target_position'', position_2d_t),
             (''current_position'', position_2d_t), (''tx_pdu'', app_ipc_radio_pdu_t),
             (''rx_pdu'', app_ipc_radio_pdu_t), (''lh2_calibration'', app_ipc_lh2_calibration_t)]"

definition net_ipc_rng_data_t :: ctype where
  "net_ipc_rng_data_t = Struct [(''value'', U8)]"

definition net_ipc_radio_pdu_t :: ctype where
  "net_ipc_radio_pdu_t = Struct [(''length'', U8), (''buffer'', Arr 255 U8)]"

definition net_ipc_log_data_t :: ctype where
  "net_ipc_log_data_t = Struct [(''length'', U8), (''data'', Arr 127 U8)]"

definition net_ipc_ota_data_t :: ctype where
  "net_ipc_ota_data_t =
     Struct [(''image_size'', U32), (''chunk_count'', U32), (''chunk_index'', U32),
             (''chunk_size'', U32), (''last_chunk_acked'', I32), (''chunk'', Arr (127 + 1) U8)]"

definition net_ipc_lh2_calibration_t :: ctype where
  "net_ipc_lh2_calibration_t =
     Struct [(''homography_count'', U32), (''homographies'', Arr 16 (Arr 3 (Arr 3 I32)))]"

definition net_position_2d_t :: ctype where
  "net_position_2d_t = Struct [(''x'', U32), (''y'', U32)]"

definition net_ipc_shared_data_t :: ctype where
  "net_ipc_shared_data_t =
     Struct [(''net_ready'', CBool), (''net_ack'', CBool), (''req'', CEnum), (''status'', U8),
             (''battery_level'', U16), (''device_type'', CEnum),
             (''log'', net_ipc_log_data_t), (''rng'', net_ipc_rng_data_t),
             (''ota'', net_ipc_ota_data_t), (''target_position'', net_position_2d_t),
             (''current_position'', net_position_2d_t), (''tx_pdu'', net_ipc_radio_pdu_t),
             (''rx_pdu'', net_ipc_radio_pdu_t), (''lh2_calibration'', net_ipc_lh2_calibration_t)]"

lemmas packet_layouts =
  position_2d_t_def swrmt_request_t_def swrmt_ota_start_pkt_t_def net_swrmt_ota_chunk_pkt_t_def
  sc_swrmt_ota_chunk_pkt_t_def app_swrmt_ota_chunk_pkt_t_def swrmt_lh2_calibration_data_t_def
  protocol_header_t_def swarmit_config_t_def lh2_raw_sample_t_def

lemmas shared_layouts =
  app_ipc_log_data_t_def app_ipc_ota_data_t_def app_ipc_lh2_calibration_t_def
  app_ipc_rng_data_t_def app_ipc_radio_pdu_t_def app_ipc_shared_data_t_def
  net_ipc_rng_data_t_def net_ipc_radio_pdu_t_def net_ipc_log_data_t_def net_ipc_ota_data_t_def
  net_ipc_lh2_calibration_t_def net_position_2d_t_def net_ipc_shared_data_t_def
  position_2d_t_def

lemma packet_sizes:
  "sizeof swrmt_ota_start_pkt_t = 8" "sizeof swrmt_lh2_calibration_data_t = 44"
  "sizeof protocol_header_t = 18" "sizeof swarmit_config_t = 592" "sizeof position_2d_t = 8"
  "sizeof lh2_raw_sample_t = 9" "sizeof swrmt_request_t = 256"
  by (simp_all add: packet_layouts)

lemma fields_from_nonoverlap:
  "(n, o1, t) \<in> set (fields_from off fs) \<Longrightarrow> off \<le> o1 \<and> o1 + sizeof t \<le> off + sizeof_fields fs"
proof (induction off fs rule: fields_from.induct)
  case (2 off n' t' fs)
  then show ?case by force
qed simp

end
