(* ===== verification/Protocol.thy ===== *)
theory Protocol
  imports Prelude Layout
begin

text \<open>
  The wire protocol (\<open>protocol.h\<close>, \<open>protocol.c\<close>, \<open>device.h\<close>): the enumerations with their
  codes, the packets as records with the functions that read them out of a receive buffer at
  the offsets of the packed structs, and the functions that write a packet into a buffer.
  An \<open>int32_t\<close> matrix entry is kept as its 32-bit pattern: the firmware only copies them.
\<close>

section \<open>Enumerations\<close>

datatype swrmt_device_type_t =
    SWRMT_DEVICE_TYPE_UNKNOWN
  | SWRMT_DEVICE_TYPE_DOTBOTV3
  | SWRMT_DEVICE_TYPE_DOTBOTV2
  | SWRMT_DEVICE_TYPE_NRF5340DK
  | SWRMT_DEVICE_TYPE_NRF52840DK

fun device_code :: "swrmt_device_type_t \<Rightarrow> u8" where
  "device_code SWRMT_DEVICE_TYPE_UNKNOWN = 0"
| "device_code SWRMT_DEVICE_TYPE_DOTBOTV3 = 1"
| "device_code SWRMT_DEVICE_TYPE_DOTBOTV2 = 2"
| "device_code SWRMT_DEVICE_TYPE_NRF5340DK = 3"
| "device_code SWRMT_DEVICE_TYPE_NRF52840DK = 4"

datatype swrmt_application_status_t =
    SWRMT_APPLICATION_READY
  | SWRMT_APPLICATION_RUNNING
  | SWRMT_APPLICATION_STOPPING
  | SWRMT_APPLICATION_RESETTING
  | SWRMT_APPLICATION_PROGRAMMING

fun status_code :: "swrmt_application_status_t \<Rightarrow> u8" where
  "status_code SWRMT_APPLICATION_READY = 0"
| "status_code SWRMT_APPLICATION_RUNNING = 1"
| "status_code SWRMT_APPLICATION_STOPPING = 2"
| "status_code SWRMT_APPLICATION_RESETTING = 3"
| "status_code SWRMT_APPLICATION_PROGRAMMING = 4"

datatype swrmt_message_type_t =
    SWRMT_MSG_STATUS
  | SWRMT_MSG_START
  | SWRMT_MSG_STOP
  | SWRMT_MSG_RESET
  | SWRMT_MSG_OTA_START
  | SWRMT_MSG_OTA_CHUNK
  | SWRMT_MSG_OTA_START_ACK
  | SWRMT_MSG_OTA_CHUNK_ACK
  | SWRMT_MSG_GPIO_EVENT
  | SWRMT_MSG_LOG_EVENT
  | SWRMT_MESSAGE
  | SWRMT_MSG_LH2_CALIBRATION
  | SWRMT_MSG_LH2_CAPTURE

fun msg_code :: "swrmt_message_type_t \<Rightarrow> u8" where
  "msg_code SWRMT_MSG_STATUS = 0x80"
| "msg_code SWRMT_MSG_START = 0x81"
| "msg_code SWRMT_MSG_STOP = 0x82"
| "msg_code SWRMT_MSG_RESET = 0x83"
| "msg_code SWRMT_MSG_OTA_START = 0x84"
| "msg_code SWRMT_MSG_OTA_CHUNK = 0x85"
| "msg_code SWRMT_MSG_OTA_START_ACK = 0x86"
| "msg_code SWRMT_MSG_OTA_CHUNK_ACK = 0x87"
| "msg_code SWRMT_MSG_GPIO_EVENT = 0x88"
| "msg_code SWRMT_MSG_LOG_EVENT = 0x89"
| "msg_code SWRMT_MESSAGE = 0xA0"
| "msg_code SWRMT_MSG_LH2_CALIBRATION = 0xA1"
| "msg_code SWRMT_MSG_LH2_CAPTURE = 0xA2"

text \<open>The \<open>switch\<close> on a received type byte: the enumerator with that code, if any.\<close>

definition all_msgs :: "swrmt_message_type_t list" where
  "all_msgs =
     [SWRMT_MSG_STATUS, SWRMT_MSG_START, SWRMT_MSG_STOP, SWRMT_MSG_RESET, SWRMT_MSG_OTA_START,
      SWRMT_MSG_OTA_CHUNK, SWRMT_MSG_OTA_START_ACK, SWRMT_MSG_OTA_CHUNK_ACK,
      SWRMT_MSG_GPIO_EVENT, SWRMT_MSG_LOG_EVENT, SWRMT_MESSAGE, SWRMT_MSG_LH2_CALIBRATION,
      SWRMT_MSG_LH2_CAPTURE]"

definition msg_of_code :: "u8 \<Rightarrow> swrmt_message_type_t option" where
  "msg_of_code b = find (\<lambda>m. msg_code m = b) all_msgs"

datatype packet_type_t =
    PACKET_BEACON | PACKET_JOIN_REQUEST | PACKET_JOIN_RESPONSE | PACKET_KEEPALIVE | PACKET_DATA

fun packet_type_code :: "packet_type_t \<Rightarrow> u8" where
  "packet_type_code PACKET_BEACON = 1"
| "packet_type_code PACKET_JOIN_REQUEST = 2"
| "packet_type_code PACKET_JOIN_RESPONSE = 4"
| "packet_type_code PACKET_KEEPALIVE = 8"
| "packet_type_code PACKET_DATA = 16"

datatype application_type_t = DotBot | SailBot | FreeBot | XGO | LH2_mini_mote

fun application_code :: "application_type_t \<Rightarrow> u8" where
  "application_code DotBot = 0"
| "application_code SailBot = 1"
| "application_code FreeBot = 2"
| "application_code XGO = 3"
| "application_code LH2_mini_mote = 4"

datatype protocol_data_type_t =
    PROTOCOL_LH2_RAW_DATA | PROTOCOL_LH2_LOCATION | PROTOCOL_ADVERTISEMENT
  | PROTOCOL_DOTBOT_DATA | PROTOCOL_LH2_PROCESSED_DATA

fun protocol_data_code :: "protocol_data_type_t \<Rightarrow> u8" where
  "protocol_data_code PROTOCOL_LH2_RAW_DATA = 2"
| "protocol_data_code PROTOCOL_LH2_LOCATION = 3"
| "protocol_data_code PROTOCOL_ADVERTISEMENT = 4"
| "protocol_data_code PROTOCOL_DOTBOT_DATA = 6"
| "protocol_data_code PROTOCOL_LH2_PROCESSED_DATA = 12"

lemma msg_of_code_msg [simp]: "msg_of_code (msg_code m) = Some m"
  by (cases m) (simp_all add: msg_of_code_def all_msgs_def)

lemma msg_of_code_SomeD: "msg_of_code b = Some m \<Longrightarrow> msg_code m = b"
  by (auto simp: msg_of_code_def find_Some_iff)

lemma msg_code_eq_iff [simp]: "msg_code m = msg_code m' \<longleftrightarrow> m = m'"
  by (metis msg_of_code_msg option.inject)

lemma status_code_eq_iff [simp]: "status_code s = status_code s' \<longleftrightarrow> s = s'"
  by (cases s; cases s') simp_all

section \<open>Positions and homographies\<close>

record position =
  pos_x :: u32
  pos_y :: u32

definition position_bytes :: "position \<Rightarrow> bytes" where
  "position_bytes p = le32 (pos_x p) @ le32 (pos_y p)"

definition position_of_bytes :: "bytes \<Rightarrow> position" where
  "position_of_bytes b = \<lparr>pos_x = get32 0 b, pos_y = get32 4 b\<rparr>"

lemma length_position_bytes [codec_simps, simp]: "length (position_bytes p) = 8"
  by (simp add: position_bytes_def)

lemma position_of_position_bytes [codec_simps, simp]:
  "position_of_bytes (position_bytes p) = p"
  by (simp add: position_of_bytes_def position_bytes_def codec_simps)

lemma position_bytes_of_bytes:
  assumes "length b = 8" shows "position_bytes (position_of_bytes b) = b"
proof -
  obtain b0 b1 b2 b3 b4 b5 b6 b7 where b: "b = [b0, b1, b2, b3, b4, b5, b6, b7]"
    using assms by (auto simp: numeral_eq_Suc length_Suc_conv)
  have "le32 (get32 0 b) = le32 (get32 0 [b0, b1, b2, b3])"
    "le32 (get32 4 b) = le32 (get32 0 [b4, b5, b6, b7])"
    unfolding b by (simp_all add: get32_def)
  then show ?thesis by (simp add: position_bytes_def position_of_bytes_def b codec_simps)
qed

type_synonym matrix = "u32 list list"

definition matrix_ok :: "matrix \<Rightarrow> bool" where
  "matrix_ok m \<longleftrightarrow> length m = 3 \<and> list_all (\<lambda>r. length r = 3) m"

definition zero_matrix :: matrix where
  "zero_matrix = replicate 3 (replicate 3 0)"

text \<open>The matrix in \<open>36\<close> bytes of memory (row-major), and back.\<close>

definition matrix_of_bytes :: "bytes \<Rightarrow> matrix" where
  "matrix_of_bytes b = map (\<lambda>r. map (\<lambda>c. get32 (4 * (3 * r + c)) b) [0..<3]) [0..<3]"

definition matrix_bytes :: "matrix \<Rightarrow> bytes" where
  "matrix_bytes m = concat (map le32 (concat m))"

lemma matrix_ok_of_bytes [simp]: "matrix_ok (matrix_of_bytes b)"
  by (simp add: matrix_ok_def matrix_of_bytes_def list_all_iff)

lemma matrix_ok_zero [simp]: "matrix_ok zero_matrix"
  by (simp add: matrix_ok_def zero_matrix_def list_all_iff)

lemma list3E:
  assumes "length xs = 3"
  obtains a b c where "xs = [a, b, c]"
  using assms by (auto simp: numeral_3_eq_3 length_Suc_conv)

lemma matrix_okE:
  assumes "matrix_ok m"
  obtains a b c d e f g h i where "m = [[a, b, c], [d, e, f], [g, h, i]]"
proof -
  from assms obtain r1 r2 r3 where m: "m = [r1, r2, r3]"
    and "length r1 = 3" "length r2 = 3" "length r3 = 3"
    unfolding matrix_ok_def by (auto elim!: list3E)
  then show ?thesis using that by (metis list3E)
qed

lemma upt_3: "[0..<3] = [0, 1, 2 :: nat]"
  by (simp add: upt_rec)

lemma matrix_of_matrix_bytes [codec_simps]:
  assumes "matrix_ok m" shows "matrix_of_bytes (matrix_bytes m @ r) = m"
  using assms
  by (elim matrix_okE) (simp add: matrix_of_bytes_def matrix_bytes_def upt_3 codec_simps)

lemma length_matrix_bytes [codec_simps]: "matrix_ok m \<Longrightarrow> length (matrix_bytes m) = 36"
  by (elim matrix_okE) (simp add: matrix_bytes_def)

section \<open>Packets read from a receive buffer\<close>

text \<open>The receive buffer is read as \<open>swrmt_request_t\<close>: the type byte, then the packet.\<close>

definition req_type :: "bytes \<Rightarrow> u8" where
  "req_type buf = get8 0 buf"

record ota_start_pkt =
  os_image_size :: u32
  os_chunk_count :: u32

definition ota_start_of :: "bytes \<Rightarrow> ota_start_pkt" where
  "ota_start_of buf = \<lparr>os_image_size = get32 1 buf, os_chunk_count = get32 5 buf\<rparr>"

text \<open>The chunk packet: the data bytes themselves start at \<open>OTA_CHUNK_DATA\<close> and are reached
  through a pointer.\<close>

record ota_chunk_pkt =
  oc_index :: u32
  oc_chunk_size :: u8

definition OTA_CHUNK_SHA :: nat where
  "OTA_CHUNK_SHA = 6"

definition OTA_CHUNK_DATA :: nat where
  "OTA_CHUNK_DATA = 14"

definition ota_chunk_of :: "bytes \<Rightarrow> ota_chunk_pkt" where
  "ota_chunk_of buf = \<lparr>oc_index = get32 1 buf, oc_chunk_size = get8 5 buf\<rparr>"

record lh2_calibration_pkt =
  lc_homography_count :: u32
  lc_homography_index :: u32
  lc_homography :: matrix

definition lh2_calibration_of :: "bytes \<Rightarrow> lh2_calibration_pkt" where
  "lh2_calibration_of buf =
     \<lparr>lc_homography_count = get32 1 buf, lc_homography_index = get32 5 buf,
      lc_homography = matrix_of_bytes (sub_bytes 9 36 buf)\<rparr>"

text \<open>The offsets used above are those of the packed structs behind the type byte.\<close>

lemma packet_offsets:
  "map_option Suc (offsetof swrmt_ota_start_pkt_t ''image_size'') = Some 1"
  "map_option Suc (offsetof swrmt_ota_start_pkt_t ''chunk_count'') = Some 5"
  "map_option Suc (offsetof net_swrmt_ota_chunk_pkt_t ''index'') = Some 1"
  "map_option Suc (offsetof net_swrmt_ota_chunk_pkt_t ''chunk_size'') = Some 5"
  "map_option Suc (offsetof net_swrmt_ota_chunk_pkt_t ''sha'') = Some OTA_CHUNK_SHA"
  "map_option Suc (offsetof net_swrmt_ota_chunk_pkt_t ''chunk'') = Some OTA_CHUNK_DATA"
  "map_option Suc (offsetof swrmt_lh2_calibration_data_t ''homography_count'') = Some 1"
  "map_option Suc (offsetof swrmt_lh2_calibration_data_t ''homography_index'') = Some 5"
  "map_option Suc (offsetof swrmt_lh2_calibration_data_t ''homography'') = Some 9"
  by (simp_all add: packet_layouts offsetof_def OTA_CHUNK_SHA_def OTA_CHUNK_DATA_def)

text \<open>The packets as a sender lays them out, for the round trips.\<close>

definition ota_start_bytes :: "u32 \<Rightarrow> u32 \<Rightarrow> bytes" where
  "ota_start_bytes sz count = msg_code SWRMT_MSG_OTA_START # le32 sz @ le32 count"

definition ota_chunk_bytes :: "u32 \<Rightarrow> u8 \<Rightarrow> bytes \<Rightarrow> bytes \<Rightarrow> bytes" where
  "ota_chunk_bytes idx sz sha data =
     msg_code SWRMT_MSG_OTA_CHUNK # le32 idx @ sz # sha @ data"

definition lh2_calibration_bytes :: "u32 \<Rightarrow> u32 \<Rightarrow> matrix \<Rightarrow> bytes" where
  "lh2_calibration_bytes count idx m =
     msg_code SWRMT_MSG_LH2_CALIBRATION # le32 count @ le32 idx @ matrix_bytes m"

lemma req_type_Cons [codec_simps, simp]: "req_type (t # r) = t"
  by (simp add: req_type_def get8_def)

lemma ota_start_of_bytes [codec_simps]:
  "ota_start_of (ota_start_bytes sz count @ r) = \<lparr>os_image_size = sz, os_chunk_count = count\<rparr>"
  by (simp add: ota_start_of_def ota_start_bytes_def codec_simps)

lemma get8_skip [codec_simps]:
  "length xs \<le> off \<Longrightarrow> get8 off (xs @ ys) = get8 (off - length xs) ys"
  by (simp add: get8_def nth_append)

lemma get8_Cons [codec_simps]: "get8 off (x # ys) = (if off = 0 then x else get8 (off - 1) ys)"
  by (simp add: get8_def nth_Cons')

lemma ota_chunk_of_bytes [codec_simps]:
  "ota_chunk_of (ota_chunk_bytes idx sz sha data @ r) = \<lparr>oc_index = idx, oc_chunk_size = sz\<rparr>"
  by (simp add: ota_chunk_of_def ota_chunk_bytes_def codec_simps)

lemma sub_bytes_Cons [buf_simps]: "0 < off \<Longrightarrow> sub_bytes off n (x # ys) = sub_bytes (off - 1) n ys"
  using sub_bytes_append_skip [of "[x]" off n ys] by simp

lemma ota_chunk_data_of_bytes [codec_simps]:
  assumes "length sha = 8"
  shows "sub_bytes OTA_CHUNK_SHA 8 (ota_chunk_bytes idx sz sha data @ r) = sha"
    and "n = length data \<Longrightarrow>
         sub_bytes OTA_CHUNK_DATA n (ota_chunk_bytes idx sz sha data @ r) = data"
  using assms
  by (simp_all add: ota_chunk_bytes_def OTA_CHUNK_SHA_def OTA_CHUNK_DATA_def buf_simps)

lemma lh2_calibration_of_bytes [codec_simps]:
  assumes "matrix_ok m"
  shows "lh2_calibration_of (lh2_calibration_bytes count idx m @ r) =
           \<lparr>lc_homography_count = count, lc_homography_index = idx, lc_homography = m\<rparr>"
proof -
  have "sub_bytes 9 36 (lh2_calibration_bytes count idx m @ r) = matrix_bytes m"
    using assms by (simp add: lh2_calibration_bytes_def buf_simps codec_simps)
  then show ?thesis
    using assms matrix_of_matrix_bytes [of m "[]"]
    by (simp add: lh2_calibration_of_def lh2_calibration_bytes_def codec_simps)
qed

section \<open>Packets written into a buffer\<close>

definition FIRMWARE_VERSION :: u8 where
  "FIRMWARE_VERSION = 1"

text \<open>\<open>db_device_id\<close> and \<open>_deviceid\<close>: the two identifier registers of the FICR.\<close>

definition db_device_id :: "u32 \<Rightarrow> u32 \<Rightarrow> u64" where
  "db_device_id id1 id0 = push_bit 32 (ucast id1) OR ucast id0"

text \<open>\<open>db_device_addr\<close> outside the nRF5340 application core (where it is 0).\<close>

definition db_device_addr :: "u32 \<Rightarrow> u32 \<Rightarrow> u64" where
  "db_device_addr a1 a0 = (push_bit 32 (ucast a1) AND 0xFFFFFFFFFFFF) OR ucast a0"

definition protocol_header_to_buffer_type ::
    "u64 \<Rightarrow> packet_type_t \<Rightarrow> bytes \<Rightarrow> u64 \<Rightarrow> nat \<times> bytes" where
  "protocol_header_to_buffer_type src t buffer dst =
     (let header = FIRMWARE_VERSION # packet_type_code t # le64 dst @ le64 src
      in (length header, blit 0 header buffer))"

definition protocol_header_to_buffer :: "u64 \<Rightarrow> bytes \<Rightarrow> u64 \<Rightarrow> nat \<times> bytes" where
  "protocol_header_to_buffer src buffer dst =
     protocol_header_to_buffer_type src PACKET_DATA buffer dst"

definition db_protocol_advertisement_to_buffer ::
    "bytes \<Rightarrow> application_type_t \<Rightarrow> nat \<times> bytes" where
  "db_protocol_advertisement_to_buffer buffer app =
     (2, buffer[0 := protocol_data_code PROTOCOL_ADVERTISEMENT, 1 := application_code app])"

lemma get64_skip [codec_simps]:
  "length xs \<le> off \<Longrightarrow> get64 off (xs @ ys) = get64 (off - length xs) ys"
  by (simp add: get64_def get32_skip)

lemma get64_Cons [codec_simps]: "0 < off \<Longrightarrow> get64 off (x # ys) = get64 (off - 1) ys"
  using get64_skip [of "[x]" off ys] by simp

lemma device_id_halves:
  "ucast (db_device_id id1 id0) = id0" "ucast (drop_bit 32 (db_device_id id1 id0)) = id1"
  by (rule bit_word_eqI, auto simp: db_device_id_def bit_simps dest: bit_imp_le_length)+

end
