(* ===== verification/Main_Loop.thy ===== *)
theory Main_Loop
  imports Prelude
begin

text \<open>
  The shape of every firmware of the repository: after its initialisation \<open>main\<close> runs a fixed
  list of stages for ever (\<open>while (1) { __WFE(); if (flag) ... if (flag) ... }\<close>), and interrupt
  handlers run between them. A stage returns an \<open>outcome\<close>: it continues, it never returns
  (a busy-wait whose condition never comes, or a reset), or it leaves what C defines.

  \<open>run_stages\<close> is one iteration of the loop body; \<open>fw_step\<close> is the step relation with the
  interrupts in between; the locale \<open>main_loop\<close> is the contract a firmware's stages and
  handlers meet, and what follows for every state the firmware reaches.
\<close>

datatype 's outcome = Continue 's | Stuck 's | Undefined

fun outcome_ok :: "('s \<Rightarrow> bool) \<Rightarrow> 's outcome \<Rightarrow> bool" where
  "outcome_ok P (Continue s) = P s"
| "outcome_ok P (Stuck s) = P s"
| "outcome_ok P Undefined = False"

fun and_then :: "'s outcome \<Rightarrow> ('s \<Rightarrow> 's outcome) \<Rightarrow> 's outcome" where
  "and_then (Continue s) f = f s"
| "and_then (Stuck s) f = Stuck s"
| "and_then Undefined f = Undefined"

lemma and_then_Continue_iff:
  "and_then x f = Continue s \<longleftrightarrow> (\<exists>t. x = Continue t \<and> f t = Continue s)"
  by (cases x) simp_all

fun run_stages :: "('s \<Rightarrow> 's outcome) list \<Rightarrow> 's \<Rightarrow> 's outcome" where
  "run_stages [] s = Continue s"
| "run_stages (f # fs) s = and_then (f s) (run_stages fs)"

text \<open>A busy-wait: \<open>polls k\<close> is what poll \<open>k\<close> of the condition reads; the result is the
  number of the poll that ended the wait, \<open>None\<close> if none does.\<close>

partial_function (option) spin_until :: "(nat \<Rightarrow> bool) \<Rightarrow> nat \<Rightarrow> nat option" where
  "spin_until polls k = (if polls k then Some k else spin_until polls (Suc k))"

lemma spin_until_returns:
  "polls n \<Longrightarrow> k \<le> n \<Longrightarrow> \<exists>m. spin_until polls k = Some m \<and> k \<le> m \<and> m \<le> n \<and> polls m"
proof (induction "n - k" arbitrary: k)
  case 0
  then show ?case by (simp add: spin_until.simps [of polls k])
next
  case (Suc d)
  show ?case
  proof (cases "polls k")
    case True
    then show ?thesis using Suc.prems by (simp add: spin_until.simps [of polls k])
  next
    case False
    then have "Suc k \<le> n" using Suc.prems by (metis le_neq_implies_less Suc_leI)
    moreover have "d = n - Suc k" using Suc.hyps(2) by simp
    ultimately obtain m where "spin_until polls (Suc k) = Some m" "Suc k \<le> m" "m \<le> n" "polls m"
      using Suc.hyps(1) [of "Suc k"] Suc.prems(1) by auto
    then show ?thesis using False by (auto simp: spin_until.simps [of polls k])
  qed
qed

lemma spin_until_None: "(\<And>n. k \<le> n \<Longrightarrow> \<not> polls n) \<Longrightarrow> spin_until polls k = None"
proof (rule ccontr)
  assume none: "\<And>n. k \<le> n \<Longrightarrow> \<not> polls n" and "spin_until polls k \<noteq> None"
  then obtain m where m: "spin_until polls k = Some m" by auto
  have "k \<le> m \<and> polls m"
  proof (rule spin_until.raw_induct [where P = "\<lambda>polls k m. k \<le> m \<and> polls m", OF _ m])
    fix f polls k r
    assume IH: "\<And>polls k r. f polls k = Some r \<Longrightarrow> k \<le> r \<and> polls r"
      and eq: "(if polls k then Some k else f polls (Suc k)) = Some r"
    show "k \<le> r \<and> polls r"
    proof (cases "polls k")
      case False
      with eq have "f polls (Suc k) = Some r" by simp
      then show ?thesis using IH [of polls "Suc k" r] by simp
    qed (use eq in simp)
  qed
  with none show False by blast
qed

definition spin :: "(nat \<Rightarrow> bool) \<Rightarrow> 's \<Rightarrow> 's outcome" where
  "spin polls s = (case spin_until polls 0 of None \<Rightarrow> Stuck s | Some _ \<Rightarrow> Continue s)"

lemma spin_cases: "spin polls s = (if (\<exists>n. polls n) then Continue s else Stuck s)"
proof (cases "\<exists>n. polls n")
  case True
  then obtain m where "spin_until polls 0 = Some m"
    using spin_until_returns [of polls _ 0] by auto
  then show ?thesis using True by (simp add: spin_def)
next
  case False
  then show ?thesis using spin_until_None [of 0 polls] by (auto simp: spin_def)
qed

lemma run_stages_append:
  "run_stages (fs @ gs) s = and_then (run_stages fs s) (run_stages gs)"
proof (induction fs arbitrary: s)
  case (Cons f fs)
  then show ?case by (cases "f s") simp_all
qed simp

section \<open>Interrupts between stages\<close>

text \<open>A configuration is the index of the next stage and the state. The stages may depend on
  an input \<open>i\<close> (what the environment answers in that stage).\<close>

inductive fw_step :: "('i \<Rightarrow> ('s \<Rightarrow> 's outcome) list) \<Rightarrow> ('e \<Rightarrow> 's \<Rightarrow> 's)
    \<Rightarrow> nat \<times> 's \<Rightarrow> nat \<times> 's \<Rightarrow> bool"
  for stages irq
where
  fw_stage: "k < length (stages i) \<Longrightarrow> (stages i ! k) s = Continue s' \<Longrightarrow>
     fw_step stages irq (k, s) (Suc k mod length (stages i), s')"
| fw_irq: "fw_step stages irq (k, s) (k, irq e s)"

inductive fw_reach :: "('i \<Rightarrow> ('s \<Rightarrow> 's outcome) list) \<Rightarrow> ('e \<Rightarrow> 's \<Rightarrow> 's)
    \<Rightarrow> 's \<Rightarrow> nat \<times> 's \<Rightarrow> bool"
  for stages irq init
where
  fw_init: "fw_reach stages irq init (0, init)"
| fw_more: "fw_reach stages irq init c \<Longrightarrow> fw_step stages irq c c' \<Longrightarrow> fw_reach stages irq init c'"

inductive_cases fw_stepE [elim!]: "fw_step stages irq (k, s) c'"

text \<open>\<open>platform\<close> is what the firmware relies on of the code it calls. A firmware's invariant \<open>inv\<close>
  has to survive every stage and every handler as long as that holds.\<close>

locale main_loop =
  fixes platform :: bool
    and stages :: "'i \<Rightarrow> ('s \<Rightarrow> 's outcome) list"
    and irq :: "'e \<Rightarrow> 's \<Rightarrow> 's"
    and inv :: "'s \<Rightarrow> bool"
  assumes stage_inv: "platform \<Longrightarrow> f \<in> set (stages i) \<Longrightarrow> inv s \<Longrightarrow> outcome_ok inv (f s)"
    and irq_inv: "inv s \<Longrightarrow> inv (irq e s)"
begin

lemma run_stages_ok:
  "platform \<Longrightarrow> set fs \<subseteq> set (stages i) \<Longrightarrow> inv s \<Longrightarrow> outcome_ok inv (run_stages fs s)"
proof (induction fs arbitrary: s)
  case (Cons f fs)
  then have ok: "outcome_ok inv (f s)" by (intro stage_inv [of f i]) simp_all
  show ?case
  proof (cases "f s")
    case (Continue s')
    then show ?thesis using ok Cons.IH [of s'] Cons.prems(1,2) by simp
  qed (use ok in simp_all)
qed simp

lemma iteration_ok: "platform \<Longrightarrow> inv s \<Longrightarrow> outcome_ok inv (run_stages (stages i) s)"
  by (rule run_stages_ok [of _ i]) simp_all

lemma step_ok: "fw_step stages irq c c' \<Longrightarrow> platform \<Longrightarrow> inv (snd c) \<Longrightarrow> inv (snd c')"
proof (induction rule: fw_step.induct)
  case (fw_stage k i s s')
  then have "outcome_ok inv (Continue s')"
    by (metis nth_mem snd_conv stage_inv)
  then show ?case by simp
next
  case (fw_irq k s e)
  then show ?case by (simp add: irq_inv)
qed

lemma reach_inv: "fw_reach stages irq init c \<Longrightarrow> platform \<Longrightarrow> inv init \<Longrightarrow> inv (snd c)"
proof (induction rule: fw_reach.induct)
  case (fw_more c c')
  then show ?case by (auto intro: step_ok)
qed simp

lemma reach_no_undefined:
  assumes "fw_reach stages irq init (k, s)" and "platform" and "inv init"
    and "k < length (stages i)"
  shows "(stages i ! k) s \<noteq> Undefined"
proof -
  have "inv s" using reach_inv [OF assms(1-3)] by simp
  then have "outcome_ok inv ((stages i ! k) s)"
    using assms(2,4) by (intro stage_inv [of _ i]) simp_all
  then show ?thesis by auto
qed

end

section \<open>Refinement of an abstract specification\<close>

text \<open>An operation that always returns and does to the abstraction of the state what the
  specification says. \<open>run_refines\<close> carries it to every sequence of operations.\<close>

locale refinement =
  fixes platform :: bool
    and valid :: "'op \<Rightarrow> bool"
    and inv :: "'s \<Rightarrow> bool"
    and cstep :: "'op \<Rightarrow> 's \<Rightarrow> 's outcome"
    and astep :: "'op \<Rightarrow> 'a \<Rightarrow> 'a"
    and abs :: "'s \<Rightarrow> 'a"
  assumes step_refines: "platform \<Longrightarrow> valid op \<Longrightarrow> inv s \<Longrightarrow>
    \<exists>s'. cstep op s = Continue s' \<and> inv s' \<and> abs s' = astep op (abs s)"
begin

lemma run_refines:
  "platform \<Longrightarrow> list_all valid ops \<Longrightarrow> inv s \<Longrightarrow>
   \<exists>s'. run_stages (map cstep ops) s = Continue s' \<and> inv s' \<and> abs s' = fold astep ops (abs s)"
proof (induction ops arbitrary: s)
  case (Cons op ops)
  then obtain s1 where "cstep op s = Continue s1" "inv s1" "abs s1 = astep op (abs s)"
    using step_refines [of op s] by auto
  then show ?case using Cons.IH [of s1] Cons.prems by simp
qed simp

end

end
