(* ===== verification/Ipc.thy ===== *)
theory Ipc
  imports Protocol Main_Loop
begin

text \<open>
  The shared RAM of the two cores (\<open>ipc_shared_data_t\<close> of \<open>ipc.h\<close>) and the IPC channels.

  The network core copies a received firmware chunk into \<open>ota.chunk\<close> with a \<open>memcpy\<close> whose
  length is the packet's \<open>chunk_size\<close> byte, up to 255, while the array holds 128 bytes. So that
  such a copy is modelled as what it does to the packed struct, \<open>ota_tail\<close> is the struct's
  memory from \<open>ota.chunk\<close> to the end of \<open>tx_pdu\<close>, and \<open>set_ota_tail\<close> writes it back field by
  field. \<open>last_chunk_acked\<close> is an \<open>int32_t\<close> kept as its 32-bit pattern: the firmware only
  compares it for equality with a converted \<open>uint32_t\<close>.

  A \<open>mutex_lock()\<close> / \<open>mutex_unlock()\<close> pair always stands inside one stage; the copies between
  them are one step of the model, and access by access in \<open>Mutex\<close>.
\<close>

section \<open>Requests and channels\<close>

datatype ipc_req_t =
    IPC_REQ_NONE | IPC_MARI_INIT_REQ | IPC_MARI_NODE_TX_REQ | IPC_RNG_INIT_REQ | IPC_RNG_READ_REQ

datatype ipc_channels_t =
    IPC_CHAN_REQ
  | IPC_CHAN_RADIO_RX
  | IPC_CHAN_APPLICATION_START
  | IPC_CHAN_APPLICATION_STOP
  | IPC_CHAN_SOC_RESET
  | IPC_CHAN_LOG_EVENT
  | IPC_CHAN_OTA_START
  | IPC_CHAN_OTA_CHUNK
  | IPC_CHAN_CALIBRATION_DATA
  | IPC_CHAN_LH2_CAPTURE

fun chan_no :: "ipc_channels_t \<Rightarrow> nat" where
  "chan_no IPC_CHAN_REQ = 0"
| "chan_no IPC_CHAN_RADIO_RX = 1"
| "chan_no IPC_CHAN_APPLICATION_START = 2"
| "chan_no IPC_CHAN_APPLICATION_STOP = 3"
| "chan_no IPC_CHAN_SOC_RESET = 4"
| "chan_no IPC_CHAN_LOG_EVENT = 5"
| "chan_no IPC_CHAN_OTA_START = 6"
| "chan_no IPC_CHAN_OTA_CHUNK = 7"
| "chan_no IPC_CHAN_CALIBRATION_DATA = 8"
| "chan_no IPC_CHAN_LH2_CAPTURE = 9"

section \<open>The shared RAM\<close>

record ipc_log =
  log_length :: u8
  log_data :: bytes

record ipc_ota =
  ota_image_size :: u32
  ota_chunk_count :: u32
  ota_chunk_index :: u32
  ota_chunk_size :: u32
  ota_last_chunk_acked :: u32
  ota_chunk :: bytes

record radio_pdu =
  pdu_length :: u8
  pdu_buffer :: bytes

record lh2_calibration_ram =
  cal_count :: u32
  cal_homographies :: "matrix list"

record ipc_shared =
  net_ready :: bool
  net_ack :: bool
  sh_req :: ipc_req_t
  sh_status :: swrmt_application_status_t
  battery_level :: u16
  device_type :: swrmt_device_type_t
  sh_log :: ipc_log
  rng_value :: u8
  ota :: ipc_ota
  target_position :: position
  current_position :: position
  tx_pdu :: radio_pdu
  rx_pdu :: radio_pdu
  lh2_calibration :: lh2_calibration_ram

definition LH2_BASESTATION_COUNT_MAX :: nat where
  "LH2_BASESTATION_COUNT_MAX = 16"

definition matrices_ok :: "matrix list \<Rightarrow> bool" where
  "matrices_ok ms \<longleftrightarrow> length ms = LH2_BASESTATION_COUNT_MAX \<and> list_all matrix_ok ms"

text \<open>The sizes of the arrays, and the lengths the code keeps within them.\<close>

definition shared_ok :: "ipc_shared \<Rightarrow> bool" where
  "shared_ok sh \<longleftrightarrow>
     length (log_data (sh_log sh)) = 127 \<and> unat (log_length (sh_log sh)) \<le> 127 \<and>
     length (ota_chunk (ota sh)) = 128 \<and> unat (ota_chunk_size (ota sh)) \<le> 255 \<and>
     length (pdu_buffer (tx_pdu sh)) = 255 \<and> length (pdu_buffer (rx_pdu sh)) = 255 \<and>
     matrices_ok (cal_homographies (lh2_calibration sh))"

text \<open>The shared RAM after the start-up code has zeroed it.\<close>

definition shared_zero :: ipc_shared where
  "shared_zero =
     \<lparr>net_ready = False, net_ack = False, sh_req = IPC_REQ_NONE,
      sh_status = SWRMT_APPLICATION_READY, battery_level = 0,
      device_type = SWRMT_DEVICE_TYPE_UNKNOWN,
      sh_log = \<lparr>log_length = 0, log_data = replicate 127 0\<rparr>, rng_value = 0,
      ota = \<lparr>ota_image_size = 0, ota_chunk_count = 0, ota_chunk_index = 0, ota_chunk_size = 0,
             ota_last_chunk_acked = 0, ota_chunk = replicate 128 0\<rparr>,
      target_position = \<lparr>pos_x = 0, pos_y = 0\<rparr>, current_position = \<lparr>pos_x = 0, pos_y = 0\<rparr>,
      tx_pdu = \<lparr>pdu_length = 0, pdu_buffer = replicate 255 0\<rparr>,
      rx_pdu = \<lparr>pdu_length = 0, pdu_buffer = replicate 255 0\<rparr>,
      lh2_calibration = \<lparr>cal_count = 0, cal_homographies = replicate 16 zero_matrix\<rparr>\<rparr>"

lemma shared_ok_zero [simp]: "shared_ok shared_zero"
  by (simp add: shared_ok_def shared_zero_def matrices_ok_def LH2_BASESTATION_COUNT_MAX_def
        list_all_iff)

section \<open>The memory behind \<open>ota.chunk\<close>\<close>

definition ota_tail :: "ipc_shared \<Rightarrow> bytes" where
  "ota_tail sh =
     ota_chunk (ota sh) @ position_bytes (target_position sh) @
     position_bytes (current_position sh) @ [pdu_length (tx_pdu sh)] @ pdu_buffer (tx_pdu sh)"

definition set_ota_tail :: "bytes \<Rightarrow> ipc_shared \<Rightarrow> ipc_shared" where
  "set_ota_tail m sh =
     sh\<lparr>ota := (ota sh)\<lparr>ota_chunk := sub_bytes 0 128 m\<rparr>,
        target_position := position_of_bytes (sub_bytes 128 8 m),
        current_position := position_of_bytes (sub_bytes 136 8 m),
        tx_pdu := \<lparr>pdu_length = get8 144 m, pdu_buffer = sub_bytes 145 255 m\<rparr>\<rparr>"

text \<open>\<open>memcpy(ota.chunk, src, length src)\<close>, the copy running on into the next fields when
  \<open>src\<close> is longer than the array.\<close>

definition memcpy_ota_chunk :: "bytes \<Rightarrow> ipc_shared \<Rightarrow> ipc_shared" where
  "memcpy_ota_chunk src sh = set_ota_tail (blit 0 src (ota_tail sh)) sh"

text \<open>The \<open>ota.chunk_size\<close> bytes from \<open>ota.chunk\<close>, as the SHA-256 update and the flash write
  read them.\<close>

definition ota_chunk_bytes_read :: "ipc_shared \<Rightarrow> bytes" where
  "ota_chunk_bytes_read sh = take (unat (ota_chunk_size (ota sh))) (ota_tail sh)"

lemma length_ota_tail [simp]: "shared_ok sh \<Longrightarrow> length (ota_tail sh) = 400"
  by (simp add: ota_tail_def shared_ok_def)

lemma ota_tail_set:
  assumes "length m = 400"
  shows "ota_tail (set_ota_tail m sh) = m"
proof -
  have pos: "position_bytes (position_of_bytes (sub_bytes k 8 m)) = sub_bytes k 8 m"
    if "k + 8 \<le> length m" for k
    using that by (intro position_bytes_of_bytes) simp
  have "sub_bytes 0 128 m @ sub_bytes 128 8 m @ sub_bytes 136 8 m @ [m ! 144] @
      sub_bytes 145 255 m = m"
    using assms sub_bytes_join [of 0 128 m 272] sub_bytes_join [of 128 8 m 264]
      sub_bytes_join [of 136 8 m 256] sub_bytes_join [of 144 1 m 255] sub_bytes_Suc_0 [of 144 m]
    by (simp add: sub_bytes_all)
  then show ?thesis
    using assms by (simp add: ota_tail_def set_ota_tail_def pos get8_def)
qed

lemma shared_ok_set_ota_tail:
  "shared_ok sh \<Longrightarrow> length m = 400 \<Longrightarrow> shared_ok (set_ota_tail m sh)"
  by (simp add: shared_ok_def set_ota_tail_def)

lemma shared_ok_memcpy_ota_chunk [simp]:
  "shared_ok sh \<Longrightarrow> length src \<le> 400 \<Longrightarrow> shared_ok (memcpy_ota_chunk src sh)"
  by (simp add: memcpy_ota_chunk_def shared_ok_set_ota_tail)

text \<open>Reading back what was copied, and the fields the copy cannot reach.\<close>

lemma ota_tail_memcpy:
  assumes "shared_ok sh" and "length src \<le> 400"
  shows "ota_tail (memcpy_ota_chunk src sh) = blit 0 src (ota_tail sh)"
  using assms by (simp add: memcpy_ota_chunk_def ota_tail_set)

lemma memcpy_ota_chunk_frame [simp]:
  "net_ready (memcpy_ota_chunk src sh) = net_ready sh"
  "net_ack (memcpy_ota_chunk src sh) = net_ack sh"
  "sh_req (memcpy_ota_chunk src sh) = sh_req sh"
  "sh_status (memcpy_ota_chunk src sh) = sh_status sh"
  "battery_level (memcpy_ota_chunk src sh) = battery_level sh"
  "device_type (memcpy_ota_chunk src sh) = device_type sh"
  "sh_log (memcpy_ota_chunk src sh) = sh_log sh"
  "rng_value (memcpy_ota_chunk src sh) = rng_value sh"
  "rx_pdu (memcpy_ota_chunk src sh) = rx_pdu sh"
  "lh2_calibration (memcpy_ota_chunk src sh) = lh2_calibration sh"
  "ota_image_size (ota (memcpy_ota_chunk src sh)) = ota_image_size (ota sh)"
  "ota_chunk_count (ota (memcpy_ota_chunk src sh)) = ota_chunk_count (ota sh)"
  "ota_chunk_index (ota (memcpy_ota_chunk src sh)) = ota_chunk_index (ota sh)"
  "ota_chunk_size (ota (memcpy_ota_chunk src sh)) = ota_chunk_size (ota sh)"
  "ota_last_chunk_acked (ota (memcpy_ota_chunk src sh)) = ota_last_chunk_acked (ota sh)"
  by (simp_all add: memcpy_ota_chunk_def set_ota_tail_def)

text \<open>A copy of at most 128 bytes touches the array only.\<close>

lemma memcpy_ota_chunk_fits:
  assumes ok: "shared_ok sh" and fits: "length src \<le> 128"
  shows "memcpy_ota_chunk src sh = sh\<lparr>ota := (ota sh)\<lparr>ota_chunk := blit 0 src (ota_chunk (ota sh))\<rparr>\<rparr>"
proof -
  have len: "length (ota_chunk (ota sh)) = 128" "length (pdu_buffer (tx_pdu sh)) = 255"
    using ok by (simp_all add: shared_ok_def)
  define rest where "rest = position_bytes (target_position sh) @
     position_bytes (current_position sh) @ [pdu_length (tx_pdu sh)] @ pdu_buffer (tx_pdu sh)"
  have tail: "blit 0 src (ota_tail sh) = blit 0 src (ota_chunk (ota sh)) @ rest"
    using fits len by (simp add: blit_def ota_tail_def rest_def)
  define new where "new = blit 0 src (ota_chunk (ota sh))"
  have new: "length new = 128" using fits len by (simp add: new_def)
  show ?thesis
    unfolding memcpy_ota_chunk_def tail new_def [symmetric]
    using new len
    by (simp add: set_ota_tail_def rest_def buf_simps get8_skip get8_Cons)
       (simp add: sub_bytes_def get8_def)
qed

end
