(* ===== verification/Nvmc.thy ===== *)
theory Nvmc
  imports Prelude
begin

text \<open>
  The flash drivers (\<open>nvmc.c\<close> and \<open>nvmc.h\<close> of the application core, of the network core and
  of the single-core bootloader). The state is the flash contents, one 32-bit cell per aligned
  address, and the write-enable mode of the controller's CONFIG register.

  What a store into the flash does in each mode is the controller's business and a parameter
  \<open>hw\<close> of every operation; \<open>nor_flash\<close> states the documented behaviour the drivers rely on:
  programming can only clear bits, and a store in erase mode sets a whole page to ones. The
  locale \<open>flash_driver\<close> is the interface the components that use flash are proved against;
  each of the three drivers is an instance. The polling of the READY register has no effect on
  the state and is not modelled.
\<close>

datatype wen = Ren | Wen | Een

record flash =
  cells :: "u32 \<Rightarrow> u32"
  config_wen :: wen

type_synonym flash_hw = "wen \<Rightarrow> u32 \<Rightarrow> u32 \<Rightarrow> (u32 \<Rightarrow> u32) \<Rightarrow> (u32 \<Rightarrow> u32)"

text \<open>A 32-bit store to a flash address.\<close>

definition flash_store :: "flash_hw \<Rightarrow> u32 \<Rightarrow> u32 \<Rightarrow> flash \<Rightarrow> flash" where
  "flash_store hw a v f = f\<lparr>cells := hw (config_wen f) a v (cells f)\<rparr>"

definition nor_flash :: "u32 \<Rightarrow> flash_hw \<Rightarrow> bool" where
  "nor_flash psize hw \<longleftrightarrow>
     (\<forall>a v c. hw Wen a v c = c(a := c a AND v)) \<and>
     (\<forall>a v c. hw Een a v c = (\<lambda>b. if b div psize = a div psize then 0xFFFFFFFF else c b))"

definition nor_hw :: "u32 \<Rightarrow> flash_hw" where
  "nor_hw psize m a v c =
     (case m of Ren \<Rightarrow> c
      | Wen \<Rightarrow> c(a := c a AND v)
      | Een \<Rightarrow> (\<lambda>b. if b div psize = a div psize then 0xFFFFFFFF else c b))"

lemma nor_flash_nor_hw [simp]: "nor_flash psize (nor_hw psize)"
  by (simp add: nor_flash_def nor_hw_def)

section \<open>The drivers\<close>

subsection \<open>Application core (4 KiB pages from address 0)\<close>

definition APP_FLASH_PAGE_SIZE :: u32 where
  "APP_FLASH_PAGE_SIZE = 4096"

definition app_nvmc_page_erase :: "flash_hw \<Rightarrow> u32 \<Rightarrow> flash \<Rightarrow> flash" where
  "app_nvmc_page_erase hw page f =
     flash_store hw (page * APP_FLASH_PAGE_SIZE) 0xFFFFFFFF (f\<lparr>config_wen := Een\<rparr>)"

definition nvmc_write_words :: "flash_hw \<Rightarrow> u32 \<Rightarrow> bytes \<Rightarrow> nat \<Rightarrow> flash \<Rightarrow> flash" where
  "nvmc_write_words hw addr data n f =
     fold (\<lambda>i f. flash_store hw (addr + 4 * of_nat i) (get32 (4 * i) data) f) [0..<n] f"

definition app_nvmc_write :: "flash_hw \<Rightarrow> u32 \<Rightarrow> bytes \<Rightarrow> nat \<Rightarrow> flash \<Rightarrow> flash" where
  "app_nvmc_write hw addr data len f =
     (nvmc_write_words hw addr data (len div 4) (f\<lparr>config_wen := Wen\<rparr>))\<lparr>config_wen := Ren\<rparr>"

subsection \<open>Network core (2 KiB pages from \<open>FLASH_OFFSET\<close>)\<close>

definition NET_FLASH_PAGE_SIZE :: u32 where
  "NET_FLASH_PAGE_SIZE = 2048"

definition NET_FLASH_OFFSET :: u32 where
  "NET_FLASH_OFFSET = 0x01000000"

definition net_nvmc_page_erase :: "flash_hw \<Rightarrow> u32 \<Rightarrow> flash \<Rightarrow> flash" where
  "net_nvmc_page_erase hw page f =
     flash_store hw (NET_FLASH_OFFSET + page * NET_FLASH_PAGE_SIZE) 0xFFFFFFFF
       (f\<lparr>config_wen := Een\<rparr>)"

definition net_nvmc_write :: "flash_hw \<Rightarrow> u32 \<Rightarrow> bytes \<Rightarrow> nat \<Rightarrow> flash \<Rightarrow> flash" where
  "net_nvmc_write hw addr data len f =
     (nvmc_write_words hw addr data (len div 4) (f\<lparr>config_wen := Wen\<rparr>))\<lparr>config_wen := Ren\<rparr>"

subsection \<open>Single-core bootloader\<close>

definition sc_nvmc_page_erase :: "flash_hw \<Rightarrow> u32 \<Rightarrow> flash \<Rightarrow> flash" where
  "sc_nvmc_page_erase hw page f =
     flash_store hw (page * 4096) 0xFFFFFFFF (f\<lparr>config_wen := Een\<rparr>)"

definition sc_nvmc_write :: "flash_hw \<Rightarrow> u32 \<Rightarrow> bytes \<Rightarrow> nat \<Rightarrow> flash \<Rightarrow> flash" where
  "sc_nvmc_write hw addr data len f =
     (nvmc_write_words hw addr data (len div 4) (f\<lparr>config_wen := Wen\<rparr>))\<lparr>config_wen := Ren\<rparr>"

section \<open>What the write loop leaves in the flash\<close>

lemma nvmc_write_words_0 [simp]: "nvmc_write_words hw addr data 0 f = f"
  by (simp add: nvmc_write_words_def)

lemma nvmc_write_words_Suc:
  "nvmc_write_words hw addr data (Suc n) f =
     flash_store hw (addr + 4 * of_nat n) (get32 (4 * n) data)
       (nvmc_write_words hw addr data n f)"
  by (simp add: nvmc_write_words_def)

lemma config_wen_write_words [simp]:
  "config_wen (nvmc_write_words hw addr data n f) = config_wen f"
  by (induction n) (simp_all add: nvmc_write_words_Suc flash_store_def)

lemma word_offset_eq:
  fixes a b :: u32
  assumes "k < 2 ^ 30"
  shows "b = a + 4 * of_nat k \<longleftrightarrow> unat (b - a) = 4 * k"
proof -
  have small: "4 * k < 2 ^ 32" using assms by simp
  have "unat (of_nat (4 * k) :: u32) = 4 * k"
    using small by (simp only: unat_of_nat) simp
  then have u: "unat (4 * of_nat k :: u32) = 4 * k" by simp
  show ?thesis
  proof
    assume "b = a + 4 * of_nat k"
    then have "b - a = 4 * of_nat k" by simp
    then show "unat (b - a) = 4 * k" using u by simp
  next
    assume "unat (b - a) = 4 * k"
    then have "b - a = 4 * of_nat k" by (metis u word_unat_eq_iff)
    then show "b = a + 4 * of_nat k" by (simp add: algebra_simps)
  qed
qed

text \<open>The cell at byte offset \<open>4 * i\<close> from the start holds word \<open>i\<close> of the data, ANDed
  into what was there; every other cell keeps its contents.\<close>

definition written :: "u32 \<Rightarrow> bytes \<Rightarrow> nat \<Rightarrow> (u32 \<Rightarrow> u32) \<Rightarrow> u32 \<Rightarrow> u32" where
  "written addr data n c b =
     (let k = unat (b - addr)
      in if k mod 4 = 0 \<and> k div 4 < n then c b AND get32 k data else c b)"

lemma cells_write_words:
  assumes "nor_flash psize hw" and "config_wen f = Wen" and "n \<le> 2 ^ 30"
  shows "cells (nvmc_write_words hw addr data n f) = written addr data n (cells f)"
  using assms(3)
proof (induction n)
  case 0
  show ?case by (rule ext) (simp add: written_def Let_def)
next
  case (Suc n)
  then have IH: "cells (nvmc_write_words hw addr data n f) = written addr data n (cells f)"
    and n: "n < 2 ^ 30" by simp_all
  have step: "cells (nvmc_write_words hw addr data (Suc n) f) =
      (written addr data n (cells f))(addr + 4 * of_nat n :=
         written addr data n (cells f) (addr + 4 * of_nat n) AND get32 (4 * n) data)"
    using assms(1,2) IH by (simp add: nvmc_write_words_Suc flash_store_def nor_flash_def)
  show ?case
  proof (rule ext)
    fix b
    have eq: "b = addr + 4 * of_nat n \<longleftrightarrow> unat (b - addr) = 4 * n"
      by (rule word_offset_eq [OF n])
    have split: "k mod 4 = 0 \<and> k div 4 < Suc n \<longleftrightarrow>
        (k mod 4 = 0 \<and> k div 4 < n) \<or> k = 4 * n" for k :: nat
      by presburger
    show "cells (nvmc_write_words hw addr data (Suc n) f) b
        = written addr data (Suc n) (cells f) b"
      unfolding step using eq by (auto simp: written_def Let_def split)
  qed
qed

section \<open>The driver interface\<close>

text \<open>What a client of a flash driver relies on: erasing a page sets exactly its cells to
  ones, and writing ANDs whole words into consecutive cells (a last partial word is not
  written).\<close>

locale flash_driver =
  fixes erase :: "flash_hw \<Rightarrow> u32 \<Rightarrow> flash \<Rightarrow> flash"
    and prog :: "flash_hw \<Rightarrow> u32 \<Rightarrow> bytes \<Rightarrow> nat \<Rightarrow> flash \<Rightarrow> flash"
    and psize :: u32
    and base :: u32
  assumes erase_cells:
      "nor_flash psize hw \<Longrightarrow>
       cells (erase hw page f) b =
         (if b div psize = (base + page * psize) div psize then 0xFFFFFFFF else cells f b)"
    and write_cells:
      "nor_flash psize hw \<Longrightarrow> len < 2 ^ 32 \<Longrightarrow>
       cells (prog hw addr data len f) = written addr data (len div 4) (cells f)"
begin

lemma write_erased:
  assumes hw: "nor_flash psize hw" and len: "len < 2 ^ 32"
    and er: "\<And>j. j < len div 4 \<Longrightarrow> cells f (addr + 4 * of_nat j) = 0xFFFFFFFF"
    and i: "i < len div 4"
  shows "cells (prog hw addr data len f) (addr + 4 * of_nat i) = get32 (4 * i) data"
proof -
  have small: "i < 2 ^ 30" using i len by simp
  have k: "unat ((addr + 4 * of_nat i) - addr) = 4 * i"
    using word_offset_eq [OF small, of "addr + 4 * of_nat i" addr] by simp
  show ?thesis
    unfolding write_cells [OF hw len] written_def Let_def k
    using er [OF i] i by simp
qed

lemma write_frame:
  assumes "nor_flash psize hw" and "len < 2 ^ 32" and "len \<le> unat (b - addr)"
  shows "cells (prog hw addr data len f) b = cells f b"
proof -
  have "\<not> unat (b - addr) div 4 < len div 4"
    using assms(3) by (simp add: div_le_mono not_less)
  then show ?thesis
    by (simp add: write_cells [OF assms(1,2)] written_def Let_def)
qed

lemma write_idem:
  assumes "nor_flash psize hw" and "len < 2 ^ 32"
  shows "cells (prog hw addr data len (prog hw addr data len f))
       = cells (prog hw addr data len f)"
  by (rule ext) (simp add: write_cells [OF assms] written_def Let_def and.assoc)

end

lemma cells_driver_write:
  assumes "nor_flash psize hw" and "len < 2 ^ 32"
  shows "cells ((nvmc_write_words hw addr data (len div 4) (f\<lparr>config_wen := Wen\<rparr>))
            \<lparr>config_wen := Ren\<rparr>) = written addr data (len div 4) (cells f)"
proof -
  have "len div 4 \<le> 2 ^ 30" using assms(2) by simp
  then show ?thesis using cells_write_words [OF assms(1)] by simp
qed

lemma cells_driver_erase:
  "nor_flash psize hw \<Longrightarrow>
   cells (flash_store hw a 0xFFFFFFFF (f\<lparr>config_wen := Een\<rparr>)) b =
     (if b div psize = a div psize then 0xFFFFFFFF else cells f b)"
  by (simp add: flash_store_def nor_flash_def)

lemmas driver_cells = cells_driver_write cells_driver_erase

interpretation app_flash: flash_driver app_nvmc_page_erase app_nvmc_write APP_FLASH_PAGE_SIZE 0
  by unfold_locales (simp_all only: app_nvmc_page_erase_def app_nvmc_write_def driver_cells add_0)

interpretation net_flash:
  flash_driver net_nvmc_page_erase net_nvmc_write NET_FLASH_PAGE_SIZE NET_FLASH_OFFSET
  by unfold_locales (simp_all only: net_nvmc_page_erase_def net_nvmc_write_def driver_cells)

interpretation sc_flash: flash_driver sc_nvmc_page_erase sc_nvmc_write 4096 0
  by unfold_locales (simp_all only: sc_nvmc_page_erase_def sc_nvmc_write_def driver_cells add_0)

end
