(* ===== verification/Config.thy ===== *)
theory Config
  imports Ipc Nvmc
begin

text \<open>
  The configuration page of the network core (\<open>swarmit_config_t\<close>, the last flash page): its
  image in flash, what \<open>_load_config\<close> takes from it, and what \<open>_commit_config_and_reboot\<close>
  writes. The triple copy loop into the shared RAM is kept as loops and proved equal to copying
  the first \<open>n\<close> matrices.
\<close>

definition SWARMIT_NET_CONFIG_START_ADDRESS :: u32 where
  "SWARMIT_NET_CONFIG_START_ADDRESS = 0x0103F800"

definition SWARMIT_NET_CONFIG_PAGE :: u32 where
  "SWARMIT_NET_CONFIG_PAGE = 127"

definition SWARMIT_CONFIG_MAGIC_VALUE :: u32 where
  "SWARMIT_CONFIG_MAGIC_VALUE = 0x5753524D"

definition SWARMIT_DEFAULT_NET_ID :: u16 where
  "SWARMIT_DEFAULT_NET_ID = 0xA000"

record swarmit_config =
  cfg_magic :: u32
  cfg_has_net_id :: u32
  cfg_net_id :: u32
  cfg_homography_count :: u32
  cfg_homographies :: "matrix list"

definition SWARMIT_CONFIG_SIZE :: nat where
  "SWARMIT_CONFIG_SIZE = 592"

text \<open>The bytes of the struct, and the struct read out of flash words from address \<open>a\<close>.\<close>

definition config_bytes :: "swarmit_config \<Rightarrow> bytes" where
  "config_bytes c =
     le32 (cfg_magic c) @ le32 (cfg_has_net_id c) @ le32 (cfg_net_id c) @
     le32 (cfg_homography_count c) @ concat (map matrix_bytes (cfg_homographies c))"

definition config_of_words :: "(nat \<Rightarrow> u32) \<Rightarrow> swarmit_config" where
  "config_of_words w =
     \<lparr>cfg_magic = w 0, cfg_has_net_id = w 1, cfg_net_id = w 2, cfg_homography_count = w 3,
      cfg_homographies =
        map (\<lambda>i. map (\<lambda>r. map (\<lambda>c. w (4 + 9 * i + 3 * r + c)) [0..<3]) [0..<3]) [0..<16]\<rparr>"

definition read_config :: "flash \<Rightarrow> swarmit_config" where
  "read_config f =
     config_of_words (\<lambda>k. cells f (SWARMIT_NET_CONFIG_START_ADDRESS + 4 * of_nat k))"

lemma config_size: "sizeof swarmit_config_t = SWARMIT_CONFIG_SIZE"
  by (simp add: packet_layouts SWARMIT_CONFIG_SIZE_def)

lemma length_concat_matrix_bytes:
  "list_all matrix_ok ms \<Longrightarrow> length (concat (map matrix_bytes ms)) = 36 * length ms"
  by (induction ms) (simp_all add: length_matrix_bytes)

lemma length_config_bytes:
  "matrices_ok (cfg_homographies c) \<Longrightarrow> length (config_bytes c) = SWARMIT_CONFIG_SIZE"
  by (simp add: config_bytes_def matrices_ok_def length_concat_matrix_bytes
        LH2_BASESTATION_COUNT_MAX_def SWARMIT_CONFIG_SIZE_def)

lemma matrices_ok_config_of_words [simp]: "matrices_ok (cfg_homographies (config_of_words w))"
  by (simp add: config_of_words_def matrices_ok_def LH2_BASESTATION_COUNT_MAX_def list_all_iff
        matrix_ok_def)

lemma config_of_words_cong:
  assumes "\<And>k. k < 148 \<Longrightarrow> w k = w' k"
  shows "config_of_words w = config_of_words w'"
proof -
  have "w (4 + 9 * i + 3 * r + c) = w' (4 + 9 * i + 3 * r + c)"
    if "i < 16" "r < 3" "c < 3" for i r c
    using that by (intro assms) simp
  then show ?thesis using assms [of 0] assms [of 1] assms [of 2] assms [of 3]
    by (simp add: config_of_words_def)
qed

text \<open>Word \<open>9 * i + j\<close> of a run of encoded matrices is entry \<open>j\<close> of matrix \<open>i\<close>.\<close>

lemma get32_matrices:
  "list_all matrix_ok ms \<Longrightarrow> i < length ms \<Longrightarrow> r < 3 \<Longrightarrow> c < 3 \<Longrightarrow>
   get32 (4 * (9 * i + 3 * r + c)) (concat (map matrix_bytes ms)) = ms ! i ! r ! c"
proof (induction ms arbitrary: i)
  case (Cons m ms)
  then have m: "matrix_ok m" by simp
  show ?case
  proof (cases i)
    case 0
    have "matrix_of_bytes (matrix_bytes m @ concat (map matrix_bytes ms)) = m"
      using m by (rule matrix_of_matrix_bytes)
    moreover have "matrix_of_bytes b ! r ! c = get32 (4 * (3 * r + c)) b" for b
      using Cons.prems(3,4) by (simp add: matrix_of_bytes_def)
    ultimately show ?thesis using 0 by (simp del: upt_Suc) (metis add_mult_distrib2)
  next
    case (Suc j)
    have eq: "4 * (9 * Suc j + 3 * r + c) - 36 = 4 * (9 * j + 3 * r + c)" by simp
    have "get32 (4 * (9 * Suc j + 3 * r + c)) (matrix_bytes m @ concat (map matrix_bytes ms))
        = get32 (4 * (9 * j + 3 * r + c)) (concat (map matrix_bytes ms))"
      unfolding eq [symmetric]
      by (subst get32_skip) (simp_all add: length_matrix_bytes [OF m])
    then show ?thesis using Cons.IH [of j] Cons.prems Suc by simp
  qed
qed simp

lemma nth3_map:
  "length xs = 3 \<Longrightarrow> map (\<lambda>c. xs ! c) [0..<3] = xs"
  by (metis map_nth)

lemma config_of_config_bytes:
  assumes "matrices_ok (cfg_homographies c)"
  shows "config_of_words (\<lambda>k. get32 (4 * k) (config_bytes c)) = c"
proof -
  define ms where "ms = cfg_homographies c"
  have ms: "list_all matrix_ok ms" "length ms = 16"
    using assms by (simp_all add: ms_def matrices_ok_def LH2_BASESTATION_COUNT_MAX_def)
  have head: "get32 0 (config_bytes c) = cfg_magic c" "get32 4 (config_bytes c) = cfg_has_net_id c"
    "get32 8 (config_bytes c) = cfg_net_id c" "get32 12 (config_bytes c) = cfg_homography_count c"
    by (simp_all add: config_bytes_def codec_simps)
  have tail: "get32 (4 * (4 + 9 * i + 3 * r + k)) (config_bytes c) = ms ! i ! r ! k"
    if "i < 16" "r < 3" "k < 3" for i r k
    using get32_matrices [OF ms(1), of i r k] that ms(2)
    by (simp add: config_bytes_def get32_skip ms_def algebra_simps)
  have rows: "length (ms ! i) = 3" "\<And>r. r < 3 \<Longrightarrow> length (ms ! i ! r) = 3" if "i < 16" for i
  proof -
    have "matrix_ok (ms ! i)" using ms that by (simp add: list_all_iff)
    then show "length (ms ! i) = 3" "\<And>r. r < 3 \<Longrightarrow> length (ms ! i ! r) = 3"
      by (simp_all add: matrix_ok_def list_all_iff)
  qed
  have row: "map (\<lambda>k. get32 (4 * (4 + 9 * i + 3 * r + k)) (config_bytes c)) [0..<3] = ms ! i ! r"
    if "i < 16" "r < 3" for i r
    using that tail rows(2) by (intro nth_equalityI) simp_all
  have mat: "map (\<lambda>r. map (\<lambda>k. get32 (4 * (4 + 9 * i + 3 * r + k)) (config_bytes c)) [0..<3]) [0..<3]
      = ms ! i" if "i < 16" for i
    using that row rows(1) by (intro nth_equalityI) simp_all
  have "map (\<lambda>i. map (\<lambda>r. map (\<lambda>k. get32 (4 * (4 + 9 * i + 3 * r + k)) (config_bytes c))
      [0..<3]) [0..<3]) [0..<16] = ms"
    using mat ms(2) by (intro nth_equalityI) simp_all
  then show ?thesis using head by (simp add: config_of_words_def ms_def)
qed

section \<open>Loading\<close>

definition config_net_id :: "swarmit_config \<Rightarrow> u16" where
  "config_net_id c =
     (if cfg_magic c = SWARMIT_CONFIG_MAGIC_VALUE \<and> cfg_has_net_id c = 1
      then ucast (cfg_net_id c AND 0xFFFF)
      else SWARMIT_DEFAULT_NET_ID)"

definition config_calibrated :: "swarmit_config \<Rightarrow> bool" where
  "config_calibrated c \<longleftrightarrow>
     cfg_magic c = SWARMIT_CONFIG_MAGIC_VALUE \<and> 0 < cfg_homography_count c \<and>
     unat (cfg_homography_count c) \<le> LH2_BASESTATION_COUNT_MAX"

definition set_cell :: "nat \<Rightarrow> nat \<Rightarrow> nat \<Rightarrow> u32 \<Rightarrow> matrix list \<Rightarrow> matrix list" where
  "set_cell i r c v ms = ms[i := (ms ! i)[r := (ms ! i ! r)[c := v]]]"

definition copy_homographies :: "nat \<Rightarrow> matrix list \<Rightarrow> matrix list \<Rightarrow> matrix list" where
  "copy_homographies n src dst =
     fold (\<lambda>idx. fold (\<lambda>row. fold (\<lambda>col. set_cell idx row col (src ! idx ! row ! col))
       [0..<3]) [0..<3]) [0..<n] dst"

lemma copy_one_matrix:
  assumes "matrix_ok (src ! i)" and "matrix_ok (dst ! i)" and "i < length dst"
  shows "fold (\<lambda>row. fold (\<lambda>col. set_cell i row col (src ! i ! row ! col)) [0..<3]) [0..<3] dst
       = dst[i := src ! i]"
proof -
  obtain a b c d e f g h k where s: "src ! i = [[a, b, c], [d, e, f], [g, h, k]]"
    using assms(1) by (rule matrix_okE)
  obtain a' b' c' d' e' f' g' h' k' where d: "dst ! i = [[a', b', c'], [d', e', f'], [g', h', k']]"
    using assms(2) by (rule matrix_okE)
  show ?thesis using assms(3) by (simp add: upt_3 set_cell_def s d numeral_2_eq_2)
qed

lemma copy_homographies_eq:
  assumes "matrices_ok src" and "matrices_ok dst" and "n \<le> LH2_BASESTATION_COUNT_MAX"
  shows "copy_homographies n src dst = take n src @ drop n dst"
  using assms(3)
proof (induction n)
  case 0
  show ?case by (simp add: copy_homographies_def)
next
  case (Suc n)
  define d where "d = take n src @ drop n dst"
  have len: "length src = 16" "length dst = 16" and n: "n < 16"
    using assms(1,2) Suc.prems by (simp_all add: matrices_ok_def LH2_BASESTATION_COUNT_MAX_def)
  have IH: "copy_homographies n src dst = d"
    using Suc by (simp add: d_def)
  have dn: "d ! n = dst ! n" "length d = 16"
    using len n by (simp_all add: d_def nth_append)
  have ok: "matrix_ok (src ! n)" "matrix_ok (dst ! n)"
    using assms(1,2) n len by (simp_all add: matrices_ok_def list_all_iff)
  have "copy_homographies (Suc n) src dst = d[n := src ! n]"
    using copy_one_matrix [of src n d] ok dn n IH
    by (simp add: copy_homographies_def)
  also have "d[n := src ! n] = take (Suc n) src @ drop (Suc n) dst"
    using len n
    by (simp add: d_def list_update_append take_Suc_conv_app_nth Cons_nth_drop_Suc [symmetric])
  finally show ?case .
qed

lemma matrices_ok_copy:
  assumes "matrices_ok src" and "matrices_ok dst" and "n \<le> LH2_BASESTATION_COUNT_MAX"
  shows "matrices_ok (copy_homographies n src dst)"
  using assms
  by (auto simp: copy_homographies_eq matrices_ok_def list_all_iff
        dest: in_set_takeD in_set_dropD)

section \<open>Committing\<close>

definition write_config :: "flash_hw \<Rightarrow> swarmit_config \<Rightarrow> flash \<Rightarrow> flash" where
  "write_config hw c f =
     net_nvmc_write hw SWARMIT_NET_CONFIG_START_ADDRESS (config_bytes c) SWARMIT_CONFIG_SIZE
       (net_nvmc_page_erase hw SWARMIT_NET_CONFIG_PAGE f)"

lemma config_page_cell:
  "k < 148 \<Longrightarrow>
   (SWARMIT_NET_CONFIG_START_ADDRESS + 4 * of_nat k) div NET_FLASH_PAGE_SIZE =
     (NET_FLASH_OFFSET + SWARMIT_NET_CONFIG_PAGE * NET_FLASH_PAGE_SIZE) div NET_FLASH_PAGE_SIZE"
proof -
  assume k: "k < 148"
  have "unat (of_nat (0x0103F800 + 4 * k) :: u32) = 0x0103F800 + 4 * k"
    using k by (simp only: unat_of_nat) simp
  then have u: "unat (SWARMIT_NET_CONFIG_START_ADDRESS + 4 * of_nat k) = 0x0103F800 + 4 * k"
    by (simp add: SWARMIT_NET_CONFIG_START_ADDRESS_def)
  have "(0x0103F800 + 4 * k) div 2048 = 8319" using k by simp
  then have "unat ((SWARMIT_NET_CONFIG_START_ADDRESS + 4 * of_nat k) div NET_FLASH_PAGE_SIZE)
      = unat (8319 :: u32)"
    using u by (simp add: unat_div NET_FLASH_PAGE_SIZE_def)
  then show ?thesis
    unfolding word_unat_eq_iff
    by (simp add: NET_FLASH_OFFSET_def SWARMIT_NET_CONFIG_PAGE_def NET_FLASH_PAGE_SIZE_def)
qed

lemma read_write_config:
  assumes hw: "nor_flash NET_FLASH_PAGE_SIZE hw" and ok: "matrices_ok (cfg_homographies c)"
  shows "read_config (write_config hw c f) = c"
proof -
  let ?f = "net_nvmc_page_erase hw SWARMIT_NET_CONFIG_PAGE f"
  have er: "cells ?f (SWARMIT_NET_CONFIG_START_ADDRESS + 4 * of_nat j) = 0xFFFFFFFF"
    if "j < 148" for j
    using net_flash.erase_cells [OF hw] config_page_cell [OF that] by simp
  have word: "cells (write_config hw c f) (SWARMIT_NET_CONFIG_START_ADDRESS + 4 * of_nat k)
      = get32 (4 * k) (config_bytes c)" if "k < 148" for k
    unfolding write_config_def
    by (rule net_flash.write_erased [OF hw]) (use that er in \<open>simp_all add: SWARMIT_CONFIG_SIZE_def\<close>)
  have "read_config (write_config hw c f) = config_of_words (\<lambda>k. get32 (4 * k) (config_bytes c))"
    unfolding read_config_def using word by (rule config_of_words_cong)
  then show ?thesis using config_of_config_bytes [OF ok] by simp
qed

end
