(* ===== verification/Netcore.thy ===== *)
theory Netcore
  imports Config
begin

text \<open>
  The network core (\<open>network_core/Source/main.c\<close>): the radio callback \<open>_handle_packet\<close>, the
  timer and IPC interrupt handlers, and the stages of the main loop, on one record that holds
  \<open>_app_vars\<close>, the shared RAM, the flash, the pending IPC events and what the core has sent.

  Parameters stand for code outside the repository: the SHA-256 of DotBot-libs, and from Mari
  the broadcast address, the size and type byte of its metrics probe and the function that
  stores the five probe fields. A stage's input is what Mari, the timer and the RNG answer in
  it. Debug GPIO pulses and \<open>printf\<close>/\<open>puts\<close> output are left out.
\<close>

section \<open>State\<close>

datatype mari_tx_config = SWARMIT_TX_DEFAULT | SWARMIT_TX_DOTBOT_FORWARD | MARI_TX_INTERNAL

datatype net_event =
    NE_IpcSend ipc_channels_t
  | NE_MariTx mari_tx_config bytes
  | NE_MariInit u16
  | NE_RngInit

record netcore =
  n_req_received :: bool
  n_data_received :: bool
  n_send_status :: bool
  n_req_buffer :: bytes
  n_notification_buffer :: bytes
  n_ipc_req :: ipc_req_t
  n_ipc_log_received :: bool
  n_expected_hash :: bytes
  n_computed_hash :: bytes
  n_device_id :: u64
  n_mari_net_id :: u16
  n_mari_initialized :: bool
  n_metrics_rx_counter :: u32
  n_metrics_tx_counter :: u32
  n_metrics_received :: bool
  n_config :: swarmit_config
  n_lh2_calibration_ready :: bool
  n_shared :: ipc_shared
  n_flash :: flash
  n_events :: "ipc_channels_t \<Rightarrow> bool"
  n_out :: "net_event list"

record net_env =
  env_sha256 :: "bytes \<Rightarrow> bytes"
  env_metrics_size :: nat
  env_metrics_probe :: u8
  env_broadcast :: u64
  env_fill_metrics :: "u32 \<Rightarrow> u64 \<Rightarrow> u32 \<Rightarrow> u64 \<Rightarrow> u8 \<Rightarrow> bytes \<Rightarrow> bytes"
  env_flash_hw :: flash_hw

record net_input =
  in_connected :: "nat \<Rightarrow> bool"
  in_rng :: u8
  in_asn_rx :: u64
  in_asn_tx :: u64
  in_rssi :: u8
  in_now :: u32

definition SWRMT_OTA_SHA256_LENGTH :: nat where
  "SWRMT_OTA_SHA256_LENGTH = 32"

text \<open>What the code relies on of the parameters: the probe fits the receive buffer, storing its
  fields does not change its size, and a SHA-256 digest has 32 bytes.\<close>

definition env_ok :: "net_env \<Rightarrow> bool" where
  "env_ok e \<longleftrightarrow> env_metrics_size e \<le> 255 \<and>
     (\<forall>a b c d r m. length (env_fill_metrics e a b c d r m) = length m) \<and>
     (\<forall>m. length (env_sha256 e m) = SWRMT_OTA_SHA256_LENGTH)"

definition emit :: "net_event \<Rightarrow> netcore \<Rightarrow> netcore" where
  "emit ev s = s\<lparr>n_out := n_out s @ [ev]\<rparr>"

definition on_shared :: "(ipc_shared \<Rightarrow> ipc_shared) \<Rightarrow> netcore \<Rightarrow> netcore" where
  "on_shared g s = s\<lparr>n_shared := g (n_shared s)\<rparr>"

definition on_ota :: "(ipc_ota \<Rightarrow> ipc_ota) \<Rightarrow> netcore \<Rightarrow> netcore" where
  "on_ota g = on_shared (\<lambda>sh. sh\<lparr>ota := g (ota sh)\<rparr>)"

definition set_status :: "swrmt_application_status_t \<Rightarrow> netcore \<Rightarrow> netcore" where
  "set_status st = on_shared (\<lambda>sh. sh\<lparr>sh_status := st\<rparr>)"

abbreviation n_status :: "netcore \<Rightarrow> swrmt_application_status_t" where
  "n_status s \<equiv> sh_status (n_shared s)"

abbreviation n_ota :: "netcore \<Rightarrow> ipc_ota" where
  "n_ota s \<equiv> ota (n_shared s)"

lemmas net_upd_defs = emit_def on_shared_def on_ota_def set_status_def

section \<open>Receiving a packet\<close>

text \<open>The type bytes that go to the request handler.\<close>

definition is_request :: "u8 \<Rightarrow> bool" where
  "is_request t \<longleftrightarrow>
     (msg_code SWRMT_MSG_STATUS \<le> t \<and> t \<le> msg_code SWRMT_MSG_OTA_CHUNK) \<or>
     t = msg_code SWRMT_MSG_LH2_CALIBRATION \<or> t = msg_code SWRMT_MSG_LH2_CAPTURE"

text \<open>The bytes at a packet pointer: \<open>length\<close> is a \<open>uint8_t\<close>, so at most 255 of them.\<close>

definition packet_bytes :: "(nat \<Rightarrow> u8) \<Rightarrow> u8 \<Rightarrow> bytes" where
  "packet_bytes packet len = map packet [0..<unat len]"

definition handle_packet :: "net_env \<Rightarrow> u64 \<Rightarrow> (nat \<Rightarrow> u8) \<Rightarrow> u8 \<Rightarrow> netcore \<Rightarrow> netcore" where
  "handle_packet e dst packet len s =
     (let data = packet_bytes packet len;
          s1 = s\<lparr>n_req_buffer := blit 0 data (n_req_buffer s)\<rparr>;
          packet_type = n_req_buffer s1 ! 0
      in if unat len = env_metrics_size e \<and> packet_type = env_metrics_probe e
         then s1\<lparr>n_metrics_received := True\<rparr>
         else if is_request packet_type then s1\<lparr>n_req_received := True\<rparr>
         else if n_status s1 \<noteq> SWRMT_APPLICATION_RUNNING then s1
         else if dst \<noteq> env_broadcast e \<and> dst \<noteq> n_device_id s1 then s1
         else (on_shared (\<lambda>sh. sh\<lparr>rx_pdu :=
                 \<lparr>pdu_length = len, pdu_buffer = blit 0 data (pdu_buffer (rx_pdu sh))\<rparr>\<rparr>) s1)
              \<lparr>n_data_received := True\<rparr>)"

datatype mr_event =
    MARI_NEW_PACKET u64 "nat \<Rightarrow> u8" u8
  | MARI_CONNECTED u64
  | MARI_DISCONNECTED u64
  | MARI_ERROR
  | MARI_OTHER

fun mari_event_callback :: "net_env \<Rightarrow> mr_event \<Rightarrow> netcore \<Rightarrow> netcore" where
  "mari_event_callback e (MARI_NEW_PACKET dst packet len) s = handle_packet e dst packet len s"
| "mari_event_callback e (MARI_CONNECTED _) s = s"
| "mari_event_callback e (MARI_DISCONNECTED _) s = s"
| "mari_event_callback e MARI_ERROR s = s"
| "mari_event_callback e MARI_OTHER s = s"

section \<open>Interrupts\<close>

definition send_status :: "netcore \<Rightarrow> netcore" where
  "send_status s = s\<lparr>n_send_status := True\<rparr>"

definition net_ipc_irq_handler :: "netcore \<Rightarrow> netcore" where
  "net_ipc_irq_handler s =
     (let s1 = (if n_events s IPC_CHAN_REQ
                then s\<lparr>n_events := (n_events s)(IPC_CHAN_REQ := False),
                       n_ipc_req := sh_req (n_shared s)\<rparr>
                else s)
      in if n_events s1 IPC_CHAN_LOG_EVENT
         then s1\<lparr>n_events := (n_events s1)(IPC_CHAN_LOG_EVENT := False),
                 n_ipc_log_received := True\<rparr>
         else s1)"

text \<open>What can preempt the main loop: a Mari event, the one-second timer, an IPC event arriving
  in its hardware register, and the IPC interrupt. \<open>NetShared\<close> is the shared RAM as the application
  core has left it, well formed.\<close>

datatype net_interrupt =
    NetMari mr_event
  | NetTimer
  | NetIpcReceive ipc_channels_t
  | NetIpcIrq
  | NetShared ipc_shared

fun net_irq :: "net_env \<Rightarrow> net_interrupt \<Rightarrow> netcore \<Rightarrow> netcore" where
  "net_irq e (NetMari ev) s = mari_event_callback e ev s"
| "net_irq e NetTimer s = send_status s"
| "net_irq e (NetIpcReceive ch) s = s\<lparr>n_events := (n_events s)(ch := True)\<rparr>"
| "net_irq e NetIpcIrq s = net_ipc_irq_handler s"
| "net_irq e (NetShared sh) s = (if shared_ok sh then s\<lparr>n_shared := sh\<rparr> else s)"

section \<open>Configuration\<close>

definition load_config :: "netcore \<Rightarrow> netcore" where
  "load_config s =
     (let cfg = read_config (n_flash s);
          s1 = s\<lparr>n_config := cfg, n_mari_net_id := config_net_id cfg\<rparr>
      in if config_calibrated cfg
         then (on_shared (\<lambda>sh. sh\<lparr>lh2_calibration :=
                 \<lparr>cal_count = cfg_homography_count cfg,
                  cal_homographies =
                    copy_homographies (unat (cfg_homography_count cfg)) (cfg_homographies cfg)
                      (cal_homographies (lh2_calibration sh))\<rparr>\<rparr>) s1)
              \<lparr>n_lh2_calibration_ready := True\<rparr>
         else s1)"

text \<open>The core asks for a system reset and waits for it for ever.\<close>

definition commit_config_and_reboot :: "net_env \<Rightarrow> netcore \<Rightarrow> netcore outcome" where
  "commit_config_and_reboot e s =
     (let s1 = s\<lparr>n_config := (n_config s)\<lparr>cfg_magic := SWARMIT_CONFIG_MAGIC_VALUE\<rparr>\<rparr>;
          s2 = s1\<lparr>n_flash := write_config (env_flash_hw e) (n_config s1) (n_flash s1)\<rparr>
      in Stuck (emit (NE_IpcSend IPC_CHAN_SOC_RESET) s2))"

section \<open>Requests\<close>

definition net_req_start :: "netcore \<Rightarrow> netcore outcome" where
  "net_req_start s =
     (if n_status s \<noteq> SWRMT_APPLICATION_READY then Continue s
      else Continue (emit (NE_IpcSend IPC_CHAN_APPLICATION_START) s))"

definition net_req_stop :: "netcore \<Rightarrow> netcore outcome" where
  "net_req_stop s =
     (if n_status s \<noteq> SWRMT_APPLICATION_RUNNING \<and> n_status s \<noteq> SWRMT_APPLICATION_RESETTING
         \<and> n_status s \<noteq> SWRMT_APPLICATION_PROGRAMMING then Continue s
      else Continue (emit (NE_IpcSend IPC_CHAN_APPLICATION_STOP)
             (set_status SWRMT_APPLICATION_STOPPING s)))"

definition net_req_reset :: "netcore \<Rightarrow> netcore outcome" where
  "net_req_reset s =
     (if n_status s \<noteq> SWRMT_APPLICATION_READY then Continue s
      else Continue (set_status SWRMT_APPLICATION_RESETTING
             (on_shared (\<lambda>sh. sh\<lparr>target_position :=
                position_of_bytes (sub_bytes 1 8 (n_req_buffer s))\<rparr>) s)))"

definition net_req_ota_start :: "netcore \<Rightarrow> netcore outcome" where
  "net_req_ota_start s =
     (if n_status s \<noteq> SWRMT_APPLICATION_READY \<and> n_status s \<noteq> SWRMT_APPLICATION_PROGRAMMING
      then Continue s
      else let s1 = on_ota (\<lambda>o1. o1\<lparr>ota_last_chunk_acked := - 1\<rparr>) s;
               s2 = set_status SWRMT_APPLICATION_PROGRAMMING s1;
               pkt = ota_start_of (n_req_buffer s2);
               s3 = on_ota (\<lambda>o1. o1\<lparr>ota_image_size := os_image_size pkt,
                                   ota_chunk_count := os_chunk_count pkt\<rparr>) s2
           in Continue (emit (NE_IpcSend IPC_CHAN_OTA_START) s3))"

text \<open>The copy reads \<open>chunk_size\<close> bytes from the packet pointer; past the end of
  \<open>req_buffer\<close> come the bytes of \<open>notification_buffer\<close>, the next field of \<open>_app_vars\<close>.\<close>

definition chunk_source :: "netcore \<Rightarrow> u8 \<Rightarrow> bytes" where
  "chunk_source s sz =
     sub_bytes OTA_CHUNK_DATA (unat sz) (n_req_buffer s @ n_notification_buffer s)"

definition ota_store_chunk :: "net_env \<Rightarrow> ota_chunk_pkt \<Rightarrow> netcore \<Rightarrow> netcore" where
  "ota_store_chunk e pkt s =
     (let s1 = on_ota (\<lambda>o1. o1\<lparr>ota_chunk_size := ucast (oc_chunk_size pkt)\<rparr>) s;
          s2 = on_shared (memcpy_ota_chunk (chunk_source s1 (oc_chunk_size pkt))) s1;
          s3 = s2\<lparr>n_expected_hash :=
                 sub_bytes OTA_CHUNK_SHA SWRMT_OTA_SHA256_LENGTH (n_req_buffer s2)\<rparr>
      in s3\<lparr>n_computed_hash := env_sha256 e (ota_chunk_bytes_read (n_shared s3))\<rparr>)"

definition hashes_match :: "netcore \<Rightarrow> bool" where
  "hashes_match s \<longleftrightarrow> take 8 (n_computed_hash s) = take 8 (n_expected_hash s)"

definition net_req_ota_chunk :: "net_env \<Rightarrow> netcore \<Rightarrow> netcore outcome" where
  "net_req_ota_chunk e s =
     (if n_status s \<noteq> SWRMT_APPLICATION_PROGRAMMING \<and> n_status s \<noteq> SWRMT_APPLICATION_READY
      then Continue s
      else let pkt = ota_chunk_of (n_req_buffer s);
               s1 = on_ota (\<lambda>o1. o1\<lparr>ota_chunk_index := oc_index pkt\<rparr>) s
           in if ota_chunk_count (n_ota s1) \<le> ota_chunk_index (n_ota s1) then Continue s1
              else if ota_last_chunk_acked (n_ota s1) \<noteq> ota_chunk_index (n_ota s1)
              then let s2 = ota_store_chunk e pkt s1
                   in if hashes_match s2
                      then Continue (emit (NE_IpcSend IPC_CHAN_OTA_CHUNK) s2)
                      else Continue s2
              else Continue (emit (NE_IpcSend IPC_CHAN_OTA_CHUNK) s1))"

definition net_req_lh2_calibration :: "net_env \<Rightarrow> netcore \<Rightarrow> netcore outcome" where
  "net_req_lh2_calibration e s =
     (if n_status s \<noteq> SWRMT_APPLICATION_READY then Continue s
      else let pkt = lh2_calibration_of (n_req_buffer s);
               idx = lc_homography_index pkt; count = lc_homography_count pkt
           in if LH2_BASESTATION_COUNT_MAX \<le> unat idx then Continue s
              else if count = 0 \<or> LH2_BASESTATION_COUNT_MAX < unat count then Continue s
              else if count \<le> idx then Continue s
              else let c0 = n_config s;
                       c1 = (if idx = 0
                             then c0\<lparr>cfg_homographies :=
                                    replicate LH2_BASESTATION_COUNT_MAX zero_matrix\<rparr>
                             else c0);
                       c2 = c1\<lparr>cfg_homography_count := count,
                               cfg_homographies :=
                                 (cfg_homographies c1)[unat idx := lc_homography pkt]\<rparr>;
                       s1 = s\<lparr>n_config := c2\<rparr>
                   in if idx = count - 1 then commit_config_and_reboot e s1 else Continue s1)"

definition net_req_lh2_capture :: "netcore \<Rightarrow> netcore outcome" where
  "net_req_lh2_capture s =
     (if n_status s \<noteq> SWRMT_APPLICATION_READY then Continue s
      else Continue (emit (NE_IpcSend IPC_CHAN_LH2_CAPTURE) s))"

definition net_dispatch :: "net_env \<Rightarrow> netcore \<Rightarrow> netcore outcome" where
  "net_dispatch e s =
     (case msg_of_code (req_type (n_req_buffer s)) of
        Some SWRMT_MSG_START \<Rightarrow> net_req_start s
      | Some SWRMT_MSG_STOP \<Rightarrow> net_req_stop s
      | Some SWRMT_MSG_RESET \<Rightarrow> net_req_reset s
      | Some SWRMT_MSG_OTA_START \<Rightarrow> net_req_ota_start s
      | Some SWRMT_MSG_OTA_CHUNK \<Rightarrow> net_req_ota_chunk e s
      | Some SWRMT_MSG_LH2_CALIBRATION \<Rightarrow> net_req_lh2_calibration e s
      | Some SWRMT_MSG_LH2_CAPTURE \<Rightarrow> net_req_lh2_capture s
      | _ \<Rightarrow> Continue s)"

section \<open>The stages of the main loop\<close>

definition net_stage_calibration :: "netcore \<Rightarrow> netcore outcome" where
  "net_stage_calibration s =
     (if n_lh2_calibration_ready s
      then Continue (emit (NE_IpcSend IPC_CHAN_CALIBRATION_DATA)
             (s\<lparr>n_lh2_calibration_ready := False\<rparr>))
      else Continue s)"

definition status_message :: "ipc_shared \<Rightarrow> bytes" where
  "status_message sh =
     msg_code SWRMT_MSG_STATUS # device_code (device_type sh) # status_code (sh_status sh) #
     le16 (battery_level sh) @ position_bytes (current_position sh)"

text \<open>Write a message at the start of the notification buffer and send it.\<close>

definition notify :: "bytes \<Rightarrow> netcore \<Rightarrow> netcore" where
  "notify m s =
     (let s1 = s\<lparr>n_notification_buffer := blit 0 m (n_notification_buffer s)\<rparr>
      in emit (NE_MariTx SWARMIT_TX_DEFAULT (take (length m) (n_notification_buffer s1))) s1)"

definition net_stage_status :: "netcore \<Rightarrow> netcore outcome" where
  "net_stage_status s =
     (if n_send_status s
      then Continue (notify (status_message (n_shared s)) (s\<lparr>n_send_status := False\<rparr>))
      else Continue s)"

definition net_stage_request :: "net_env \<Rightarrow> netcore \<Rightarrow> netcore outcome" where
  "net_stage_request e s =
     (if n_req_received s then net_dispatch e (s\<lparr>n_req_received := False\<rparr>) else Continue s)"

definition user_running :: "netcore \<Rightarrow> bool" where
  "user_running s \<longleftrightarrow>
     n_status s = SWRMT_APPLICATION_RUNNING \<or> n_status s = SWRMT_APPLICATION_STOPPING"

definition net_ipc_serve :: "net_input \<Rightarrow> netcore \<Rightarrow> netcore outcome" where
  "net_ipc_serve i s =
     (case n_ipc_req s of
        IPC_MARI_INIT_REQ \<Rightarrow>
          if n_mari_initialized s then Continue s
          else Continue ((emit (NE_MariInit (n_mari_net_id s)) s)\<lparr>n_mari_initialized := True\<rparr>)
      | IPC_MARI_NODE_TX_REQ \<Rightarrow>
          and_then (spin (in_connected i) s) (\<lambda>s1. Continue (emit
            (NE_MariTx (if user_running s1 then SWARMIT_TX_DOTBOT_FORWARD else SWARMIT_TX_DEFAULT)
               (take (unat (pdu_length (tx_pdu (n_shared s1)))) (pdu_buffer (tx_pdu (n_shared s1)))))
            s1))
      | IPC_RNG_INIT_REQ \<Rightarrow> Continue (emit NE_RngInit s)
      | IPC_RNG_READ_REQ \<Rightarrow> Continue (on_shared (\<lambda>sh. sh\<lparr>rng_value := in_rng i\<rparr>) s)
      | IPC_REQ_NONE \<Rightarrow> Continue s)"

definition net_stage_ipc :: "net_input \<Rightarrow> netcore \<Rightarrow> netcore outcome" where
  "net_stage_ipc i s =
     (if n_ipc_req s \<noteq> IPC_REQ_NONE
      then and_then (net_ipc_serve i (on_shared (\<lambda>sh. sh\<lparr>net_ack := False\<rparr>) s))
             (\<lambda>s1. Continue ((on_shared (\<lambda>sh. sh\<lparr>net_ack := True\<rparr>) s1)
                     \<lparr>n_ipc_req := IPC_REQ_NONE\<rparr>))
      else Continue s)"

definition net_stage_data :: "netcore \<Rightarrow> netcore outcome" where
  "net_stage_data s =
     (if n_data_received s
      then Continue (emit (NE_IpcSend IPC_CHAN_RADIO_RX) (s\<lparr>n_data_received := False\<rparr>))
      else Continue s)"

definition net_stage_metrics :: "net_env \<Rightarrow> net_input \<Rightarrow> netcore \<Rightarrow> netcore outcome" where
  "net_stage_metrics e i s =
     (if n_metrics_received s
      then let s1 = s\<lparr>n_metrics_received := False,
                      n_metrics_rx_counter := n_metrics_rx_counter s + 1,
                      n_metrics_tx_counter := n_metrics_tx_counter s + 1\<rparr>;
               payload = env_fill_metrics e (n_metrics_rx_counter s1) (in_asn_rx i)
                           (n_metrics_tx_counter s1) (in_asn_tx i) (in_rssi i)
                           (take (env_metrics_size e) (n_req_buffer s1));
               s2 = s1\<lparr>n_req_buffer := blit 0 payload (n_req_buffer s1)\<rparr>
           in Continue (emit
                (NE_MariTx MARI_TX_INTERNAL (take (env_metrics_size e) (n_req_buffer s2))) s2)
      else Continue s)"

text \<open>The copy of \<open>log.length + 1\<close> bytes from the log stays inside it (and inside the
  notification buffer) for a length up to 127; beyond, the code reads other fields.\<close>

definition log_message :: "u32 \<Rightarrow> ipc_log \<Rightarrow> bytes" where
  "log_message now l =
     msg_code SWRMT_MSG_LOG_EVENT # le32 now @
     log_length l # take (unat (log_length l)) (log_data l)"

definition net_stage_log :: "net_input \<Rightarrow> netcore \<Rightarrow> netcore outcome" where
  "net_stage_log i s =
     (if n_ipc_log_received s
      then if 127 < unat (log_length (sh_log (n_shared s))) then Undefined
           else Continue (notify (log_message (in_now i) (sh_log (n_shared s)))
                  (s\<lparr>n_ipc_log_received := False\<rparr>))
      else Continue s)"

definition net_stages :: "net_env \<Rightarrow> net_input \<Rightarrow> (netcore \<Rightarrow> netcore outcome) list" where
  "net_stages e i =
     [net_stage_calibration, net_stage_status, net_stage_request e, net_stage_ipc i,
      net_stage_data, net_stage_metrics e i, net_stage_log i]"

section \<open>Start-up\<close>

text \<open>The IPC peripheral as \<open>main\<close> sets it up: the channels that interrupt the core, those it
  triggers and those it receives.\<close>

definition net_ipc_intenset :: "ipc_channels_t list" where
  "net_ipc_intenset = [IPC_CHAN_REQ, IPC_CHAN_LOG_EVENT]"

definition net_ipc_send_cnf :: "ipc_channels_t list" where
  "net_ipc_send_cnf =
     [IPC_CHAN_RADIO_RX, IPC_CHAN_APPLICATION_START, IPC_CHAN_APPLICATION_STOP,
      IPC_CHAN_SOC_RESET, IPC_CHAN_OTA_START, IPC_CHAN_OTA_CHUNK, IPC_CHAN_CALIBRATION_DATA,
      IPC_CHAN_LH2_CAPTURE]"

definition net_ipc_receive_cnf :: "ipc_channels_t list" where
  "net_ipc_receive_cnf = [IPC_CHAN_REQ, IPC_CHAN_LOG_EVENT]"

text \<open>\<open>_app_vars\<close> as the loader zeroes it, on the given shared RAM and flash.\<close>

definition net_reset :: "ipc_shared \<Rightarrow> flash \<Rightarrow> netcore" where
  "net_reset sh f =
     \<lparr>n_req_received = False, n_data_received = False, n_send_status = False,
      n_req_buffer = replicate 255 0, n_notification_buffer = replicate 255 0,
      n_ipc_req = IPC_REQ_NONE, n_ipc_log_received = False,
      n_expected_hash = replicate 32 0, n_computed_hash = replicate 32 0, n_device_id = 0,
      n_mari_net_id = 0, n_mari_initialized = False, n_metrics_rx_counter = 0,
      n_metrics_tx_counter = 0, n_metrics_received = False,
      n_config = \<lparr>cfg_magic = 0, cfg_has_net_id = 0, cfg_net_id = 0, cfg_homography_count = 0,
                  cfg_homographies = replicate 16 zero_matrix\<rparr>,
      n_lh2_calibration_ready = False, n_shared = sh, n_flash = f, n_events = (\<lambda>_. False),
      n_out = []\<rparr>"

text \<open>\<open>main\<close> up to its loop, the identifier registers of the chip being \<open>id1\<close> and \<open>id0\<close>.\<close>

definition net_main_init :: "u32 \<Rightarrow> u32 \<Rightarrow> netcore \<Rightarrow> netcore" where
  "net_main_init id1 id0 s =
     on_shared (\<lambda>sh. sh\<lparr>net_ready := True\<rparr>)
       (load_config (s\<lparr>n_device_id := db_device_id id1 id0\<rparr>))"

end
