(* ===== verification/Netcore_Facts.thy ===== *)
theory Netcore_Facts
  imports Netcore
begin

section \<open>The invariant of the network core\<close>

definition net_inv :: "netcore \<Rightarrow> bool" where
  "net_inv s \<longleftrightarrow> shared_ok (n_shared s) \<and> length (n_req_buffer s) = 255 \<and>
     length (n_notification_buffer s) = 255 \<and> matrices_ok (cfg_homographies (n_config s)) \<and>
     length (n_expected_hash s) = SWRMT_OTA_SHA256_LENGTH \<and>
     length (n_computed_hash s) = SWRMT_OTA_SHA256_LENGTH"

lemma net_inv_shared [dest]: "net_inv s \<Longrightarrow> shared_ok (n_shared s)"
  by (simp add: net_inv_def)

lemma shared_ok_upd [simp]:
  "shared_ok (sh\<lparr>net_ready := b\<rparr>) = shared_ok sh"
  "shared_ok (sh\<lparr>net_ack := b\<rparr>) = shared_ok sh"
  "shared_ok (sh\<lparr>sh_req := q\<rparr>) = shared_ok sh"
  "shared_ok (sh\<lparr>sh_status := st\<rparr>) = shared_ok sh"
  "shared_ok (sh\<lparr>rng_value := v\<rparr>) = shared_ok sh"
  "shared_ok (sh\<lparr>battery_level := bl\<rparr>) = shared_ok sh"
  "shared_ok (sh\<lparr>device_type := dt\<rparr>) = shared_ok sh"
  "shared_ok (sh\<lparr>target_position := p\<rparr>) = shared_ok sh"
  "shared_ok (sh\<lparr>current_position := p\<rparr>) = shared_ok sh"
  by (simp_all add: shared_ok_def)

lemma net_inv_emit [simp]: "net_inv (emit ev s) = net_inv s"
  by (simp add: net_inv_def emit_def)

lemma net_inv_on_shared:
  "net_inv s \<Longrightarrow> shared_ok (g (n_shared s)) \<Longrightarrow> net_inv (on_shared g s)"
  by (simp add: net_inv_def on_shared_def)

lemma net_inv_set_status [simp]: "net_inv s \<Longrightarrow> net_inv (set_status st s)"
  unfolding set_status_def by (rule net_inv_on_shared) (simp_all add: net_inv_shared)

lemma net_inv_on_ota:
  "net_inv s \<Longrightarrow> ota_chunk (g (n_ota s)) = ota_chunk (n_ota s) \<Longrightarrow>
   unat (ota_chunk_size (g (n_ota s))) \<le> 255 \<Longrightarrow> net_inv (on_ota g s)"
  unfolding on_ota_def
  by (rule net_inv_on_shared) (auto simp: net_inv_def shared_ok_def)

lemma n_fields_upd [simp]:
  "n_req_buffer (emit ev s) = n_req_buffer s" "n_req_buffer (on_shared g s) = n_req_buffer s"
  "n_req_buffer (on_ota h s) = n_req_buffer s" "n_req_buffer (set_status st s) = n_req_buffer s"
  "n_notification_buffer (emit ev s) = n_notification_buffer s"
  "n_notification_buffer (on_shared g s) = n_notification_buffer s"
  "n_notification_buffer (on_ota h s) = n_notification_buffer s"
  "n_shared (emit ev s) = n_shared s" "n_shared (on_shared g s) = g (n_shared s)"
  "n_ota (on_ota h s) = h (n_ota s)" "n_status (on_ota h s) = n_status s"
  "n_shared (set_status st s) = (n_shared s)\<lparr>sh_status := st\<rparr>"
  "n_out (emit ev s) = n_out s @ [ev]" "n_out (on_shared g s) = n_out s"
  "n_out (on_ota h s) = n_out s" "n_out (set_status st s) = n_out s"
  "n_config (emit ev s) = n_config s" "n_config (on_shared g s) = n_config s"
  "n_flash (emit ev s) = n_flash s" "n_flash (on_shared g s) = n_flash s"
  "n_flash (on_ota h s) = n_flash s"
  by (simp_all add: net_upd_defs)

lemma length_packet_bytes [simp]: "length (packet_bytes p len) = unat len"
  by (simp add: packet_bytes_def)

lemma length_chunk_source:
  "net_inv s \<Longrightarrow> length (chunk_source s sz) = unat sz"
  using unat_u8_le [of sz] by (simp add: net_inv_def chunk_source_def OTA_CHUNK_DATA_def)


section \<open>Every stage and handler keeps the invariant\<close>

lemma matrices_ok_update [simp]:
  "matrices_ok ms \<Longrightarrow> matrix_ok m \<Longrightarrow> matrices_ok (ms[i := m])"
  by (auto simp: matrices_ok_def list_all_iff dest: set_update_subset_insert [THEN subsetD])

lemma matrices_ok_zero [simp]: "matrices_ok (replicate LH2_BASESTATION_COUNT_MAX zero_matrix)"
  by (simp add: matrices_ok_def list_all_iff)

lemma net_inv_handle_packet: "net_inv s \<Longrightarrow> net_inv (handle_packet e dst packet len s)"
  using unat_u8_le [of len]
  by (auto simp: handle_packet_def Let_def net_inv_def shared_ok_def on_shared_def)

lemma net_inv_irq: "net_inv s \<Longrightarrow> net_inv (net_irq e ev s)"
proof (cases ev)
  case (NetMari m)
  then show "net_inv s \<Longrightarrow> ?thesis" by (cases m) (simp_all add: net_inv_handle_packet)
qed (auto simp: send_status_def net_ipc_irq_handler_def Let_def net_inv_def)

lemma net_inv_load_config: "net_inv s \<Longrightarrow> net_inv (load_config s)"
  by (auto simp: load_config_def Let_def net_inv_def on_shared_def shared_ok_def read_config_def
        config_calibrated_def matrices_ok_copy)

lemma net_inv_main_init: "net_inv s \<Longrightarrow> net_inv (net_main_init id1 id0 s)"
proof -
  assume "net_inv s"
  then have "net_inv (s\<lparr>n_device_id := db_device_id id1 id0\<rparr>)" by (simp add: net_inv_def)
  then have "net_inv (load_config (s\<lparr>n_device_id := db_device_id id1 id0\<rparr>))"
    by (rule net_inv_load_config)
  then show ?thesis
    unfolding net_main_init_def
    using net_inv_on_shared [of _ "net_ready_update (\<lambda>_. True)"] net_inv_shared by simp
qed

lemma net_inv_reset: "shared_ok sh \<Longrightarrow> net_inv (net_reset sh f)"
  by (simp add: net_inv_def net_reset_def matrices_ok_def list_all_iff
        LH2_BASESTATION_COUNT_MAX_def SWRMT_OTA_SHA256_LENGTH_def)

lemma net_inv_store_chunk:
  assumes "net_inv s" and "env_ok e"
  shows "net_inv (ota_store_chunk e pkt s)"
proof -
  let ?s1 = "on_ota (\<lambda>o1. o1\<lparr>ota_chunk_size := ucast (oc_chunk_size pkt)\<rparr>) s"
  let ?s2 = "on_shared (memcpy_ota_chunk (chunk_source ?s1 (oc_chunk_size pkt))) ?s1"
  have s1: "net_inv ?s1"
    by (rule net_inv_on_ota [OF assms(1)]) (simp_all add: unat_u8_le)
  have "net_inv ?s2"
    using unat_u8_le [of "oc_chunk_size pkt"] length_chunk_source [OF s1]
    by (intro net_inv_on_shared [OF s1] shared_ok_memcpy_ota_chunk net_inv_shared [OF s1]) simp
  then show ?thesis
    using assms(2)
    by (simp add: ota_store_chunk_def Let_def net_inv_def env_ok_def SWRMT_OTA_SHA256_LENGTH_def
          OTA_CHUNK_SHA_def)
qed

lemma net_inv_commit: "net_inv s \<Longrightarrow> outcome_ok net_inv (commit_config_and_reboot e s)"
  by (simp add: commit_config_and_reboot_def Let_def net_inv_def emit_def)

lemma net_inv_dispatch:
  assumes "net_inv s" and "env_ok e"
  shows "outcome_ok net_inv (net_dispatch e s)"
proof -
  have idx: "net_inv (on_ota (\<lambda>o1. o1\<lparr>ota_chunk_index := i\<rparr>) s)" for i
    by (rule net_inv_on_ota [OF assms(1)]) (use assms(1) in \<open>simp_all add: net_inv_def shared_ok_def\<close>)
  have "outcome_ok net_inv (net_req_start s)" "outcome_ok net_inv (net_req_stop s)"
    "outcome_ok net_inv (net_req_lh2_capture s)"
    using assms(1) by (simp_all add: net_req_start_def net_req_stop_def net_req_lh2_capture_def)
  moreover have "outcome_ok net_inv (net_req_reset s)"
    using assms(1) by (simp add: net_req_reset_def net_inv_on_shared net_inv_shared)
  moreover have "outcome_ok net_inv (net_req_ota_start s)"
    using assms(1)
    by (auto simp: net_req_ota_start_def Let_def net_inv_def net_upd_defs shared_ok_def)
  moreover have "outcome_ok net_inv (net_req_ota_chunk e s)"
    using assms idx net_inv_store_chunk [OF idx assms(2)]
    by (simp add: net_req_ota_chunk_def Let_def)
  moreover have "outcome_ok net_inv (net_req_lh2_calibration e s)"
    using assms(1)
    by (auto simp: net_req_lh2_calibration_def Let_def net_inv_def lh2_calibration_of_def
          intro!: net_inv_commit)
  ultimately show ?thesis
    using assms(1)
    by (simp add: net_dispatch_def split: option.split swrmt_message_type_t.split)
qed


lemma net_inv_notify:
  assumes "net_inv s" and "length m \<le> 255"
  shows "net_inv (notify m s)"
  using assms by (simp add: notify_def Let_def net_inv_def emit_def)

lemma length_status_message [simp]: "length (status_message sh) = 13"
  by (simp add: status_message_def)

lemma length_log_message:
  "shared_ok sh \<Longrightarrow> length (log_message now (sh_log sh)) = 6 + unat (log_length (sh_log sh))"
  by (simp add: log_message_def shared_ok_def)

lemma net_inv_ipc_serve: "net_inv s \<Longrightarrow> outcome_ok net_inv (net_ipc_serve i s)"
proof (cases "n_ipc_req s")
  case IPC_RNG_READ_REQ
  then show "net_inv s \<Longrightarrow> ?thesis"
    by (simp add: net_ipc_serve_def net_inv_on_shared net_inv_shared)
qed (auto simp: net_ipc_serve_def spin_cases net_inv_def emit_def)

lemma net_inv_stage_ipc: "net_inv s \<Longrightarrow> outcome_ok net_inv (net_stage_ipc i s)"
proof (cases "n_ipc_req s = IPC_REQ_NONE")
  case False
  let ?s0 = "on_shared (\<lambda>sh. sh\<lparr>net_ack := False\<rparr>) s"
  assume "net_inv s"
  then have "net_inv ?s0" by (intro net_inv_on_shared) (simp_all add: net_inv_shared)
  then have ok: "outcome_ok net_inv (net_ipc_serve i ?s0)" by (rule net_inv_ipc_serve)
  then show ?thesis
    using False by (cases "net_ipc_serve i ?s0")
      (auto simp: net_stage_ipc_def net_inv_def on_shared_def)
qed (simp add: net_stage_ipc_def)

lemma net_inv_stages:
  assumes "env_ok e" and "f \<in> set (net_stages e i)" and inv: "net_inv s"
  shows "outcome_ok net_inv (f s)"
proof -
  have flag: "net_inv (s\<lparr>n_req_received := False\<rparr>)" "net_inv (s\<lparr>n_send_status := False\<rparr>)"
    "net_inv (s\<lparr>n_data_received := False\<rparr>)" "net_inv (s\<lparr>n_lh2_calibration_ready := False\<rparr>)"
    "net_inv (s\<lparr>n_ipc_log_received := False\<rparr>)"
    using inv by (simp_all add: net_inv_def)
  have "outcome_ok net_inv (net_stage_request e s)"
    using net_inv_dispatch [OF flag(1) assms(1)] inv by (simp add: net_stage_request_def)
  moreover have "outcome_ok net_inv (net_stage_metrics e i s)"
    using inv assms(1)
    by (simp add: net_stage_metrics_def Let_def net_inv_def emit_def env_ok_def)
  moreover have "outcome_ok net_inv (net_stage_log i s)"
    using inv flag(5) net_inv_shared [OF inv]
    by (auto simp: net_stage_log_def length_log_message shared_ok_def intro!: net_inv_notify)
  moreover have "outcome_ok net_inv (net_stage_status s)"
    using inv flag(2) by (simp add: net_stage_status_def net_inv_notify)
  moreover have "outcome_ok net_inv (net_stage_data s)" "outcome_ok net_inv (net_stage_calibration s)"
    using inv flag(3,4) by (simp_all add: net_stage_data_def net_stage_calibration_def)
  ultimately show ?thesis
    using assms(2) net_inv_stage_ipc [OF inv, of i] by (auto simp: net_stages_def)
qed

interpretation net_loop: main_loop "env_ok e" "net_stages e" "net_irq e" net_inv
  for e
  by unfold_locales (auto intro: net_inv_stages net_inv_irq)

end
