(* ===== verification/Localization.thy ===== *)
theory Localization
  imports Complex_Main Netcore_Facts
begin

text \<open>
  Lighthouse localization (\<open>bootloader/Source/localization.c\<close>). The driver of the LH2 sensor and
  the homography arithmetic are in DotBot-libs: what \<open>db_lh2_init\<close>, \<open>db_lh2_process_location\<close> and
  \<open>db_lh2_calculate_position\<close> do is a parameter, and so are C's \<open>float\<close> rounding, \<open>powf\<close> and
  \<open>sqrtf\<close>. A C \<open>double\<close> is one of \<open>cdouble\<close>: converting anything but a number in range to
  \<open>uint32_t\<close> is undefined. The functions return \<open>None\<close> for undefined behaviour.
\<close>

section \<open>State\<close>

datatype cdouble = NaN | PInf | MInf | Fin rat

datatype lh2_data_state = DB_LH2_NO_NEW_DATA | DB_LH2_PROCESSED_DATA_AVAILABLE | DB_LH2_OTHER_STATE

record lh2 =
  data_ready :: "nat \<Rightarrow> nat \<Rightarrow> lh2_data_state"
  lfsr_counts :: "nat \<Rightarrow> nat \<Rightarrow> u32"

record localization =
  loc_lh2 :: lh2
  loc_coordinates :: "cdouble \<times> cdouble"
  loc_position :: position
  loc_previous :: position
  loc_homographies :: "u8 \<Rightarrow> matrix option"
  calibration_loaded :: bool
  lh2_started :: bool
  lh2_running :: bool

text \<open>\<open>le_stations\<close> is \<open>LH2_BASESTATION_COUNT\<close>, a \<open>uint8_t\<close> loop bound of the library.\<close>

record lh2_env =
  le_stations :: nat
  le_init :: "lh2 \<Rightarrow> lh2"
  le_position :: "(u8 \<Rightarrow> matrix option) \<Rightarrow> u32 \<Rightarrow> u32 \<Rightarrow> nat \<Rightarrow> cdouble \<times> cdouble \<Rightarrow> cdouble \<times> cdouble"
  le_float :: "rat \<Rightarrow> rat"
  le_powf :: "rat \<Rightarrow> rat \<Rightarrow> rat"
  le_sqrtf :: "rat \<Rightarrow> rat"

definition VALID_POSITION_DISTANCE_THRESHOLD_MM :: rat where
  "VALID_POSITION_DISTANCE_THRESHOLD_MM = 500"

fun cd_less :: "cdouble \<Rightarrow> rat \<Rightarrow> bool" where
  "cd_less NaN _ = False"
| "cd_less PInf _ = False"
| "cd_less MInf _ = True"
| "cd_less (Fin q) r = (q < r)"

fun cd_greater :: "cdouble \<Rightarrow> rat \<Rightarrow> bool" where
  "cd_greater NaN _ = False"
| "cd_greater PInf _ = True"
| "cd_greater MInf _ = False"
| "cd_greater (Fin q) r = (r < q)"

text \<open>The conversion \<open>(uint32_t)\<close> of a double.\<close>

fun cd_to_u32 :: "cdouble \<Rightarrow> u32 option" where
  "cd_to_u32 (Fin q) = (if - 1 < q \<and> q < 2 ^ 32 then Some (of_int \<lfloor>if q < 0 then 0 else q\<rfloor>) else None)"
| "cd_to_u32 _ = None"

section \<open>Operations\<close>

definition lh2_distance :: "lh2_env \<Rightarrow> position \<Rightarrow> position \<Rightarrow> rat" where
  "lh2_distance le reference current =
     (let f = le_float le;
          num = (\<lambda>w :: u32. f (of_nat (unat w)));
          dx = f (num (pos_x current) - num (pos_x reference));
          dy = f (num (pos_y current) - num (pos_y reference))
      in le_sqrtf le (f (le_powf le dx 2 + le_powf le dy 2)))"

definition localization_start :: "lh2_env \<Rightarrow> localization \<Rightarrow> localization" where
  "localization_start le l =
     (if lh2_started l then l
      else l\<lparr>loc_lh2 := le_init le (loc_lh2 l), lh2_running := True, lh2_started := True\<rparr>)"

text \<open>The matrices are read out of an array of \<open>LH2_BASESTATION_COUNT_MAX\<close>.\<close>

definition localization_init ::
    "lh2_env \<Rightarrow> matrix list \<Rightarrow> u32 \<Rightarrow> localization \<Rightarrow> localization option" where
  "localization_init le ms count l =
     (if LH2_BASESTATION_COUNT_MAX < unat count then None
      else let l1 = localization_start le l;
               l2 = fold (\<lambda>i l. l\<lparr>loc_homographies := (loc_homographies l)(of_nat i \<mapsto> ms ! i)\<rparr>)
                      [0..<unat count] l1
           in Some (l2\<lparr>calibration_loaded := 0 < count\<rparr>))"

definition station_ready :: "lh2 \<Rightarrow> nat \<Rightarrow> bool" where
  "station_ready d i \<longleftrightarrow> data_ready d 0 i = DB_LH2_PROCESSED_DATA_AVAILABLE \<and>
     data_ready d 1 i = DB_LH2_PROCESSED_DATA_AVAILABLE"

text \<open>\<open>proc\<close> is what \<open>db_lh2_process_location\<close> makes of the sensor's data in this call.\<close>

definition localization_process_data ::
    "lh2_env \<Rightarrow> (lh2 \<Rightarrow> lh2) \<Rightarrow> localization \<Rightarrow> bool \<times> localization" where
  "localization_process_data le proc l =
     (let l1 = l\<lparr>loc_lh2 := proc (loc_lh2 l)\<rparr>
      in (list_ex (station_ready (loc_lh2 l1)) [0..<le_stations le], l1))"

definition clear_ready :: "nat \<Rightarrow> lh2 \<Rightarrow> lh2" where
  "clear_ready i d = d\<lparr>data_ready := (\<lambda>s j. if j = i \<and> (s = 0 \<or> s = 1) then DB_LH2_NO_NEW_DATA
                                     else data_ready d s j)\<rparr>"

text \<open>The loop that stops at the first base station with both sweeps ready.\<close>

definition locate :: "lh2_env \<Rightarrow> localization \<Rightarrow> localization" where
  "locate le l =
     (case filter (station_ready (loc_lh2 l)) [0..<le_stations le] of
        [] \<Rightarrow> l
      | i # _ \<Rightarrow> l\<lparr>loc_coordinates := le_position le (loc_homographies l)
                     (lfsr_counts (loc_lh2 l) 0 i) (lfsr_counts (loc_lh2 l) 1 i) i
                     (loc_coordinates l),
                   loc_lh2 := clear_ready i (loc_lh2 l)\<rparr>)"

definition coordinate_invalid :: "cdouble \<Rightarrow> bool" where
  "coordinate_invalid c \<longleftrightarrow> cd_less c 0 \<or> cd_greater c 100000"

definition localization_get_position ::
    "lh2_env \<Rightarrow> localization \<Rightarrow> (position option \<times> localization) option" where
  "localization_get_position le l =
     (if \<not> calibration_loaded l then Some (None, l)
      else let l1 = (locate le (l\<lparr>lh2_running := False\<rparr>))\<lparr>lh2_running := True\<rparr>;
               (cx, cy) = loc_coordinates l1
           in if coordinate_invalid cx \<or> coordinate_invalid cy then Some (None, l1)
              else Option.bind (cd_to_u32 cx) (\<lambda>x. Option.bind (cd_to_u32 cy) (\<lambda>y.
                let p = \<lparr>pos_x = x, pos_y = y\<rparr>;
                    l2 = l1\<lparr>loc_position := p\<rparr>;
                    l3 = (if pos_x (loc_previous l2) = 0 \<and> pos_y (loc_previous l2) = 0
                          then l2\<lparr>loc_previous := p\<rparr> else l2)
                in if VALID_POSITION_DISTANCE_THRESHOLD_MM < lh2_distance le (loc_previous l3) p
                   then Some (None, l3)
                   else Some (Some p, l3\<lparr>loc_previous := p\<rparr>))))"

record raw_sample =
  rs_lh_index :: u8
  rs_count1 :: u32
  rs_count2 :: u32

text \<open>The loop of \<open>localization_get_raw_counts\<close> over the base stations from \<open>i\<close> on, with the
  samples taken so far.\<close>

fun raw_loop :: "nat list \<Rightarrow> nat \<Rightarrow> raw_sample list \<Rightarrow> lh2 \<Rightarrow> raw_sample list \<times> lh2" where
  "raw_loop [] mx acc d = (acc, d)"
| "raw_loop (i # is) mx acc d =
     (if length acc < mx
      then if station_ready d i
           then raw_loop is mx
                  (acc @ [\<lparr>rs_lh_index = of_nat i, rs_count1 = lfsr_counts d 0 i,
                           rs_count2 = lfsr_counts d 1 i\<rparr>]) (clear_ready i d)
           else raw_loop is mx acc d
      else (acc, d))"

definition localization_get_raw_counts ::
    "lh2_env \<Rightarrow> nat \<Rightarrow> localization \<Rightarrow> raw_sample list \<times> localization" where
  "localization_get_raw_counts le mx l =
     (let (acc, d) = raw_loop [0..<le_stations le] mx [] (loc_lh2 l)
      in (acc, l\<lparr>loc_lh2 := d, lh2_running := True\<rparr>))"

section \<open>What they promise\<close>

lemma coordinate_valid_u32:
  assumes "\<not> coordinate_invalid c" and "cd_to_u32 c = Some x"
  shows "unat x \<le> 100000"
proof (cases c)
  case (Fin q)
  then have q: "0 \<le> q" "q \<le> 100000" using assms(1) by (simp_all add: coordinate_invalid_def)
  have x: "x = of_int \<lfloor>q\<rfloor>" using assms(2) q Fin by (auto split: if_splits)
  have fl: "0 \<le> \<lfloor>q\<rfloor>" "\<lfloor>q\<rfloor> \<le> 100000" using q by (simp_all add: floor_le_iff le_floor_iff)
  then have "nat \<lfloor>q\<rfloor> \<le> 100000" by linarith
  then have "unat (of_nat (nat \<lfloor>q\<rfloor>) :: u32) = nat \<lfloor>q\<rfloor>" by (simp only: unat_of_nat) simp
  moreover have "x = of_nat (nat \<lfloor>q\<rfloor>)" using x fl(1) by (simp add: of_nat_nat)
  ultimately show ?thesis using \<open>nat \<lfloor>q\<rfloor> \<le> 100000\<close> by simp
qed (use assms in \<open>simp_all add: coordinate_invalid_def\<close>)

lemma locate_frame [simp]:
  "loc_previous (locate le l) = loc_previous l" "loc_position (locate le l) = loc_position l"
  "calibration_loaded (locate le l) = calibration_loaded l"
  "lh2_started (locate le l) = lh2_started l" "lh2_running (locate le l) = lh2_running l"
  "loc_homographies (locate le l) = loc_homographies l"
  by (simp_all add: locate_def split: list.split)

lemma station_ready_clear [simp]:
  "station_ready (clear_ready i d) j = (station_ready d j \<and> j \<noteq> i)"
  by (auto simp: station_ready_def clear_ready_def)

lemma lfsr_counts_clear [simp]: "lfsr_counts (clear_ready i d) = lfsr_counts d"
  by (simp add: clear_ready_def)

text \<open>The loop takes the first \<open>mx\<close> ready stations, in order, and clears exactly those.\<close>

definition sample_of :: "lh2 \<Rightarrow> nat \<Rightarrow> raw_sample" where
  "sample_of d i =
     \<lparr>rs_lh_index = of_nat i, rs_count1 = lfsr_counts d 0 i, rs_count2 = lfsr_counts d 1 i\<rparr>"

lemma raw_loop_result:
  "distinct is \<Longrightarrow> length acc \<le> mx \<Longrightarrow>
   raw_loop is mx acc d =
     (acc @ map (sample_of d) (take (mx - length acc) (filter (station_ready d) is)),
      fold clear_ready (take (mx - length acc) (filter (station_ready d) is)) d)"
proof (induction "is" mx acc d rule: raw_loop.induct)
  case (2 i "is" mx acc d)
  show ?case
  proof (cases "length acc < mx \<and> station_ready d i")
    case True
    then have "mx - length acc = Suc (mx - Suc (length acc))" by (simp add: Suc_diff_Suc)
    moreover have "filter (\<lambda>a. station_ready d a \<and> a \<noteq> i) is = filter (station_ready d) is"
      using 2(3) by (intro filter_cong) auto
    moreover have "map (sample_of (clear_ready i d)) xs = map (sample_of d) xs" for xs
      by (simp add: sample_of_def)
    ultimately show ?thesis using 2(1) 2(3,4) True by (simp add: sample_of_def)
  next
    case False
    then show ?thesis using 2(2) 2(3,4) by (cases "length acc < mx") auto
  qed
qed simp

end
