(* ===== verification/Trustzone.thy ===== *)
theory Trustzone
  imports Netcore_Facts
begin

text \<open>
  The TrustZone set-up of the application core: \<open>tz.c\<close>, and \<open>setup_ns_user\<close> and the SPU part of
  \<open>main\<close> of \<open>bootloader/Source/main.c\<close>.

  The bit positions and enumeration values of the registers come from Nordic's and ARM's device
  headers, which are not in the repository: they are the record \<open>mdk\<close>, the board's pins the
  record \<open>board\<close>. \<open>mdk_ok\<close> is what the set-up relies on of them: the secure attribute is the one
  bit at its position, and the access enables lie elsewhere. The loops over regions count in a
  \<open>uint8_t\<close> against a \<open>size_t\<close> bound; \<open>None\<close> is a loop that does not end.
\<close>

record mdk =
  flash_read :: u32
  flash_write :: u32
  flash_execute :: u32
  flash_secattr_pos :: nat
  flash_secure :: u8
  flash_nonsecure :: u8
  ram_read :: u32
  ram_write :: u32
  ram_execute :: u32
  ram_secattr_pos :: nat
  ram_secure :: u8
  ram_nonsecure :: u8
  periph_secattr_nonsecure :: u32
  periph_dma_noseparate :: u32
  periph_dmasec_nonsecure :: u32
  aircr_vectkey_msk :: u32
  aircr_vectkey_pos :: nat
  aircr_pris :: u32
  aircr_bfhfnmins :: u32
  aircr_sysresetreqs :: u32
  nsacr_cp10 :: u32
  nsacr_cp11 :: u32
  shcsr_securefaultena :: u32
  ccr_div_0_trp :: u32
  ccr_unalign_trp :: u32

record board =
  lh2_e_port :: nat
  lh2_e_pin :: nat
  lh2_d_port :: nat
  lh2_d_pin :: nat
  dotbot_v3 :: bool

definition mdk_ok :: "mdk \<Rightarrow> bool" where
  "mdk_ok m \<longleftrightarrow> flash_secure m = 1 \<and> flash_nonsecure m = 0 \<and> flash_secattr_pos m < 32 \<and>
     ram_secure m = 1 \<and> ram_nonsecure m = 0 \<and> ram_secattr_pos m < 32 \<and>
     \<not> bit (flash_read m OR flash_write m OR flash_execute m) (flash_secattr_pos m) \<and>
     \<not> bit (ram_read m OR ram_write m OR ram_execute m) (ram_secattr_pos m)"

text \<open>The interrupts whose target state the code sets.\<close>

datatype irqn =
    I2S0_IRQn | PDM0_IRQn | EGU0_IRQn | EGU1_IRQn | EGU2_IRQn | EGU3_IRQn | EGU4_IRQn | EGU5_IRQn
  | PWM0_IRQn | PWM1_IRQn | PWM2_IRQn | PWM3_IRQn | QDEC0_IRQn | QDEC1_IRQn | QSPI_IRQn
  | RTC0_IRQn | RTC1_IRQn | SPIM0_SPIS0_TWIM0_TWIS0_UARTE0_IRQn
  | SPIM1_SPIS1_TWIM1_TWIS1_UARTE1_IRQn | SPIM2_SPIS2_TWIM2_TWIS2_UARTE2_IRQn
  | SPIM3_SPIS3_TWIM3_TWIS3_UARTE3_IRQn | TIMER0_IRQn | TIMER1_IRQn | USBD_IRQn
  | USBREGULATOR_IRQn | GPIOTE0_IRQn | GPIOTE1_IRQn | IPC_IRQn | SPIM4_IRQn

record tz_state =
  spu_flash :: "u8 \<Rightarrow> u32"
  spu_ram :: "u8 \<Rightarrow> u32"
  spu_periph :: "u8 \<Rightarrow> u32"
  spu_gpio :: "nat \<Rightarrow> u32"
  nsc_region :: nat
  nsc_size :: nat
  scb_aircr :: u32
  scb_nsacr :: u32
  scb_shcsr :: u32
  scb_ccr :: u32
  sau_ctrl :: u32
  nvic_ns :: "irqn \<Rightarrow> bool"

section \<open>tz.c\<close>

definition tz_configure_periph_non_secure :: "mdk \<Rightarrow> u8 \<Rightarrow> tz_state \<Rightarrow> tz_state" where
  "tz_configure_periph_non_secure m p z =
     z\<lparr>spu_periph := (spu_periph z)(p := periph_secattr_nonsecure m)\<rparr>"

definition tz_configure_periph_dma_non_secure :: "mdk \<Rightarrow> u8 \<Rightarrow> tz_state \<Rightarrow> tz_state" where
  "tz_configure_periph_dma_non_secure m p z =
     z\<lparr>spu_periph := (spu_periph z)
         (p := spu_periph z p OR (periph_dma_noseparate m OR periph_dmasec_nonsecure m))\<rparr>"

partial_function (option) region_loop ::
    "u8 \<Rightarrow> u32 \<Rightarrow> u32 \<Rightarrow> (u8 \<Rightarrow> u32) \<Rightarrow> (u8 \<Rightarrow> u32) option" where
  "region_loop region bound v p =
     (if (ucast region :: u32) < bound then region_loop (region + 1) bound v (p(region := v))
      else Some p)"

definition configure_flash :: "mdk \<Rightarrow> u8 \<Rightarrow> u32 \<Rightarrow> u8 \<Rightarrow> tz_state \<Rightarrow> tz_state option" where
  "configure_flash m start len secattr z =
     map_option (\<lambda>p. z\<lparr>spu_flash := p\<rparr>)
       (region_loop start (ucast start + len)
          (flash_read m OR flash_write m OR flash_execute m OR
             push_bit (flash_secattr_pos m) (ucast secattr))
          (spu_flash z))"

definition configure_ram :: "mdk \<Rightarrow> u8 \<Rightarrow> u32 \<Rightarrow> u8 \<Rightarrow> tz_state \<Rightarrow> tz_state option" where
  "configure_ram m start len secattr z =
     map_option (\<lambda>p. z\<lparr>spu_ram := p\<rparr>)
       (region_loop start (ucast start + len)
          (ram_read m OR ram_write m OR ram_execute m OR
             push_bit (ram_secattr_pos m) (ucast secattr))
          (spu_ram z))"

definition tz_configure_flash_secure :: "mdk \<Rightarrow> u8 \<Rightarrow> u32 \<Rightarrow> tz_state \<Rightarrow> tz_state option" where
  "tz_configure_flash_secure m start len z = configure_flash m start len (flash_secure m) z"

definition tz_configure_flash_non_secure :: "mdk \<Rightarrow> u8 \<Rightarrow> u32 \<Rightarrow> tz_state \<Rightarrow> tz_state option" where
  "tz_configure_flash_non_secure m start len z =
     configure_flash m start len (flash_nonsecure m) z"

definition tz_configure_ram_secure :: "mdk \<Rightarrow> u8 \<Rightarrow> u32 \<Rightarrow> tz_state \<Rightarrow> tz_state option" where
  "tz_configure_ram_secure m start len z = configure_ram m start len (ram_secure m) z"

definition tz_configure_ram_non_secure :: "mdk \<Rightarrow> u8 \<Rightarrow> u32 \<Rightarrow> tz_state \<Rightarrow> tz_state option" where
  "tz_configure_ram_non_secure m start len z = configure_ram m start len (ram_nonsecure m) z"

section \<open>The peripherals of the user image\<close>

text \<open>The peripheral identifiers of \<open>tz.h\<close> in the order \<open>setup_ns_user\<close> opens them, with
  whether their DMA is opened too.\<close>

definition ns_periphs :: "(u8 \<times> bool) list" where
  "ns_periphs =
     [(40, True), (66, False), (38, True), (26, False), (27, False), (28, False), (29, False),
      (30, False), (31, False), (32, False), (33, True), (34, True), (35, True), (36, True),
      (51, False), (52, False), (43, True), (20, False), (21, False), (8, True), (9, True),
      (11, True), (12, True), (15, False), (16, False), (54, True), (55, False)]"

definition open_periph :: "mdk \<Rightarrow> u8 \<times> bool \<Rightarrow> tz_state \<Rightarrow> tz_state" where
  "open_periph m pd z =
     (let z1 = tz_configure_periph_non_secure m (fst pd) z
      in if snd pd then tz_configure_periph_dma_non_secure m (fst pd) z1 else z1)"

definition ns_irqs :: "irqn list" where
  "ns_irqs =
     [I2S0_IRQn, PDM0_IRQn, EGU0_IRQn, EGU1_IRQn, EGU2_IRQn, EGU3_IRQn, EGU4_IRQn, EGU5_IRQn,
      PWM0_IRQn, PWM1_IRQn, PWM2_IRQn, PWM3_IRQn, QDEC0_IRQn, QDEC1_IRQn, QSPI_IRQn, RTC0_IRQn,
      RTC1_IRQn, SPIM0_SPIS0_TWIM0_TWIS0_UARTE0_IRQn, SPIM1_SPIS1_TWIM1_TWIS1_UARTE1_IRQn,
      SPIM2_SPIS2_TWIM2_TWIS2_UARTE2_IRQn, SPIM3_SPIS3_TWIM3_TWIS3_UARTE3_IRQn, TIMER0_IRQn,
      TIMER1_IRQn, USBD_IRQn, USBREGULATOR_IRQn, GPIOTE0_IRQn, GPIOTE1_IRQn]"

definition set_target :: "irqn \<Rightarrow> tz_state \<Rightarrow> tz_state" where
  "set_target i z = z\<lparr>nvic_ns := (nvic_ns z)(i := True)\<rparr>"

definition clear_target :: "irqn \<Rightarrow> tz_state \<Rightarrow> tz_state" where
  "clear_target i z = z\<lparr>nvic_ns := (nvic_ns z)(i := False)\<rparr>"

definition gpio_secure :: "nat \<Rightarrow> nat \<Rightarrow> tz_state \<Rightarrow> tz_state" where
  "gpio_secure port pin z =
     z\<lparr>spu_gpio := (spu_gpio z)(port := spu_gpio z port OR push_bit pin 1)\<rparr>"

section \<open>setup_ns_user\<close>

text \<open>The core registers, before the memory regions.\<close>

definition setup_ns_core :: "mdk \<Rightarrow> tz_state \<Rightarrow> tz_state" where
  "setup_ns_core m z =
     (let aircr = (scb_aircr z AND NOT (aircr_vectkey_msk m)) OR
                    (aircr_pris m OR aircr_bfhfnmins m OR aircr_sysresetreqs m)
      in z\<lparr>scb_aircr :=
             (push_bit (aircr_vectkey_pos m) 0x05FA AND aircr_vectkey_msk m) OR aircr,
           scb_nsacr := scb_nsacr z OR (nsacr_cp10 m OR nsacr_cp11 m),
           scb_shcsr := scb_shcsr z OR shcsr_securefaultena m,
           scb_ccr := scb_ccr z OR ccr_div_0_trp m OR ccr_unalign_trp m,
           sau_ctrl := 0 OR push_bit 1 1\<rparr>)"

text \<open>The GPIO ports: everything non-secure but the pins the secure side uses.\<close>

definition setup_ns_gpio :: "board \<Rightarrow> tz_state \<Rightarrow> tz_state" where
  "setup_ns_gpio b z =
     (let z1 = z\<lparr>spu_gpio := (spu_gpio z)(0 := 0, 1 := 0)\<rparr>;
          z2 = gpio_secure 1 4 (gpio_secure (lh2_d_port b) (lh2_d_pin b)
                 (gpio_secure (lh2_e_port b) (lh2_e_pin b) z1));
          z3 = gpio_secure 1 (if dotbot_v3 b then 7 else 6) z2
      in if dotbot_v3 b then gpio_secure 0 5 z3 else z3)"

definition setup_ns_user :: "mdk \<Rightarrow> board \<Rightarrow> tz_state \<Rightarrow> tz_state option" where
  "setup_ns_user m b z =
     Option.bind (tz_configure_ram_secure m 0 3 (setup_ns_core m z)) (\<lambda>z1.
     Option.bind (tz_configure_ram_non_secure m 4 48 z1) (\<lambda>z2.
       let z3 = z2\<lparr>nsc_region := 3, nsc_size := 8\<rparr>;
           z4 = fold (open_periph m) ns_periphs z3;
           z5 = fold set_target ns_irqs z4
       in Some (setup_ns_gpio b z5)))"

text \<open>The SPU part of \<open>main\<close>, before the network core starts.\<close>

definition main_configure_tz :: "mdk \<Rightarrow> tz_state \<Rightarrow> tz_state option" where
  "main_configure_tz m z =
     Option.bind (tz_configure_flash_secure m 0 4 z) (\<lambda>z1.
     Option.bind (tz_configure_flash_non_secure m 4 60 z1) (\<lambda>z2.
       tz_configure_ram_non_secure m 3 1 (tz_configure_periph_non_secure m 48 z2)))"

section \<open>The loop over regions\<close>

lemma ucast_u8_less: "(ucast (r :: u8) :: u32) < of_nat n \<longleftrightarrow> unat r < n" if "n < 2 ^ 32"
proof -
  have "unat (of_nat n :: u32) = n" using that by (simp only: unat_of_nat) simp
  then show ?thesis by (simp add: word_less_nat_alt)
qed

lemma unat_Suc_u8: "unat r < 255 \<Longrightarrow> unat (r + 1 :: u8) = Suc (unat r)"
  by (simp add: unat_word_ariths)

text \<open>A bound of at most 255 is reached; the loop sets exactly the regions below it.\<close>

lemma region_loop_upto:
  assumes "n \<le> 255"
  shows "region_loop r (of_nat n) v p
       = Some (\<lambda>q. if unat r \<le> unat q \<and> unat q < n then v else p q)"
proof (induction "n - unat r" arbitrary: r p)
  case 0
  then have "n \<le> unat r" by simp
  then show ?case
    using ucast_u8_less [of n r] assms
    by (auto simp: region_loop.simps [of r] intro!: ext)
next
  case (Suc d)
  then have lt: "unat r < n" by simp
  have next_r: "unat (r + 1) = Suc (unat r)"
    using lt assms by (intro unat_Suc_u8) simp
  then have "d = n - unat (r + 1)" using Suc.hyps(2) by simp
  then have "region_loop (r + 1) (of_nat n) v (p(r := v))
      = Some (\<lambda>q. if unat (r + 1) \<le> unat q \<and> unat q < n then v else (p(r := v)) q)"
    by (rule Suc.hyps(1))
  moreover have "(\<lambda>q. if unat (r + 1) \<le> unat q \<and> unat q < n then v else (p(r := v)) q)
      = (\<lambda>q. if unat r \<le> unat q \<and> unat q < n then v else p q)"
    using lt by (auto simp: next_r word_unat_eq_iff intro!: ext)
  ultimately show ?case
    using lt ucast_u8_less [of n r] assms by (simp add: region_loop.simps [of r])
qed

text \<open>A bound of 256 or more is never reached by an 8-bit counter.\<close>

lemma region_loop_diverges:
  assumes "256 \<le> unat bound"
  shows "region_loop r bound v p = None"
proof (rule ccontr)
  assume "region_loop r bound v p \<noteq> None"
  then obtain q where "region_loop r bound v p = Some q" by auto
  moreover have "unat b < 256" if "region_loop r b v p = Some q" for r b v p q
  proof (rule region_loop.raw_induct
      [where P = "\<lambda>r b v p q. unat b < 256", OF _ that])
    fix f r b v p q
    assume IH: "\<And>r b v p q. f r b v p = Some q \<Longrightarrow> unat b < 256"
      and eq: "(if (ucast (r :: u8) :: u32) < b then f (r + 1) b v (p(r := v)) else Some p) = Some q"
    show "unat b < 256"
    proof (cases "(ucast r :: u32) < b")
      case True
      then show ?thesis using eq IH by simp
    next
      case False
      then show ?thesis using unat_u8_le [of r] by (simp add: word_less_nat_alt)
    qed
  qed
  ultimately have "unat bound < 256" by blast
  then show False using assms by simp
qed


section \<open>The partition the set-up leaves\<close>

definition flash_region_secure :: "mdk \<Rightarrow> tz_state \<Rightarrow> u8 \<Rightarrow> bool" where
  "flash_region_secure m z r = bit (spu_flash z r) (flash_secattr_pos m)"

definition ram_region_secure :: "mdk \<Rightarrow> tz_state \<Rightarrow> u8 \<Rightarrow> bool" where
  "ram_region_secure m z r = bit (spu_ram z r) (ram_secattr_pos m)"

lemma configure_flash_upto:
  assumes "unat start + n \<le> 255"
  shows "configure_flash m start (of_nat n) a z =
    Some (z\<lparr>spu_flash := (\<lambda>q. if unat start \<le> unat q \<and> unat q < unat start + n
       then flash_read m OR flash_write m OR flash_execute m OR
            push_bit (flash_secattr_pos m) (ucast a) else spu_flash z q)\<rparr>)"
proof -
  have "ucast start + of_nat n = (of_nat (unat start + n) :: u32)"
    by (simp add: word_unat_eq_iff unat_word_ariths)
  then show ?thesis
    by (simp only: configure_flash_def region_loop_upto [OF assms] option.map)
qed

lemma configure_ram_upto:
  assumes "unat start + n \<le> 255"
  shows "configure_ram m start (of_nat n) a z =
    Some (z\<lparr>spu_ram := (\<lambda>q. if unat start \<le> unat q \<and> unat q < unat start + n
       then ram_read m OR ram_write m OR ram_execute m OR
            push_bit (ram_secattr_pos m) (ucast a) else spu_ram z q)\<rparr>)"
proof -
  have "ucast start + of_nat n = (of_nat (unat start + n) :: u32)"
    by (simp add: word_unat_eq_iff unat_word_ariths)
  then show ?thesis
    by (simp only: configure_ram_def region_loop_upto [OF assms] option.map)
qed

lemma fold_frame:
  assumes "\<And>x z. P (f x z) = P z"
  shows "P (fold f xs z) = P z"
  by (induction xs arbitrary: z) (simp_all add: assms)

lemma setup_ns_frame [simp]:
  "spu_flash (setup_ns_core m z) = spu_flash z" "spu_ram (setup_ns_core m z) = spu_ram z"
  "spu_periph (setup_ns_core m z) = spu_periph z" "nvic_ns (setup_ns_core m z) = nvic_ns z"
  "spu_flash (setup_ns_gpio b z) = spu_flash z" "spu_ram (setup_ns_gpio b z) = spu_ram z"
  "spu_periph (setup_ns_gpio b z) = spu_periph z" "nvic_ns (setup_ns_gpio b z) = nvic_ns z"
  "scb_aircr (setup_ns_gpio b z) = scb_aircr z"
  by (simp_all add: setup_ns_core_def setup_ns_gpio_def gpio_secure_def Let_def)

lemma open_periph_frame [simp]:
  "spu_flash (open_periph m x z) = spu_flash z" "spu_ram (open_periph m x z) = spu_ram z"
  "nvic_ns (open_periph m x z) = nvic_ns z" "scb_aircr (open_periph m x z) = scb_aircr z"
  by (simp_all add: open_periph_def tz_configure_periph_non_secure_def
        tz_configure_periph_dma_non_secure_def Let_def)

lemma set_target_frame [simp]:
  "spu_flash (set_target i z) = spu_flash z" "spu_ram (set_target i z) = spu_ram z"
  "spu_periph (set_target i z) = spu_periph z" "scb_aircr (set_target i z) = scb_aircr z"
  by (simp_all add: set_target_def)

lemma fold_periph_frame [simp]:
  "spu_flash (fold (open_periph m) xs z) = spu_flash z"
  "spu_ram (fold (open_periph m) xs z) = spu_ram z"
  "nvic_ns (fold (open_periph m) xs z) = nvic_ns z"
  "scb_aircr (fold (open_periph m) xs z) = scb_aircr z"
  by (simp_all add: fold_frame)

lemma fold_target_frame [simp]:
  "spu_flash (fold set_target is z) = spu_flash z" "spu_ram (fold set_target is z) = spu_ram z"
  "spu_periph (fold set_target is z) = spu_periph z"
  "scb_aircr (fold set_target is z) = scb_aircr z"
  by (simp_all add: fold_frame)

lemma nvic_fold_target: "nvic_ns (fold set_target is z) i = (i \<in> set is \<or> nvic_ns z i)"
  by (induction "is" arbitrary: z) (auto simp: set_target_def)

text \<open>Opening a list of peripherals touches those of the list only; each ends up with the
  non-secure attribute and, where asked, the DMA bits.\<close>

lemma periph_fold_open:
  "distinct (map fst xs) \<Longrightarrow> spu_periph (fold (open_periph m) xs z) p =
     (case map_of xs p of None \<Rightarrow> spu_periph z p
      | Some d \<Rightarrow> if d then periph_secattr_nonsecure m OR
                         (periph_dma_noseparate m OR periph_dmasec_nonsecure m)
                 else periph_secattr_nonsecure m)"
proof (induction xs arbitrary: z)
  case (Cons x xs)
  then have "map_of xs (fst x) = None" by (simp add: map_of_eq_None_iff)
  then show ?case using Cons
    by (auto simp: open_periph_def Let_def tz_configure_periph_non_secure_def
          tz_configure_periph_dma_non_secure_def split: option.split)
qed simp

lemma setup_ns_user_result:
  "\<exists>z'. setup_ns_user m b z = Some z' \<and> spu_flash z' = spu_flash z \<and>
     spu_ram z' = (\<lambda>q. if unat q < 3 \<or> 4 \<le> unat q \<and> unat q < 52
       then ram_read m OR ram_write m OR ram_execute m OR
            push_bit (ram_secattr_pos m) (ucast (if unat q < 3 then ram_secure m else ram_nonsecure m))
       else spu_ram z q) \<and>
     spu_periph z' = (\<lambda>p. case map_of ns_periphs p of None \<Rightarrow> spu_periph z p
      | Some d \<Rightarrow> if d then periph_secattr_nonsecure m OR
                         (periph_dma_noseparate m OR periph_dmasec_nonsecure m)
                 else periph_secattr_nonsecure m) \<and>
     nvic_ns z' = (\<lambda>i. i \<in> set ns_irqs \<or> nvic_ns z i)"
proof -
  have d: "distinct (map fst ns_periphs)" by (simp add: ns_periphs_def)
  show ?thesis
    using configure_ram_upto [of 0 3 m] configure_ram_upto [of 4 48 m]
    by (simp add: setup_ns_user_def tz_configure_ram_secure_def tz_configure_ram_non_secure_def
          Let_def fun_eq_iff periph_fold_open [OF d] nvic_fold_target split: option.split)
qed

lemma main_configure_tz_result:
  "main_configure_tz m z = Some (z\<lparr>
     spu_flash := (\<lambda>q. if unat q < 64
       then flash_read m OR flash_write m OR flash_execute m OR push_bit (flash_secattr_pos m)
              (ucast (if unat q < 4 then flash_secure m else flash_nonsecure m))
       else spu_flash z q),
     spu_periph := (spu_periph z)(48 := periph_secattr_nonsecure m),
     spu_ram := (\<lambda>q. if unat q = 3
       then ram_read m OR ram_write m OR ram_execute m OR
            push_bit (ram_secattr_pos m) (ucast (ram_nonsecure m))
       else spu_ram z q)\<rparr>)"
  using configure_flash_upto [of 0 4 m] configure_flash_upto [of 4 60 m]
    configure_ram_upto [of 3 1 m]
  by (simp add: main_configure_tz_def tz_configure_flash_secure_def
        tz_configure_flash_non_secure_def tz_configure_ram_non_secure_def
        tz_configure_periph_non_secure_def)
     (rule tz_state.equality, auto intro!: ext)

lemma secure_bit:
  assumes "mdk_ok m"
  shows "bit (flash_read m OR flash_write m OR flash_execute m OR push_bit (flash_secattr_pos m) (ucast (flash_secure m))) (flash_secattr_pos m)"
    "\<not> bit (flash_read m OR flash_write m OR flash_execute m OR push_bit (flash_secattr_pos m) (ucast (flash_nonsecure m))) (flash_secattr_pos m)"
    "bit (ram_read m OR ram_write m OR ram_execute m OR push_bit (ram_secattr_pos m) (ucast (ram_secure m))) (ram_secattr_pos m)"
    "\<not> bit (ram_read m OR ram_write m OR ram_execute m OR push_bit (ram_secattr_pos m) (ucast (ram_nonsecure m))) (ram_secattr_pos m)"
  using assms by (simp_all add: mdk_ok_def bit_simps)

lemma set_up_partition:
  assumes "mdk_ok m"
  shows "\<exists>z1 z2. main_configure_tz m z = Some z1 \<and> setup_ns_user m b z1 = Some z2 \<and>
    (\<forall>r. unat r < 64 \<longrightarrow> flash_region_secure m z2 r = (unat r < 4)) \<and>
    (\<forall>r. unat r < 52 \<longrightarrow> ram_region_secure m z2 r = (unat r < 3))"
proof -
  obtain z1 where z1: "main_configure_tz m z = Some z1"
    "spu_flash z1 = (\<lambda>q. if unat q < 64
       then flash_read m OR flash_write m OR flash_execute m OR push_bit (flash_secattr_pos m)
              (ucast (if unat q < 4 then flash_secure m else flash_nonsecure m))
       else spu_flash z q)"
    "spu_ram z1 = (\<lambda>q. if unat q = 3
       then ram_read m OR ram_write m OR ram_execute m OR
            push_bit (ram_secattr_pos m) (ucast (ram_nonsecure m))
       else spu_ram z q)"
    using main_configure_tz_result [of m z] by simp
  obtain z2 where z2: "setup_ns_user m b z1 = Some z2" "spu_flash z2 = spu_flash z1"
    "spu_ram z2 = (\<lambda>q. if unat q < 3 \<or> 4 \<le> unat q \<and> unat q < 52
       then ram_read m OR ram_write m OR ram_execute m OR
            push_bit (ram_secattr_pos m) (ucast (if unat q < 3 then ram_secure m else ram_nonsecure m))
       else spu_ram z1 q)"
    using setup_ns_user_result [of m b z1] by blast
  have "flash_region_secure m z2 r = (unat r < 4)" if "unat r < 64" for r
    using that secure_bit [OF assms] by (simp add: flash_region_secure_def z2(2) z1(2))
  moreover have "ram_region_secure m z2 r = (unat r < 3)" if "unat r < 52" for r
  proof (cases "unat r = 3")
    case True
    then show ?thesis using secure_bit [OF assms] by (simp add: ram_region_secure_def z2(3) z1(3))
  next
    case False
    then have "unat r < 3 \<or> 4 \<le> unat r \<and> unat r < 52" using that by linarith
    then show ?thesis using secure_bit [OF assms] by (auto simp: ram_region_secure_def z2(3))
  qed
  ultimately show ?thesis using z1(1) z2(1) by blast
qed

end
