(* ===== verification/Appcore.thy ===== *)
theory Appcore
  imports Localization Trustzone
begin

text \<open>
  The application core: its state (\<open>_bootloader_vars\<close>, \<open>_boot_intent\<close> and the static variables
  of the secure gateway, with the shared RAM, the flash and the peripherals they drive), and the
  drivers it talks to the network core and the battery with: \<open>ipc.c\<close>, \<open>mari.c\<close>, \<open>rng.c\<close> and
  \<open>battery.c\<close> of \<open>bootloader/Source\<close>.

  While this core waits for the other one, the shared RAM changes under it: \<open>ae_net t sh k\<close> is
  the shared RAM poll \<open>k\<close> of a wait finds, when the wait started at \<open>sh\<close> in situation \<open>t\<close>. A
  wait whose condition never comes is \<open>Stuck\<close>.
\<close>

section \<open>State\<close>

datatype led = RedLed | GreenLed | BlueLed

datatype app_event =
    AE_IpcSend ipc_channels_t
  | AE_SystemReset
  | AE_JumpNonSecure u32 u32 u32
  | AE_RxCallback bytes
  | AE_SaadcRead u8

record watchdog =
  wd_sleep_run :: bool
  wd_halt_pause :: bool
  wd_rr0_enabled :: bool
  wd_crv :: u32
  wd_started :: bool
  wd_reloads :: nat

record appcore =
  a_notification_buffer :: bytes
  a_base_addr :: u32
  a_ota_start_request :: bool
  a_ota_require_erase :: bool
  a_ota_chunk_request :: bool
  a_lh2_calibration_ready :: bool
  a_lh2_capture_request :: bool
  a_lh2_capturing :: bool
  a_start_application :: bool
  a_system_reset_requested :: bool
  a_position_update :: bool
  a_battery_update :: bool
  a_boot_intent :: u32
  a_resetreas :: u32
  a_net_forceoff :: bool
  a_wdt0 :: watchdog
  a_wdt1 :: watchdog
  a_stop_starts_wdt1 :: bool
  a_tx_data_buffer :: bytes
  a_loc_data_available :: bool
  a_spim4_end :: bool
  a_shared :: ipc_shared
  a_flash :: flash
  a_loc :: localization
  a_tz :: tz_state
  a_events :: "ipc_channels_t \<Rightarrow> bool"
  a_leds :: "led \<Rightarrow> bool"
  a_mem :: "u32 \<Rightarrow> u8"
  a_out :: "app_event list"

record app_env =
  ae_flash_hw :: flash_hw
  ae_lh2 :: lh2_env
  ae_mdk :: mdk
  ae_board :: board
  ae_device_type :: swrmt_device_type_t
  ae_sreq :: u32
  ae_saadc_vdd :: u8
  ae_saadc_vddh :: u8
  ae_saadc_ain0 :: u8
  ae_net :: "nat \<Rightarrow> ipc_shared \<Rightarrow> nat \<Rightarrow> ipc_shared"

record app_input =
  ai_time :: nat
  ai_saadc :: u16
  ai_lh2 :: "lh2 \<Rightarrow> lh2"
  ai_lh2_isr :: "lh2 \<Rightarrow> lh2"

definition app_emit :: "app_event \<Rightarrow> appcore \<Rightarrow> appcore" where
  "app_emit ev s = s\<lparr>a_out := a_out s @ [ev]\<rparr>"

definition app_shared :: "(ipc_shared \<Rightarrow> ipc_shared) \<Rightarrow> appcore \<Rightarrow> appcore" where
  "app_shared g s = s\<lparr>a_shared := g (a_shared s)\<rparr>"

lemmas app_upd_defs = app_emit_def app_shared_def

section \<open>ipc.c\<close>

text \<open>Poll the shared RAM until a field of it is set.\<close>

definition wait_shared :: "(nat \<Rightarrow> ipc_shared) \<Rightarrow> (ipc_shared \<Rightarrow> bool) \<Rightarrow> appcore \<Rightarrow> appcore outcome" where
  "wait_shared w until s =
     (case spin_until (\<lambda>k. until (w k)) 0 of
        None \<Rightarrow> Stuck s
      | Some k \<Rightarrow> Continue (s\<lparr>a_shared := w k\<rparr>))"

definition ipc_network_call :: "app_env \<Rightarrow> nat \<Rightarrow> ipc_req_t \<Rightarrow> appcore \<Rightarrow> appcore outcome" where
  "ipc_network_call e t req s =
     (let s1 = (if req \<noteq> IPC_REQ_NONE
                then app_emit (AE_IpcSend IPC_CHAN_REQ) (app_shared (\<lambda>sh. sh\<lparr>sh_req := req\<rparr>) s)
                else s)
      in and_then (wait_shared (ae_net e t (a_shared s1)) net_ack s1)
           (\<lambda>s2. Continue (app_shared (\<lambda>sh. sh\<lparr>net_ack := False\<rparr>) s2)))"

definition release_network_core :: "app_env \<Rightarrow> nat \<Rightarrow> appcore \<Rightarrow> appcore outcome" where
  "release_network_core e t s =
     (if \<not> a_net_forceoff s \<and> net_ready (a_shared s) then Continue s
      else let s1 = (if \<not> a_net_forceoff s
                     then app_shared (\<lambda>sh. sh\<lparr>net_ready := False\<rparr>) s else s);
               s2 = s1\<lparr>a_net_forceoff := False\<rparr>
           in wait_shared (ae_net e t (a_shared s2)) net_ready s2)"

section \<open>mari.c and rng.c\<close>

definition app_mari_init :: "app_env \<Rightarrow> nat \<Rightarrow> appcore \<Rightarrow> appcore outcome" where
  "app_mari_init e t s =
     ipc_network_call e t IPC_MARI_INIT_REQ
       (s\<lparr>a_tz := tz_configure_periph_non_secure (ae_mdk e) 48 (a_tz s)\<rparr>)"

text \<open>\<open>packet\<close> holds the \<open>length\<close> bytes at the packet pointer.\<close>

definition mari_node_tx :: "app_env \<Rightarrow> nat \<Rightarrow> bytes \<Rightarrow> appcore \<Rightarrow> appcore outcome" where
  "mari_node_tx e t packet s =
     ipc_network_call e t IPC_MARI_NODE_TX_REQ
       (app_shared (\<lambda>sh. sh\<lparr>tx_pdu := \<lparr>pdu_length = of_nat (length packet),
          pdu_buffer = blit 0 packet (pdu_buffer (tx_pdu sh))\<rparr>\<rparr>) s)"

definition rng_init :: "app_env \<Rightarrow> nat \<Rightarrow> appcore \<Rightarrow> appcore outcome" where
  "rng_init e t s = ipc_network_call e t IPC_RNG_INIT_REQ s"

text \<open>\<open>store\<close> writes the byte through the caller's pointer.\<close>

definition rng_read :: "app_env \<Rightarrow> nat \<Rightarrow> (u8 \<Rightarrow> appcore \<Rightarrow> appcore) \<Rightarrow> appcore \<Rightarrow> appcore outcome" where
  "rng_read e t store s =
     and_then (ipc_network_call e t IPC_RNG_READ_REQ s)
       (\<lambda>s1. Continue (store (rng_value (a_shared s1)) s1))"

section \<open>battery.c\<close>

definition BATTERY_LEVEL_MAX_MV :: u16 where
  "BATTERY_LEVEL_MAX_MV = 3000"

text \<open>\<open>v\<close> is what the ADC of DotBot-libs reads; \<open>le_float\<close> rounds each operation.\<close>

definition battery_level_read :: "lh2_env \<Rightarrow> u16 \<Rightarrow> u16" where
  "battery_level_read le v =
     (let volts = le_float le (le_float le (of_nat (unat v) / 4095) * 3600);
          voltage_mv = (of_int \<lfloor>volts\<rfloor> :: u16)
      in if BATTERY_LEVEL_MAX_MV < voltage_mv then BATTERY_LEVEL_MAX_MV else voltage_mv)"

lemma battery_level_read_max: "battery_level_read le v \<le> BATTERY_LEVEL_MAX_MV"
  by (simp add: battery_level_read_def Let_def not_less)

section \<open>The invariant of the shared RAM, seen from this core\<close>

definition app_shared_ok :: "ipc_shared \<Rightarrow> bool" where
  "app_shared_ok sh \<longleftrightarrow> shared_ok sh \<and>
     unat (cal_count (lh2_calibration sh)) \<le> LH2_BASESTATION_COUNT_MAX"

text \<open>What the code relies on of the parameters: the other core keeps the shared RAM well
  formed, and the LH2 arithmetic gives a number or an infinity.\<close>

definition app_env_ok :: "app_env \<Rightarrow> bool" where
  "app_env_ok e \<longleftrightarrow> (\<forall>t sh k. app_shared_ok sh \<longrightarrow> app_shared_ok (ae_net e t sh k)) \<and>
     (\<forall>h a b i c. fst (le_position (ae_lh2 e) h a b i c) \<noteq> NaN \<and>
                  snd (le_position (ae_lh2 e) h a b i c) \<noteq> NaN)"

definition app_inv :: "appcore \<Rightarrow> bool" where
  "app_inv s \<longleftrightarrow> app_shared_ok (a_shared s) \<and> length (a_notification_buffer s) = 255 \<and>
     fst (loc_coordinates (a_loc s)) \<noteq> NaN \<and> snd (loc_coordinates (a_loc s)) \<noteq> NaN"

lemma app_shared_ok_upd [simp]:
  "app_shared_ok (sh\<lparr>net_ready := b\<rparr>) = app_shared_ok sh"
  "app_shared_ok (sh\<lparr>net_ack := b\<rparr>) = app_shared_ok sh"
  "app_shared_ok (sh\<lparr>sh_req := q\<rparr>) = app_shared_ok sh"
  "app_shared_ok (sh\<lparr>sh_status := st\<rparr>) = app_shared_ok sh"
  "app_shared_ok (sh\<lparr>battery_level := bl\<rparr>) = app_shared_ok sh"
  "app_shared_ok (sh\<lparr>device_type := dt\<rparr>) = app_shared_ok sh"
  "app_shared_ok (sh\<lparr>current_position := p\<rparr>) = app_shared_ok sh"
  by (simp_all add: app_shared_ok_def)

lemma app_inv_shared [dest]: "app_inv s \<Longrightarrow> app_shared_ok (a_shared s)"
  by (simp add: app_inv_def)

lemma app_inv_app_shared:
  "app_inv s \<Longrightarrow> app_shared_ok (g (a_shared s)) \<Longrightarrow> app_inv (app_shared g s)"
  by (simp add: app_inv_def app_shared_def)

lemma app_inv_emit [simp]: "app_inv (app_emit ev s) = app_inv s"
  by (simp add: app_inv_def app_emit_def)

lemma app_fields_upd [simp]:
  "a_shared (app_emit ev s) = a_shared s" "a_shared (app_shared g s) = g (a_shared s)"
  "a_flash (app_emit ev s) = a_flash s" "a_flash (app_shared g s) = a_flash s"
  "a_out (app_emit ev s) = a_out s @ [ev]" "a_out (app_shared g s) = a_out s"
  "a_mem (app_emit ev s) = a_mem s" "a_mem (app_shared g s) = a_mem s"
  "a_tz (app_emit ev s) = a_tz s" "a_tz (app_shared g s) = a_tz s"
  by (simp_all add: app_upd_defs)

lemma wait_shared_cases:
  obtains (stuck) "wait_shared w until s = Stuck s"
  | (found) k where "wait_shared w until s = Continue (s\<lparr>a_shared := w k\<rparr>)" "until (w k)"
proof (cases "spin_until (\<lambda>k. until (w k)) 0")
  case None
  then show ?thesis using that(1) by (simp add: wait_shared_def)
next
  case (Some k)
  then have "\<exists>n. until (w n)"
    using spin_until_None [of 0 "\<lambda>k. until (w k)"] by (metis option.distinct(1))
  then obtain m where "spin_until (\<lambda>k. until (w k)) 0 = Some m" "until (w m)"
    using spin_until_returns [of "\<lambda>k. until (w k)" _ 0] by auto
  then show ?thesis using that(2) [of m] Some by (simp add: wait_shared_def)
qed

text \<open>A call to the network core changes the shared RAM only.\<close>

lemma ipc_call_frame:
  assumes "ipc_network_call e t req s = Continue s1"
  shows "a_mem s1 = a_mem s" "a_flash s1 = a_flash s" "a_ota_require_erase s1 = a_ota_require_erase s"
    "a_wdt0 s1 = a_wdt0 s" "a_boot_intent s1 = a_boot_intent s" "a_resetreas s1 = a_resetreas s"
proof -
  define s0 where "s0 = (if req \<noteq> IPC_REQ_NONE
    then app_emit (AE_IpcSend IPC_CHAN_REQ) (app_shared (\<lambda>sh. sh\<lparr>sh_req := req\<rparr>) s) else s)"
  have s0: "a_mem s0 = a_mem s" "a_flash s0 = a_flash s"
    "a_ota_require_erase s0 = a_ota_require_erase s" "a_wdt0 s0 = a_wdt0 s"
    "a_boot_intent s0 = a_boot_intent s" "a_resetreas s0 = a_resetreas s"
    by (simp_all add: s0_def app_upd_defs)
  have call: "and_then (wait_shared (ae_net e t (a_shared s0)) net_ack s0)
      (\<lambda>s2. Continue (app_shared (\<lambda>sh. sh\<lparr>net_ack := False\<rparr>) s2)) = Continue s1"
    using assms by (simp add: ipc_network_call_def Let_def s0_def)
  obtain sh where "s1 = s0\<lparr>a_shared := sh\<rparr>"
    by (rule wait_shared_cases [of "ae_net e t (a_shared s0)" net_ack s0])
       (use call in \<open>auto simp: app_shared_def\<close>)
  then show "a_mem s1 = a_mem s" "a_flash s1 = a_flash s"
    "a_ota_require_erase s1 = a_ota_require_erase s" "a_wdt0 s1 = a_wdt0 s"
    "a_boot_intent s1 = a_boot_intent s" "a_resetreas s1 = a_resetreas s"
    using s0 by simp_all
qed

text \<open>The call returns when the network core acknowledges at some poll.\<close>

lemma wait_shared_found:
  "\<exists>k. until (w k) \<Longrightarrow> \<exists>k. wait_shared w until s = Continue (s\<lparr>a_shared := w k\<rparr>)"
  using spin_until_returns [of "\<lambda>k. until (w k)" _ 0] by (fastforce simp: wait_shared_def)

lemma ipc_call_returns:
  assumes "\<And>sh. \<exists>k. net_ack (ae_net e t sh k)"
  shows "\<exists>s1. ipc_network_call e t req s = Continue s1"
proof -
  define s0 where "s0 = (if req \<noteq> IPC_REQ_NONE
    then app_emit (AE_IpcSend IPC_CHAN_REQ) (app_shared (\<lambda>sh. sh\<lparr>sh_req := req\<rparr>) s) else s)"
  obtain k where "wait_shared (ae_net e t (a_shared s0)) net_ack s0
      = Continue (s0\<lparr>a_shared := ae_net e t (a_shared s0) k\<rparr>)"
    using wait_shared_found [of net_ack "ae_net e t (a_shared s0)"] assms by blast
  then show ?thesis by (simp add: ipc_network_call_def Let_def s0_def)
qed

lemma app_inv_wait:
  assumes "app_inv s" and "\<And>k. app_shared_ok (w k)"
  shows "outcome_ok app_inv (wait_shared w until s)"
  by (rule wait_shared_cases [of w until s]) (use assms in \<open>simp_all add: app_inv_def\<close>)

lemma app_inv_ipc_network_call:
  assumes "app_env_ok e" and "app_inv s"
  shows "outcome_ok app_inv (ipc_network_call e t req s)"
proof -
  let ?s1 = "if req \<noteq> IPC_REQ_NONE
             then app_emit (AE_IpcSend IPC_CHAN_REQ) (app_shared (\<lambda>sh. sh\<lparr>sh_req := req\<rparr>) s)
             else s"
  have s1: "app_inv ?s1"
    using assms(2) by (simp add: app_inv_app_shared app_inv_shared)
  have ok: "outcome_ok app_inv (wait_shared (ae_net e t (a_shared ?s1)) net_ack ?s1)"
    using assms(1) s1 by (intro app_inv_wait) (auto simp: app_env_ok_def app_inv_def)
  then show ?thesis
    unfolding ipc_network_call_def Let_def
    by (cases "wait_shared (ae_net e t (a_shared ?s1)) net_ack ?s1")
       (auto simp: app_inv_def app_shared_def)
qed

lemma app_shared_ok_tx [simp]:
  "app_shared_ok sh \<Longrightarrow> length m \<le> 255 \<Longrightarrow>
   app_shared_ok (sh\<lparr>tx_pdu := \<lparr>pdu_length = l, pdu_buffer = blit 0 m (pdu_buffer (tx_pdu sh))\<rparr>\<rparr>)"
  by (simp add: app_shared_ok_def shared_ok_def)

lemma app_inv_mari_node_tx:
  "app_env_ok e \<Longrightarrow> app_inv s \<Longrightarrow> length m \<le> 255 \<Longrightarrow>
   outcome_ok app_inv (mari_node_tx e t m s)"
  unfolding mari_node_tx_def
  by (intro app_inv_ipc_network_call app_inv_app_shared) (auto intro: app_shared_ok_tx)

end
