(* ===== verification/Bootloader.thy ===== *)
theory Bootloader
  imports Appcore
begin

text \<open>
  The bootloader of the application core (\<open>bootloader/Source/main.c\<close>): start-up with the choice
  between the user image and the bootloader, the stages of its main loop, and the IPC interrupt
  handler. A reset and the jump to the user image do not return: they are \<open>Stuck\<close> with the last
  event of \<open>a_out\<close> telling which. The stages of the LH2 data share the local \<open>data_available\<close>
  and are one stage here. \<open>printf\<close> output is left out.
\<close>

definition SWARMIT_BASE_ADDRESS :: u32 where
  "SWARMIT_BASE_ADDRESS = 0x10000"

definition SWRMT_BOOT_INTENT_USER_IMAGE :: u32 where
  "SWRMT_BOOT_INTENT_USER_IMAGE = 0xC0DEC0DE"

definition SWRMT_BOOT_INTENT_BOOTLOADER :: u32 where
  "SWRMT_BOOT_INTENT_BOOTLOADER = 0xB007B007"

definition BATTERY_VOLTAGE_FULL :: u16 where
  "BATTERY_VOLTAGE_FULL = 2900"

definition BATTERY_VOLTAGE_WARNING :: u16 where
  "BATTERY_VOLTAGE_WARNING = 1500"

definition SWRMT_OTA_CHUNK_SIZE :: u32 where
  "SWRMT_OTA_CHUNK_SIZE = 128"

definition SWRMT_LH2_CALIB_TAG :: u8 where
  "SWRMT_LH2_CALIB_TAG = 0xCA"

section \<open>Start-up\<close>

definition setup_watchdog1 :: "appcore \<Rightarrow> appcore" where
  "setup_watchdog1 s = s\<lparr>a_wdt1 := (a_wdt1 s)
     \<lparr>wd_sleep_run := True, wd_halt_pause := False, wd_rr0_enabled := True, wd_crv := 32768 - 1\<rparr>\<rparr>"

definition setup_watchdog0 :: "appcore \<Rightarrow> appcore" where
  "setup_watchdog0 s = s\<lparr>a_wdt0 := (a_wdt0 s)
     \<lparr>wd_sleep_run := True, wd_halt_pause := True, wd_rr0_enabled := True, wd_crv := 32768 - 1,
      wd_started := True\<rparr>\<rparr>"

text \<open>The IPC channels as \<open>main\<close> configures them, and the PPI link that starts watchdog 1 when
  the stop channel fires.\<close>

definition app_ipc_intenset :: "ipc_channels_t list" where
  "app_ipc_intenset =
     [IPC_CHAN_RADIO_RX, IPC_CHAN_OTA_START, IPC_CHAN_OTA_CHUNK, IPC_CHAN_APPLICATION_START,
      IPC_CHAN_SOC_RESET, IPC_CHAN_CALIBRATION_DATA, IPC_CHAN_LH2_CAPTURE]"

definition app_ipc_send_cnf :: "ipc_channels_t list" where
  "app_ipc_send_cnf = [IPC_CHAN_REQ, IPC_CHAN_LOG_EVENT]"

definition app_ipc_receive_cnf :: "ipc_channels_t list" where
  "app_ipc_receive_cnf =
     [IPC_CHAN_RADIO_RX, IPC_CHAN_APPLICATION_START, IPC_CHAN_APPLICATION_STOP,
      IPC_CHAN_SOC_RESET, IPC_CHAN_OTA_START, IPC_CHAN_OTA_CHUNK, IPC_CHAN_CALIBRATION_DATA,
      IPC_CHAN_LH2_CAPTURE]"

text \<open>A part of \<open>main\<close> that does not end when a loop of \<open>tz.c\<close> does not.\<close>

definition with_tz :: "(tz_state \<Rightarrow> tz_state option) \<Rightarrow> appcore \<Rightarrow> appcore outcome" where
  "with_tz g s = (case g (a_tz s) of None \<Rightarrow> Stuck s | Some z \<Rightarrow> Continue (s\<lparr>a_tz := z\<rparr>))"

definition boot_prepare :: "app_env \<Rightarrow> appcore \<Rightarrow> appcore outcome" where
  "boot_prepare e s =
     and_then (with_tz (main_configure_tz (ae_mdk e)) (setup_watchdog1 s)) (\<lambda>s1.
       Continue (app_shared (\<lambda>sh. sh\<lparr>device_type := ae_device_type e\<rparr>)
         (s1\<lparr>a_stop_starts_wdt1 := True\<rparr>)))"

text \<open>Start the network core, wait until it is ready, start Mari on it, read the battery.\<close>

definition boot_network :: "app_env \<Rightarrow> app_input \<Rightarrow> appcore \<Rightarrow> appcore outcome" where
  "boot_network e i s =
     and_then (release_network_core e (ai_time i) s) (\<lambda>s1.
     and_then (if net_ready (a_shared s1) then Continue s1
               else wait_shared (ae_net e (ai_time i) (a_shared s1)) net_ready s1) (\<lambda>s2.
     and_then (app_mari_init e (ai_time i) s2) (\<lambda>s3.
       Continue ((app_shared (\<lambda>sh. sh\<lparr>battery_level :=
                    battery_level_read (ae_lh2 e) (ai_saadc i)\<rparr>) s3)
         \<lparr>a_tz := clear_target IPC_IRQn (clear_target SPIM4_IRQn (a_tz s3))\<rparr>))))"

definition cal_usable :: "lh2_calibration_ram \<Rightarrow> bool" where
  "cal_usable c \<longleftrightarrow> 0 < cal_count c \<and> unat (cal_count c) \<le> LH2_BASESTATION_COUNT_MAX"

definition init_localization :: "app_env \<Rightarrow> appcore \<Rightarrow> appcore outcome" where
  "init_localization e s =
     (case localization_init (ae_lh2 e) (cal_homographies (lh2_calibration (a_shared s)))
             (cal_count (lh2_calibration (a_shared s))) (a_loc s) of
        None \<Rightarrow> Undefined
      | Some l \<Rightarrow> Continue (s\<lparr>a_loc := l\<rparr>))"

text \<open>The vector table is the start of the image: the stack pointer and the reset handler, whose
  lowest bit \<open>cmse_nsfptr_create\<close> clears.\<close>

definition boot_user_image :: "app_env \<Rightarrow> appcore \<Rightarrow> appcore outcome" where
  "boot_user_image e s =
     (let s1 = app_shared (\<lambda>sh. sh\<lparr>sh_status := SWRMT_APPLICATION_RUNNING\<rparr>) s
      in and_then (if cal_usable (lh2_calibration (a_shared s1)) then init_localization e s1
                   else Continue s1) (\<lambda>s2.
         and_then (with_tz (setup_ns_user (ae_mdk e) (ae_board e)) s2) (\<lambda>s3.
           let s4 = setup_watchdog0 s3;
               s5 = s4\<lparr>a_tz := set_target SPIM4_IRQn (set_target IPC_IRQn (a_tz s4))\<rparr>
           in Stuck (app_emit (AE_JumpNonSecure SWARMIT_BASE_ADDRESS
                (cells (a_flash s5) SWARMIT_BASE_ADDRESS)
                (cells (a_flash s5) (SWARMIT_BASE_ADDRESS + 4) AND NOT 1)) s5))))"

definition boot_bootloader :: "appcore \<Rightarrow> appcore" where
  "boot_bootloader s =
     app_shared (\<lambda>sh. sh\<lparr>sh_status := SWRMT_APPLICATION_READY\<rparr>)
       (s\<lparr>a_base_addr := SWARMIT_BASE_ADDRESS, a_ota_require_erase := True\<rparr>)"

text \<open>The choice. Writing \<open>RESETREAS\<close> back clears the bits it has set.\<close>

definition boots_user_image :: "app_env \<Rightarrow> appcore \<Rightarrow> bool" where
  "boots_user_image e s \<longleftrightarrow>
     a_resetreas s AND ae_sreq e \<noteq> 0 \<and> a_boot_intent s = SWRMT_BOOT_INTENT_USER_IMAGE"

definition boot_select :: "app_env \<Rightarrow> appcore \<Rightarrow> appcore outcome" where
  "boot_select e s =
     (let s1 = s\<lparr>a_resetreas := a_resetreas s AND NOT (a_resetreas s), a_boot_intent := 0\<rparr>
      in if boots_user_image e s then boot_user_image e s1 else Continue (boot_bootloader s1))"

definition app_main_init :: "app_env \<Rightarrow> app_input \<Rightarrow> appcore \<Rightarrow> appcore outcome" where
  "app_main_init e i s =
     and_then (boot_prepare e s) (\<lambda>s1. and_then (boot_network e i s1) (boot_select e))"

section \<open>The stages of the main loop\<close>

definition app_stage_calibration :: "app_env \<Rightarrow> appcore \<Rightarrow> appcore outcome" where
  "app_stage_calibration e s =
     (if a_lh2_calibration_ready s
      then init_localization e (s\<lparr>a_lh2_calibration_ready := False\<rparr>)
      else Continue s)"

definition app_stage_capture :: "app_env \<Rightarrow> appcore \<Rightarrow> appcore outcome" where
  "app_stage_capture e s =
     (if a_lh2_capture_request s
      then Continue (s\<lparr>a_lh2_capture_request := False,
                       a_loc := localization_start (ae_lh2 e) (a_loc s),
                       a_lh2_capturing := True\<rparr>)
      else Continue s)"

definition pages_of :: "u32 \<Rightarrow> u32" where
  "pages_of image_size =
     image_size div APP_FLASH_PAGE_SIZE +
     (if image_size mod APP_FLASH_PAGE_SIZE \<noteq> 0 then 1 else 0)"

definition erase_image :: "flash_hw \<Rightarrow> u32 \<Rightarrow> flash \<Rightarrow> flash" where
  "erase_image hw image_size f =
     fold (\<lambda>page f. app_nvmc_page_erase hw (of_nat page + 16) f)
       [0..<unat (pages_of image_size)] f"

text \<open>Write a message at the start of the notification buffer and have it sent.\<close>

definition app_notify :: "app_env \<Rightarrow> app_input \<Rightarrow> bytes \<Rightarrow> appcore \<Rightarrow> appcore outcome" where
  "app_notify e i m s =
     (let s1 = s\<lparr>a_notification_buffer := blit 0 m (a_notification_buffer s)\<rparr>
      in mari_node_tx e (ai_time i) (take (length m) (a_notification_buffer s1)) s1)"

definition app_stage_ota_start :: "app_env \<Rightarrow> app_input \<Rightarrow> appcore \<Rightarrow> appcore outcome" where
  "app_stage_ota_start e i s =
     (if a_ota_start_request s
      then let s1 = s\<lparr>a_ota_start_request := False\<rparr>;
               s2 = (if a_ota_require_erase s1
                     then s1\<lparr>a_flash := erase_image (ae_flash_hw e)
                                (ota_image_size (ota (a_shared s1))) (a_flash s1),
                             a_ota_require_erase := False\<rparr>
                     else s1)
           in app_notify e i [msg_code SWRMT_MSG_OTA_START_ACK] s2
      else Continue s)"

definition chunk_addr :: "u32 \<Rightarrow> u32 \<Rightarrow> u32" where
  "chunk_addr base_addr index = base_addr + index * SWRMT_OTA_CHUNK_SIZE"

text \<open>The write reads \<open>chunk_size\<close> bytes from \<open>ota.chunk\<close> on (\<open>ota_tail\<close>).\<close>

definition write_chunk :: "app_env \<Rightarrow> appcore \<Rightarrow> appcore" where
  "write_chunk e s =
     (if ota_last_chunk_acked (ota (a_shared s)) \<noteq> ota_chunk_index (ota (a_shared s))
      then s\<lparr>a_flash := app_nvmc_write (ae_flash_hw e)
                (chunk_addr (a_base_addr s) (ota_chunk_index (ota (a_shared s))))
                (ota_tail (a_shared s)) (unat (ota_chunk_size (ota (a_shared s)))) (a_flash s),
             a_ota_require_erase := True\<rparr>
      else s)"

definition app_stage_ota_chunk :: "app_env \<Rightarrow> app_input \<Rightarrow> appcore \<Rightarrow> appcore outcome" where
  "app_stage_ota_chunk e i s =
     (if a_ota_chunk_request s
      then let s1 = write_chunk e (s\<lparr>a_ota_chunk_request := False\<rparr>);
               index = ota_chunk_index (ota (a_shared s1));
               s2 = app_shared (\<lambda>sh. sh\<lparr>ota := (ota sh)\<lparr>ota_last_chunk_acked := index\<rparr>\<rparr>) s1
           in and_then (app_notify e i (msg_code SWRMT_MSG_OTA_CHUNK_ACK # le32 index) s2)
                (\<lambda>s3. if ota_chunk_index (ota (a_shared s3)) = ota_chunk_count (ota (a_shared s3)) - 1
                      then Continue (app_shared (\<lambda>sh. sh\<lparr>sh_status := SWRMT_APPLICATION_READY\<rparr>) s3)
                      else Continue s3)
      else Continue s)"

definition system_reset :: "u32 \<Rightarrow> appcore \<Rightarrow> appcore outcome" where
  "system_reset intent s = Stuck (app_emit AE_SystemReset (s\<lparr>a_boot_intent := intent\<rparr>))"

definition app_stage_start :: "appcore \<Rightarrow> appcore outcome" where
  "app_stage_start s =
     (if a_start_application s then system_reset SWRMT_BOOT_INTENT_USER_IMAGE s else Continue s)"

definition app_stage_reset :: "appcore \<Rightarrow> appcore outcome" where
  "app_stage_reset s =
     (if a_system_reset_requested s then system_reset SWRMT_BOOT_INTENT_BOOTLOADER s
      else Continue s)"

text \<open>The LED of the battery's state toggles, the others are off.\<close>

definition battery_led :: "u16 \<Rightarrow> led" where
  "battery_led level =
     (if BATTERY_VOLTAGE_FULL < level then BlueLed
      else if BATTERY_VOLTAGE_WARNING < level then GreenLed
      else RedLed)"

definition app_stage_battery :: "app_env \<Rightarrow> app_input \<Rightarrow> appcore \<Rightarrow> appcore outcome" where
  "app_stage_battery e i s =
     (if a_battery_update s
      then let level = battery_level_read (ae_lh2 e) (ai_saadc i);
               s1 = app_shared (\<lambda>sh. sh\<lparr>battery_level := level\<rparr>) (s\<lparr>a_battery_update := False\<rparr>)
           in Continue (s1\<lparr>a_leds := (\<lambda>l. l = battery_led level \<and> \<not> a_leds s1 l)\<rparr>)
      else Continue s)"

definition max_samples :: nat where
  "max_samples = (127 - 1) div 9"

definition sample_bytes :: "raw_sample \<Rightarrow> bytes" where
  "sample_bytes r = rs_lh_index r # le32 (rs_count1 r) @ le32 (rs_count2 r)"

definition raw_log :: "raw_sample list \<Rightarrow> bytes" where
  "raw_log rs = SWRMT_LH2_CALIB_TAG # concat (map sample_bytes rs)"

definition capture_samples :: "app_env \<Rightarrow> appcore \<Rightarrow> appcore" where
  "capture_samples e s =
     (let (rs, l) = localization_get_raw_counts (ae_lh2 e)
                      (min max_samples LH2_BASESTATION_COUNT_MAX) (a_loc s);
          s1 = s\<lparr>a_loc := l\<rparr>
      in if rs = [] then s1
         else (app_emit (AE_IpcSend IPC_CHAN_LOG_EVENT)
                (app_shared (\<lambda>sh. sh\<lparr>sh_log :=
                   \<lparr>log_length = of_nat (length (raw_log rs)),
                    log_data = blit 0 (raw_log rs) (log_data (sh_log sh))\<rparr>\<rparr>) s1))
              \<lparr>a_lh2_capturing := False\<rparr>)"

definition publish_position :: "app_env \<Rightarrow> appcore \<Rightarrow> appcore outcome" where
  "publish_position e s =
     (case localization_get_position (ae_lh2 e) (a_loc s) of
        None \<Rightarrow> Undefined
      | Some (None, l) \<Rightarrow> Continue (s\<lparr>a_loc := l, a_position_update := False\<rparr>)
      | Some (Some p, l) \<Rightarrow>
          Continue (app_shared (\<lambda>sh. sh\<lparr>current_position := p\<rparr>)
            (s\<lparr>a_loc := l, a_position_update := False\<rparr>)))"

definition app_stage_localization :: "app_env \<Rightarrow> app_input \<Rightarrow> appcore \<Rightarrow> appcore outcome" where
  "app_stage_localization e i s =
     (let (data_available, l) = localization_process_data (ae_lh2 e) (ai_lh2 i) (a_loc s);
          s1 = s\<lparr>a_loc := l\<rparr>;
          s2 = (if a_lh2_capturing s1 \<and> data_available then capture_samples e s1 else s1)
      in if a_position_update s2 \<and> data_available then publish_position e s2 else Continue s2)"

definition app_stages :: "app_env \<Rightarrow> app_input \<Rightarrow> (appcore \<Rightarrow> appcore outcome) list" where
  "app_stages e i =
     [app_stage_calibration e, app_stage_capture e, app_stage_ota_start e i,
      app_stage_ota_chunk e i, app_stage_start, app_stage_reset, app_stage_battery e i,
      app_stage_localization e i]"

section \<open>Interrupts\<close>

text \<open>What happens between the stages; \<open>AppShared\<close> is the shared RAM as the network core has left
  it, well formed. An IPC event arriving in its register; the stop channel starts watchdog 1 in hardware.\<close>

definition app_ipc_receive :: "ipc_channels_t \<Rightarrow> appcore \<Rightarrow> appcore" where
  "app_ipc_receive ch s =
     (let s1 = s\<lparr>a_events := (a_events s)(ch := True)\<rparr>
      in if ch = IPC_CHAN_APPLICATION_STOP \<and> a_stop_starts_wdt1 s1
         then s1\<lparr>a_wdt1 := (a_wdt1 s1)\<lparr>wd_started := True\<rparr>\<rparr> else s1)"

definition take_event :: "ipc_channels_t \<Rightarrow> (appcore \<Rightarrow> appcore) \<Rightarrow> appcore \<Rightarrow> appcore" where
  "take_event ch set_flag s =
     (if a_events s ch then set_flag (s\<lparr>a_events := (a_events s)(ch := False)\<rparr>) else s)"

definition app_ipc_irq_handler :: "appcore \<Rightarrow> appcore" where
  "app_ipc_irq_handler s =
     take_event IPC_CHAN_LH2_CAPTURE (\<lambda>s. s\<lparr>a_lh2_capture_request := True\<rparr>)
     (take_event IPC_CHAN_CALIBRATION_DATA (\<lambda>s. s\<lparr>a_lh2_calibration_ready := True\<rparr>)
     (take_event IPC_CHAN_SOC_RESET (\<lambda>s. s\<lparr>a_system_reset_requested := True\<rparr>)
     (take_event IPC_CHAN_APPLICATION_START (\<lambda>s. s\<lparr>a_start_application := True\<rparr>)
     (take_event IPC_CHAN_OTA_CHUNK (\<lambda>s. s\<lparr>a_ota_chunk_request := True\<rparr>)
     (take_event IPC_CHAN_OTA_START (\<lambda>s. s\<lparr>a_ota_start_request := True\<rparr>) s)))))"

datatype app_interrupt =
    AppUpdatePosition
  | AppReadBattery
  | AppIpcReceive ipc_channels_t
  | AppIpcIrq
  | AppShared ipc_shared

fun app_irq :: "app_interrupt \<Rightarrow> appcore \<Rightarrow> appcore" where
  "app_irq AppUpdatePosition s = s\<lparr>a_position_update := True\<rparr>"
| "app_irq AppReadBattery s = s\<lparr>a_battery_update := True\<rparr>"
| "app_irq (AppIpcReceive ch) s = app_ipc_receive ch s"
| "app_irq AppIpcIrq s = app_ipc_irq_handler s"
| "app_irq (AppShared sh) s = (if app_shared_ok sh then s\<lparr>a_shared := sh\<rparr> else s)"

end
