(* ===== verification/Bootloader_Facts.thy ===== *)
theory Bootloader_Facts
  imports Bootloader
begin

text \<open>
  The bootloader keeps its invariant in every stage and handler (the \<open>main_loop\<close> contract), and
  what its firmware update does to the flash.
\<close>

section \<open>Localization keeps its state defined\<close>

definition coords_ok :: "localization \<Rightarrow> bool" where
  "coords_ok l \<longleftrightarrow> fst (loc_coordinates l) \<noteq> NaN \<and> snd (loc_coordinates l) \<noteq> NaN"

lemma app_inv_coords: "app_inv s \<longleftrightarrow>
    app_shared_ok (a_shared s) \<and> length (a_notification_buffer s) = 255 \<and> coords_ok (a_loc s)"
  by (simp add: app_inv_def coords_ok_def)

lemma coords_start [simp]: "loc_coordinates (localization_start le l) = loc_coordinates l"
  by (simp add: localization_start_def)

lemma coords_fold_store [simp]:
  "loc_coordinates (fold (\<lambda>i l. l\<lparr>loc_homographies := (loc_homographies l)(g i \<mapsto> h i)\<rparr>) is l)
   = loc_coordinates l"
  by (induction "is" arbitrary: l) simp_all

lemma coords_init:
  "localization_init le ms n l = Some l' \<Longrightarrow> loc_coordinates l' = loc_coordinates l"
  by (auto simp: localization_init_def Let_def split: if_splits)

lemma coords_ok_locate:
  "app_env_ok e \<Longrightarrow> coords_ok l \<Longrightarrow> coords_ok (locate (ae_lh2 e) l)"
  by (cases "loc_coordinates l")
     (simp add: locate_def coords_ok_def app_env_ok_def split: list.split)

lemma valid_coordinate_defined:
  "\<not> coordinate_invalid c \<Longrightarrow> c \<noteq> NaN \<Longrightarrow> \<exists>x. cd_to_u32 c = Some x"
  by (cases c) (auto simp: coordinate_invalid_def)

lemma get_position_defined:
  assumes "app_env_ok e" and "coords_ok l"
  obtains p l' where "localization_get_position (ae_lh2 e) l = Some (p, l')" "coords_ok l'"
proof -
  define l1 where "l1 = (locate (ae_lh2 e) (l\<lparr>lh2_running := False\<rparr>))\<lparr>lh2_running := True\<rparr>"
  have "coords_ok (l\<lparr>lh2_running := False\<rparr>)" using assms(2) by (simp add: coords_ok_def)
  then have ok: "coords_ok l1"
    using coords_ok_locate [OF assms(1)] by (simp add: l1_def coords_ok_def)
  obtain cx cy where c: "loc_coordinates l1 = (cx, cy)" by (cases "loc_coordinates l1")
  have gp: "localization_get_position (ae_lh2 e) l =
    (if \<not> calibration_loaded l then Some (None, l)
     else if coordinate_invalid cx \<or> coordinate_invalid cy then Some (None, l1)
     else Option.bind (cd_to_u32 cx) (\<lambda>x. Option.bind (cd_to_u32 cy) (\<lambda>y.
       let p = \<lparr>pos_x = x, pos_y = y\<rparr>; l2 = l1\<lparr>loc_position := p\<rparr>;
           l3 = (if pos_x (loc_previous l2) = 0 \<and> pos_y (loc_previous l2) = 0
                 then l2\<lparr>loc_previous := p\<rparr> else l2)
       in if VALID_POSITION_DISTANCE_THRESHOLD_MM < lh2_distance (ae_lh2 e) (loc_previous l3) p
          then Some (None, l3) else Some (Some p, l3\<lparr>loc_previous := p\<rparr>))))"
    using c by (simp add: localization_get_position_def l1_def [symmetric] Let_def)
  show ?thesis
  proof (cases "calibration_loaded l \<and> \<not> coordinate_invalid cx \<and> \<not> coordinate_invalid cy")
    case True
    then obtain x y where xy: "cd_to_u32 cx = Some x" "cd_to_u32 cy = Some y"
      using ok c valid_coordinate_defined [of cx] valid_coordinate_defined [of cy]
      by (auto simp: coords_ok_def)
    then show ?thesis
      using gp True ok that by (auto simp: Let_def coords_ok_def split: if_splits)
  next
    case False
    then show ?thesis using gp ok assms(2) that by (auto split: if_splits)
  qed
qed

section \<open>Every stage keeps the invariant\<close>

lemma app_inv_init_localization:
  "app_inv s \<Longrightarrow> outcome_ok app_inv (init_localization e s)"
proof -
  assume inv: "app_inv s"
  then have "unat (cal_count (lh2_calibration (a_shared s))) \<le> LH2_BASESTATION_COUNT_MAX"
    by (simp add: app_inv_def app_shared_ok_def)
  then obtain l where "localization_init (ae_lh2 e) (cal_homographies (lh2_calibration (a_shared s)))
      (cal_count (lh2_calibration (a_shared s))) (a_loc s) = Some l"
    by (simp add: localization_init_def Let_def)
  then show ?thesis
    using inv coords_init by (fastforce simp: init_localization_def app_inv_def)
qed

lemma app_inv_notify:
  assumes "app_env_ok e" and "app_inv s" and "length m \<le> 255"
  shows "outcome_ok app_inv (app_notify e i m s)"
  unfolding app_notify_def Let_def
  by (rule app_inv_mari_node_tx) (use assms in \<open>simp_all add: app_inv_def\<close>)

lemma app_inv_flags [simp]:
  "app_inv (s\<lparr>a_lh2_calibration_ready := b\<rparr>) = app_inv s"
  "app_inv (s\<lparr>a_lh2_capture_request := b\<rparr>) = app_inv s"
  "app_inv (s\<lparr>a_lh2_capturing := b\<rparr>) = app_inv s"
  "app_inv (s\<lparr>a_ota_start_request := b\<rparr>) = app_inv s"
  "app_inv (s\<lparr>a_ota_chunk_request := b\<rparr>) = app_inv s"
  "app_inv (s\<lparr>a_ota_require_erase := b\<rparr>) = app_inv s"
  "app_inv (s\<lparr>a_start_application := b\<rparr>) = app_inv s"
  "app_inv (s\<lparr>a_system_reset_requested := b\<rparr>) = app_inv s"
  "app_inv (s\<lparr>a_position_update := b\<rparr>) = app_inv s"
  "app_inv (s\<lparr>a_battery_update := b\<rparr>) = app_inv s"
  "app_inv (s\<lparr>a_boot_intent := w\<rparr>) = app_inv s"
  "app_inv (s\<lparr>a_flash := f\<rparr>) = app_inv s"
  "app_inv (s\<lparr>a_leds := le\<rparr>) = app_inv s"
  "app_inv (s\<lparr>a_events := ev\<rparr>) = app_inv s"
  "app_inv (s\<lparr>a_wdt1 := wd\<rparr>) = app_inv s"
  by (simp_all add: app_inv_def)

lemma app_inv_stage_ota_start:
  "app_env_ok e \<Longrightarrow> app_inv s \<Longrightarrow> outcome_ok app_inv (app_stage_ota_start e i s)"
  by (auto simp: app_stage_ota_start_def Let_def intro!: app_inv_notify)

lemma app_inv_write_chunk: "app_inv s \<Longrightarrow> app_inv (write_chunk e s)"
  by (simp add: write_chunk_def)

lemma app_shared_ok_acked [simp]:
  "app_shared_ok (sh\<lparr>ota := (ota sh)\<lparr>ota_last_chunk_acked := w\<rparr>\<rparr>) = app_shared_ok sh"
  by (simp add: app_shared_ok_def shared_ok_def)

lemma app_inv_stage_ota_chunk:
  assumes "app_env_ok e" and "app_inv s"
  shows "outcome_ok app_inv (app_stage_ota_chunk e i s)"
proof (cases "a_ota_chunk_request s")
  case True
  define s1 where "s1 = write_chunk e (s\<lparr>a_ota_chunk_request := False\<rparr>)"
  define index where "index = ota_chunk_index (ota (a_shared s1))"
  define s2 where
    "s2 = app_shared (\<lambda>sh. sh\<lparr>ota := (ota sh)\<lparr>ota_last_chunk_acked := index\<rparr>\<rparr>) s1"
  have "app_inv s1" using assms(2) by (simp add: s1_def app_inv_write_chunk)
  then have "app_inv s2"
    unfolding s2_def by (intro app_inv_app_shared) (simp_all add: app_inv_shared)
  then have ok: "outcome_ok app_inv
      (app_notify e i (msg_code SWRMT_MSG_OTA_CHUNK_ACK # le32 index) s2)" (is "outcome_ok _ ?r")
    using assms(1) by (intro app_inv_notify) simp_all
  have "app_stage_ota_chunk e i s = and_then ?r
      (\<lambda>s3. if ota_chunk_index (ota (a_shared s3)) = ota_chunk_count (ota (a_shared s3)) - 1
            then Continue (app_shared (\<lambda>sh. sh\<lparr>sh_status := SWRMT_APPLICATION_READY\<rparr>) s3)
            else Continue s3)"
    using True
    by (simp add: app_stage_ota_chunk_def Let_def s1_def [symmetric] index_def [symmetric]
          s2_def [symmetric])
  then show ?thesis
    using ok by (cases ?r) (simp_all add: app_inv_def app_shared_def)
qed (use assms in \<open>simp add: app_stage_ota_chunk_def\<close>)

lemma length_raw_log: "length (raw_log rs) = 1 + 9 * length rs"
  by (induction rs) (simp_all add: raw_log_def sample_bytes_def)

lemma raw_counts_length:
  "fst (localization_get_raw_counts le mx l) = rs \<Longrightarrow> length rs \<le> mx"
  using raw_loop_result [of "[0..<le_stations le]" "[]" mx "loc_lh2 l"]
  by (auto simp: localization_get_raw_counts_def)

lemma coords_raw_counts [simp]:
  "loc_coordinates (snd (localization_get_raw_counts le mx l)) = loc_coordinates l"
  by (simp add: localization_get_raw_counts_def split: prod.split)

text \<open>A capture message fits the log: at most 14 samples of 9 bytes and the tag.\<close>

lemma app_inv_capture: "app_inv s \<Longrightarrow> app_inv (capture_samples e s)"
proof -
  assume inv: "app_inv s"
  let ?r = "localization_get_raw_counts (ae_lh2 e) (min max_samples LH2_BASESTATION_COUNT_MAX)
              (a_loc s)"
  obtain rs l where r: "?r = (rs, l)" by (cases ?r)
  have n: "length rs \<le> 14"
    using raw_counts_length [of "ae_lh2 e" _ "a_loc s" rs] r
    by (fastforce simp: max_samples_def LH2_BASESTATION_COUNT_MAX_def)
  have l: "loc_coordinates l = loc_coordinates (a_loc s)"
    using coords_raw_counts [of "ae_lh2 e" "min max_samples LH2_BASESTATION_COUNT_MAX" "a_loc s"] r
    by simp
  have len: "length (raw_log rs) \<le> 127" using n by (simp add: length_raw_log)
  then have "unat (of_nat (length (raw_log rs)) :: u8) = length (raw_log rs)"
    by (simp only: unat_of_nat) simp
  then show ?thesis
    using inv l len
    by (simp add: capture_samples_def r Let_def app_inv_def app_upd_defs app_shared_ok_def
          shared_ok_def)
qed

lemma app_inv_publish:
  assumes "app_env_ok e" and "app_inv s"
  shows "outcome_ok app_inv (publish_position e s)"
proof -
  have "coords_ok (a_loc s)" using assms(2) by (simp add: app_inv_coords)
  then obtain p l where "localization_get_position (ae_lh2 e) (a_loc s) = Some (p, l)" "coords_ok l"
    using get_position_defined [OF assms(1)] by blast
  then show ?thesis
    using assms(2)
    by (cases p) (simp_all add: publish_position_def app_inv_coords app_shared_def)
qed

lemma app_inv_stage_localization:
  assumes "app_env_ok e" and "app_inv s"
  shows "outcome_ok app_inv (app_stage_localization e i s)"
proof -
  obtain d l where pd: "localization_process_data (ae_lh2 e) (ai_lh2 i) (a_loc s) = (d, l)"
    and l: "loc_coordinates l = loc_coordinates (a_loc s)"
    by (simp add: localization_process_data_def Let_def)
  have s1: "app_inv (s\<lparr>a_loc := l\<rparr>)" using assms(2) l by (simp add: app_inv_def)
  then have "app_inv (if a_lh2_capturing s \<and> d then capture_samples e (s\<lparr>a_loc := l\<rparr>)
                      else s\<lparr>a_loc := l\<rparr>)"
    by (simp add: app_inv_capture)
  then show ?thesis
    using app_inv_publish [OF assms(1)]
    by (auto simp: app_stage_localization_def pd Let_def split: if_splits)
qed

lemma app_inv_stages:
  assumes "app_env_ok e" and "f \<in> set (app_stages e i)" and inv: "app_inv s"
  shows "outcome_ok app_inv (f s)"
proof -
  have "outcome_ok app_inv (app_stage_calibration e s)"
    using inv by (simp add: app_stage_calibration_def app_inv_init_localization)
  moreover have "outcome_ok app_inv (app_stage_capture e s)"
    using inv by (simp add: app_stage_capture_def app_inv_def)
  moreover have "outcome_ok app_inv (app_stage_start s)" "outcome_ok app_inv (app_stage_reset s)"
    using inv by (simp_all add: app_stage_start_def app_stage_reset_def system_reset_def)
  moreover have "outcome_ok app_inv (app_stage_battery e i s)"
    using inv by (simp add: app_stage_battery_def Let_def app_inv_def app_shared_def)
  ultimately show ?thesis
    using assms app_inv_stage_ota_start app_inv_stage_ota_chunk app_inv_stage_localization
    by (auto simp: app_stages_def)
qed

lemma app_inv_irq: "app_inv s \<Longrightarrow> app_inv (app_irq ev s)"
  by (cases ev)
     (auto simp: app_ipc_receive_def app_ipc_irq_handler_def take_event_def Let_def,
      simp add: app_inv_def)

interpretation app_loop: main_loop "app_env_ok e" "app_stages e" app_irq app_inv
  for e
  by unfold_locales (auto intro: app_inv_stages app_inv_irq)

end
