(* ===== verification/Ota_Flash.thy ===== *)
theory Ota_Flash
  imports Bootloader_Facts
begin

text \<open>
  What the firmware update does to the flash of the application core: the erase loop, and the
  writing of chunks against the abstract view \<open>image_cells\<close> of an image some of whose chunks are
  in place. \<open>host_chunks\<close> is the split the testbed controller makes
  (\<open>swarmit/testbed/controller.py\<close>).
\<close>

section \<open>Erasing\<close>

definition page_of :: "u32 \<Rightarrow> u32" where
  "page_of a = a div APP_FLASH_PAGE_SIZE"

text \<open>The flash page erased by round \<open>j\<close> of the loop; the multiplication wraps.\<close>

definition erased_page :: "nat \<Rightarrow> u32" where
  "erased_page j = page_of ((of_nat j + 16) * APP_FLASH_PAGE_SIZE)"

lemma cells_erase_image:
  assumes "nor_flash APP_FLASH_PAGE_SIZE hw"
  shows "cells (erase_image hw size_img f) b =
    (if \<exists>j < unat (pages_of size_img). page_of b = erased_page j then 0xFFFFFFFF else cells f b)"
proof -
  have "cells (fold (\<lambda>page f. app_nvmc_page_erase hw (of_nat page + 16) f) [0..<n] f) b =
    (if \<exists>j < n. page_of b = erased_page j then 0xFFFFFFFF else cells f b)" for n
  proof (induction n)
    case (Suc n)
    then show ?case
      by (auto simp: app_flash.erase_cells [OF assms] page_of_def erased_page_def less_Suc_eq)
  qed simp
  then show ?thesis by (simp add: erase_image_def)
qed

lemma div_round_up: "(n + 4095) div 4096 = n div 4096 + (if n mod 4096 = 0 then 0 else 1)"
  for n :: nat
proof -
  define q r where "q = n div 4096" and "r = n mod 4096"
  have n: "n = r + 4096 * q" and r: "r < 4096" by (simp_all add: q_def r_def)
  have "(n + 4095) div 4096 = ((r + 4095) + 4096 * q) div 4096" by (simp add: n)
  also have "\<dots> = (r + 4095) div 4096 + q" by simp
  also have "(r + 4095) div 4096 = (if r = 0 then 0 else 1)"
  proof (cases "r = 0")
    case False
    then have "(r + 4095) div 4096 = 1" using r by (intro div_nat_eqI) simp_all
    then show ?thesis using False by simp
  qed simp
  finally show ?thesis by (simp add: q_def r_def)
qed

lemma unat_pages_of: "unat (pages_of w) = (unat w + 4095) div 4096"
proof -
  have div: "unat (w div APP_FLASH_PAGE_SIZE) = unat w div 4096"
    "unat (w mod APP_FLASH_PAGE_SIZE) = unat w mod 4096"
    by (simp_all add: unat_div unat_mod APP_FLASH_PAGE_SIZE_def)
  have lt: "unat w < 2 ^ 32" using unsigned_less [of w] by simp
  have z: "w mod APP_FLASH_PAGE_SIZE = 0 \<longleftrightarrow> unat w mod 4096 = 0"
    using div(2) by (metis unat_eq_zero)
  have "unat w div 4096 < 2 ^ 20" using lt by simp
  then have "unat (w div APP_FLASH_PAGE_SIZE + 1) = unat w div 4096 + 1"
    using div(1) by (simp add: unat_word_ariths)
  then show ?thesis using div(1) z by (simp add: pages_of_def div_round_up)
qed

lemma erased_page_small:
  assumes "j + 16 < 2 ^ 20"
  shows "unat (erased_page j) = j + 16"
proof -
  have "unat (of_nat ((j + 16) * 4096) :: u32) = (j + 16) * 4096"
    using assms by (simp only: unat_of_nat) simp
  moreover have "of_nat ((j + 16) * 4096) = ((of_nat j + 16) * APP_FLASH_PAGE_SIZE :: u32)"
    by (simp add: APP_FLASH_PAGE_SIZE_def)
  ultimately have "unat ((of_nat j + 16) * APP_FLASH_PAGE_SIZE :: u32) = (j + 16) * 4096" by simp
  then show ?thesis by (simp add: erased_page_def page_of_def unat_div APP_FLASH_PAGE_SIZE_def)
qed

lemma unat_page_of: "unat (page_of b) = unat b div 4096"
  by (simp add: page_of_def unat_div APP_FLASH_PAGE_SIZE_def)

lemma ex_offset: "(\<exists>j < n. d = j + k) \<longleftrightarrow> k \<le> d \<and> d < k + n" for n d k :: nat
  by (auto intro!: exI [of _ "d - k"])

text \<open>As long as the image fits above the base address, the loop erases the pages it covers and
  nothing else.\<close>

lemma erase_image_range:
  assumes hw: "nor_flash APP_FLASH_PAGE_SIZE hw" and fits: "unat size_img \<le> 2 ^ 32 - 0x10000"
  shows "cells (erase_image hw size_img f) b =
    (if 0x10000 \<le> unat b \<and> unat b div 4096 < 16 + (unat size_img + 4095) div 4096
     then 0xFFFFFFFF else cells f b)"
proof -
  let ?n = "(unat size_img + 4095) div 4096"
  have n: "?n + 16 \<le> 2 ^ 20" using fits by simp
  have "(\<exists>j < ?n. page_of b = erased_page j) \<longleftrightarrow> (\<exists>j < ?n. unat b div 4096 = j + 16)"
  proof -
    have "page_of b = erased_page j \<longleftrightarrow> unat b div 4096 = j + 16" if "j < ?n" for j
      using erased_page_small [of j] that n
      by (simp add: word_unat_eq_iff unat_page_of)
    then show ?thesis by auto
  qed
  also have "\<dots> \<longleftrightarrow> 16 \<le> unat b div 4096 \<and> unat b div 4096 < 16 + ?n"
    by (rule ex_offset)
  also have "16 \<le> unat b div 4096 \<longleftrightarrow> 0x10000 \<le> unat b"
    by (simp add: less_eq_div_iff_mult_less_eq)
  finally show ?thesis by (simp add: cells_erase_image [OF hw] unat_pages_of)
qed

text \<open>A larger image size makes the page number wrap round to the bootloader's pages.\<close>

lemma erase_image_wraps:
  assumes hw: "nor_flash APP_FLASH_PAGE_SIZE hw" and big: "2 ^ 32 - 0x10000 < unat size_img"
  shows "cells (erase_image hw size_img f) 0 = 0xFFFFFFFF"
proof -
  have "unat size_img < 2 ^ 32" using unsigned_less [of size_img] by simp
  then have n: "1048560 < (unat size_img + 4095) div 4096" using big by simp
  have "erased_page 1048560 = page_of 0"
    by (simp add: erased_page_def APP_FLASH_PAGE_SIZE_def page_of_def)
  then have "\<exists>j < unat (pages_of size_img). page_of 0 = erased_page j"
    using n by (auto simp: unat_pages_of intro!: exI [of _ 1048560])
  then show ?thesis by (simp add: cells_erase_image [OF hw])
qed

section \<open>The image in chunks\<close>

definition CHUNK_SIZE :: nat where
  "CHUNK_SIZE = 128"

definition chunk_count :: "bytes \<Rightarrow> nat" where
  "chunk_count fw = length fw div CHUNK_SIZE + (if length fw mod CHUNK_SIZE \<noteq> 0 then 1 else 0)"

definition host_chunk :: "bytes \<Rightarrow> nat \<Rightarrow> bytes" where
  "host_chunk fw k =
     (let chunk_size = (if k = chunk_count fw - 1
                        then (if length fw mod CHUNK_SIZE \<noteq> 0 then length fw mod CHUNK_SIZE
                              else CHUNK_SIZE)
                        else CHUNK_SIZE)
      in sub_bytes (k * CHUNK_SIZE) chunk_size fw)"

definition host_chunks :: "bytes \<Rightarrow> bytes list" where
  "host_chunks fw = map (host_chunk fw) [0..<chunk_count fw]"

lemma host_chunk_eq:
  "k < chunk_count fw \<Longrightarrow> host_chunk fw k = sub_bytes (128 * k) (min 128 (length fw - 128 * k)) fw"
proof -
  assume k: "k < chunk_count fw"
  define q r where "q = length fw div 128" and "r = length fw mod 128"
  have len: "length fw = 128 * q + r" "r < 128" by (simp_all add: q_def r_def)
  have cc: "chunk_count fw = q + (if r \<noteq> 0 then 1 else 0)"
    by (simp add: chunk_count_def CHUNK_SIZE_def q_def r_def)
  have eq: "(if k = chunk_count fw - 1 then (if length fw mod 128 \<noteq> 0 then length fw mod 128 else 128)
      else 128) = min 128 (length fw - 128 * k)"
    using k cc len(2) unfolding r_def [symmetric] len(1) by (auto simp: min_def)
  show ?thesis
    unfolding host_chunk_def Let_def CHUNK_SIZE_def eq by (simp add: mult.commute)
qed

lemma chunk_below: "k < chunk_count fw \<Longrightarrow> 128 * k < length fw"
proof -
  assume k: "k < chunk_count fw"
  define q r where "q = length fw div 128" and "r = length fw mod 128"
  have len: "length fw = 128 * q + r" by (simp add: q_def r_def)
  have "chunk_count fw = q + (if r \<noteq> 0 then 1 else 0)"
    by (simp add: chunk_count_def CHUNK_SIZE_def q_def r_def)
  then show ?thesis using k unfolding len by (cases "r = 0") auto
qed

lemma length_host_chunk:
  "k < chunk_count fw \<Longrightarrow> length (host_chunk fw k) = min 128 (length fw - 128 * k)"
  by (simp add: host_chunk_eq)

text \<open>The flash with the chunks of \<open>W\<close> in place: whole words only.\<close>

definition in_chunks :: "bytes \<Rightarrow> nat set \<Rightarrow> nat \<Rightarrow> bool" where
  "in_chunks fw W j \<longleftrightarrow> j mod 4 = 0 \<and> j div 4 < length fw div 4 \<and> j div 128 \<in> W"

definition image_cells :: "bytes \<Rightarrow> nat set \<Rightarrow> (u32 \<Rightarrow> u32) \<Rightarrow> u32 \<Rightarrow> u32" where
  "image_cells fw W c b =
     (let j = unat (b - SWARMIT_BASE_ADDRESS)
      in if in_chunks fw W j then get32 j fw else c b)"

lemma get32_take: "off + 4 \<le> n \<Longrightarrow> get32 off (take n xs) = get32 off xs"
  by (simp add: get32_def)

lemma get32_sub: "j + 4 \<le> n \<Longrightarrow> a + n \<le> length xs \<Longrightarrow>
    get32 j (sub_bytes a n xs) = get32 (a + j) xs"
  by (simp add: get32_def sub_bytes_def algebra_simps)

lemma written_prefix:
  assumes "take n data = take n data'" and "4 * m \<le> n"
  shows "written addr data m c = written addr data' m c"
proof (rule ext)
  fix b
  show "written addr data m c b = written addr data' m c b"
  proof (cases "unat (b - addr) mod 4 = 0 \<and> unat (b - addr) div 4 < m")
    case True
    then have "unat (b - addr) + 4 \<le> n"
      using assms(2) mult_div_mod_eq [of 4 "unat (b - addr)"] by linarith
    then have "get32 (unat (b - addr)) data = get32 (unat (b - addr)) data'"
      using get32_take assms(1) by metis
    then show ?thesis by (simp add: written_def Let_def)
  qed (auto simp: written_def Let_def)
qed

lemma unat_sub_chunk:
  fixes b base :: u32
  assumes "128 * k < 2 ^ 32"
  shows "unat (b - (base + of_nat k * 128)) =
    (if 128 * k \<le> unat (b - base) then unat (b - base) - 128 * k
     else unat (b - base) + 2 ^ 32 - 128 * k)"
proof -
  define d where "d = b - base"
  have k: "unat (of_nat k * 128 :: u32) = 128 * k"
  proof -
    have "unat (of_nat (128 * k) :: u32) = 128 * k"
      using assms by (simp only: unat_of_nat) simp
    then show ?thesis by (simp add: mult.commute)
  qed
  have eq: "b - (base + of_nat k * 128) = d - of_nat k * 128" by (simp add: d_def)
  show ?thesis
    unfolding eq d_def [symmetric] unat_sub_if' k by simp
qed


lemma less_div4: "(q :: nat) < n div 4 \<longleftrightarrow> 4 * q + 4 \<le> n"
proof -
  have "q < n div 4 \<longleftrightarrow> Suc q * 4 \<le> n"
    using less_eq_div_iff_mult_less_eq [of 4 "Suc q" n] by (simp add: Suc_le_eq)
  then show ?thesis by (simp add: algebra_simps)
qed

text \<open>The cells a write of chunk \<open>k\<close> reaches are those of the chunk.\<close>

lemma chunk_window:
  fixes j k L :: nat
  assumes "128 * k < L" and "L \<le> 2 ^ 31"
    and j': "j' = (if 128 * k \<le> j then j - 128 * k else j + 2 ^ 32 - 128 * k)"
  shows "j' mod 4 = 0 \<and> j' div 4 < min 128 (L - 128 * k) div 4 \<longleftrightarrow>
         j mod 4 = 0 \<and> j div 4 < L div 4 \<and> j div 128 = k"
proof (cases "128 * k \<le> j")
  case True
  define m where "m = j - 128 * k"
  have jm: "j = m + 128 * k" and jm4: "j = m + 4 * (32 * k)" and "j' = m"
    using True by (simp_all add: m_def j')
  have mod4: "j mod 4 = m mod 4" by (simp only: jm4 mod_mult_self2)
  have div128: "j div 128 = k \<longleftrightarrow> m < 128"
  proof -
    have "j div 128 = m div 128 + k" by (simp add: jm)
    then show ?thesis by (simp add: div_eq_0_iff)
  qed
  have div4: "j div 4 = m div 4 + 32 * k" by (simp add: jm4)
  show ?thesis
  proof (cases "m mod 4 = 0")
    case True
    then have m4: "4 * (m div 4) = m" using mult_div_mod_eq [of 4 m] by simp
    show ?thesis
      using assms(1) m4 \<open>j' = m\<close> by (auto simp: mod4 div128 div4 less_div4 min_def algebra_simps)
  qed (simp add: mod4 \<open>j' = m\<close>)
next
  case False
  have "128 < j'" using False assms by simp
  then have "32 \<le> j' div 4" by (simp add: less_eq_div_iff_mult_less_eq)
  moreover have "min 128 (L - 128 * k) div 4 \<le> 32" by (simp add: div_le_mono [of _ 128 4, simplified])
  moreover have "j div 128 < k" using False by (simp add: div_less_iff_less_mult)
  ultimately show ?thesis by auto
qed

text \<open>A chunk written over what is there.\<close>

definition chunk_ands :: "bytes \<Rightarrow> nat \<Rightarrow> (u32 \<Rightarrow> u32) \<Rightarrow> u32 \<Rightarrow> u32" where
  "chunk_ands fw k c b =
     (let j = unat (b - SWARMIT_BASE_ADDRESS)
      in if j mod 4 = 0 \<and> j div 4 < length fw div 4 \<and> j div 128 = k then c b AND get32 j fw else c b)"

lemma write_chunk_ands:
  assumes hw: "nor_flash APP_FLASH_PAGE_SIZE hw" and k: "k < chunk_count fw"
    and L: "length fw \<le> 2 ^ 31"
    and data: "take (length (host_chunk fw k)) data = host_chunk fw k"
  shows "cells (app_nvmc_write hw (chunk_addr SWARMIT_BASE_ADDRESS (of_nat k)) data
           (length (host_chunk fw k)) f) = chunk_ands fw k (cells f)"
proof -
  let ?addr = "chunk_addr SWARMIT_BASE_ADDRESS (of_nat k)"
  define len where "len = min 128 (length fw - 128 * k)"
  have lhc: "length (host_chunk fw k) = len" using length_host_chunk [OF k] by (simp add: len_def)
  have k128: "128 * k < length fw" by (rule chunk_below [OF k])
  have written: "cells (app_nvmc_write hw ?addr data len f) = written ?addr data (len div 4) (cells f)"
    by (rule app_flash.write_cells [OF hw]) (simp add: len_def)
  have "written ?addr data (len div 4) (cells f) b = chunk_ands fw k (cells f) b" for b
  proof -
    define j j' where "j = unat (b - SWARMIT_BASE_ADDRESS)" and "j' = unat (b - ?addr)"
    have j': "j' = (if 128 * k \<le> j then j - 128 * k else j + 2 ^ 32 - 128 * k)"
      unfolding j'_def j_def chunk_addr_def SWRMT_OTA_CHUNK_SIZE_def
      using k128 L by (intro unat_sub_chunk) simp
    note win = chunk_window [OF k128 L j', folded len_def]
    show ?thesis
    proof (cases "j' mod 4 = 0 \<and> j' div 4 < len div 4")
      case False
      then have "\<not> (j mod 4 = 0 \<and> j div 4 < length fw div 4 \<and> j div 128 = k)"
        by (simp only: win not_False_eq_True)
      then show ?thesis
        using False
        by (auto simp: written_def chunk_ands_def Let_def j_def [symmetric] j'_def [symmetric])
    next
      case True
      then have w: "j mod 4 = 0" "j div 4 < length fw div 4" "j div 128 = k" using win by simp_all
      have "128 * k \<le> j" using w(3) by (metis mult.commute times_div_less_eq_dividend)
      then have jj: "j = 128 * k + j'" using j' by simp
      have "j' + 4 \<le> len"
        using True mult_div_mod_eq [of 4 j'] by (simp add: less_div4)
      then have "get32 j' data = get32 j' (host_chunk fw k)"
        using data lhc get32_take by metis
      also have "\<dots> = get32 j fw"
        using \<open>j' + 4 \<le> len\<close> get32_sub [of j' len "128 * k" fw] k128
        by (simp add: host_chunk_eq [OF k] len_def [symmetric] jj) (simp add: len_def)
      finally show ?thesis
        using True w
        by (simp add: written_def chunk_ands_def Let_def j_def [symmetric] j'_def [symmetric])
    qed
  qed
  then show ?thesis using written lhc by auto
qed

lemma chunk_ands_erased:
  assumes "\<And>b. unat (b - SWARMIT_BASE_ADDRESS) div 4 < length fw div 4 \<Longrightarrow> c b = 0xFFFFFFFF"
  shows "chunk_ands fw k (image_cells fw W c) = image_cells fw (insert k W) c"
proof (rule ext)
  fix b
  show "chunk_ands fw k (image_cells fw W c) b = image_cells fw (insert k W) c b"
    using assms [of b] by (auto simp: chunk_ands_def image_cells_def in_chunks_def Let_def)
qed

end
