(* ===== verification/Net_Service.thy ===== *)
theory Net_Service
  imports Ota_Flash
begin

text \<open>
  The request interface between the cores. The application core posts a request in the shared
  RAM and polls for the acknowledgement (\<open>ipc_network_call\<close>); the locale \<open>net_service\<close> is what it
  relies on, and its client lemmas are what a call then does. \<open>net_answers\<close> is the network core
  of \<open>Netcore\<close> serving the request from its interrupt handler and one iteration of its loop, and
  provides the contract when it is idle and connected.
\<close>

section \<open>The contract\<close>

locale net_service =
  fixes idle :: bool
    and answer :: "ipc_shared \<Rightarrow> nat \<Rightarrow> ipc_shared"
  assumes answered: "idle \<Longrightarrow> sh_req sh \<noteq> IPC_REQ_NONE \<Longrightarrow> \<exists>k. net_ack (answer sh k)"
    and touches_only: "idle \<Longrightarrow> \<exists>b v. answer sh k = sh\<lparr>net_ack := b, rng_value := v\<rparr>"
begin

lemma call_returns:
  assumes "idle" and net: "ae_net e t = answer" and "req \<noteq> IPC_REQ_NONE"
  shows "\<exists>v. ipc_network_call e t req s =
    Continue (s\<lparr>a_out := a_out s @ [AE_IpcSend IPC_CHAN_REQ],
                a_shared := (a_shared s)\<lparr>sh_req := req, net_ack := False, rng_value := v\<rparr>\<rparr>)"
proof -
  define s1 where
    "s1 = app_emit (AE_IpcSend IPC_CHAN_REQ) (app_shared (\<lambda>sh. sh\<lparr>sh_req := req\<rparr>) s)"
  have "sh_req (a_shared s1) = req" by (simp add: s1_def)
  then obtain n where "net_ack (answer (a_shared s1) n)"
    using answered [OF assms(1)] assms(3) by metis
  then obtain k where k: "spin_until (\<lambda>k. net_ack (answer (a_shared s1) k)) 0 = Some k"
    using spin_until_returns [of "\<lambda>k. net_ack (answer (a_shared s1) k)" n 0] by auto
  obtain b v where bv: "answer (a_shared s1) k = (a_shared s1)\<lparr>net_ack := b, rng_value := v\<rparr>"
    using touches_only [OF assms(1)] by blast
  have "ipc_network_call e t req s = and_then (wait_shared (answer (a_shared s1)) net_ack s1)
      (\<lambda>s2. Continue (app_shared (\<lambda>sh. sh\<lparr>net_ack := False\<rparr>) s2))"
    using assms(3) by (simp add: ipc_network_call_def Let_def s1_def net)
  also have "\<dots> = Continue (s1\<lparr>a_shared := (a_shared s1)\<lparr>net_ack := False, rng_value := v\<rparr>\<rparr>)"
    using k bv by (simp add: wait_shared_def app_shared_def)
  finally show ?thesis by (auto simp: s1_def app_upd_defs)
qed

lemma notify_returns:
  assumes "idle" and "ae_net e (ai_time i) = answer" and "length m \<le> 255"
    and "length (a_notification_buffer s) = 255"
  shows "\<exists>v. app_notify e i m s =
    Continue (s\<lparr>a_notification_buffer := blit 0 m (a_notification_buffer s),
                a_out := a_out s @ [AE_IpcSend IPC_CHAN_REQ],
                a_shared := (a_shared s)
                  \<lparr>tx_pdu := \<lparr>pdu_length = of_nat (length m),
                             pdu_buffer = blit 0 m (pdu_buffer (tx_pdu (a_shared s)))\<rparr>,
                   sh_req := IPC_MARI_NODE_TX_REQ, net_ack := False, rng_value := v\<rparr>\<rparr>)"
proof -
  have "take (length m) (blit 0 m (a_notification_buffer s)) = m" by (simp add: blit_0)
  moreover have "length (blit 0 m (a_notification_buffer s)) = 255" using assms(3,4) by simp
  ultimately show ?thesis
    using assms(3) call_returns [OF assms(1,2), of IPC_MARI_NODE_TX_REQ
        "app_shared (\<lambda>sh. sh\<lparr>tx_pdu := \<lparr>pdu_length = of_nat (length m),
            pdu_buffer = blit 0 m (pdu_buffer (tx_pdu sh))\<rparr>\<rparr>)
          (s\<lparr>a_notification_buffer := blit 0 m (a_notification_buffer s)\<rparr>)"]
    by (auto simp: app_notify_def mari_node_tx_def Let_def app_shared_def)
qed

end

section \<open>The network core provides it\<close>

text \<open>Nothing for the loop to do but a request.\<close>

definition net_idle :: "netcore \<Rightarrow> bool" where
  "net_idle n \<longleftrightarrow> \<not> n_req_received n \<and> \<not> n_data_received n \<and> \<not> n_send_status n \<and>
     \<not> n_ipc_log_received n \<and> \<not> n_metrics_received n \<and> \<not> n_lh2_calibration_ready n \<and>
     n_ipc_req n = IPC_REQ_NONE \<and> \<not> n_events n IPC_CHAN_LOG_EVENT"

definition connected :: "net_input \<Rightarrow> bool" where
  "connected i \<longleftrightarrow> in_connected i 0"

text \<open>The request event arrives, its interrupt runs, then one iteration of the loop.\<close>

definition net_serve :: "net_env \<Rightarrow> net_input \<Rightarrow> netcore \<Rightarrow> ipc_shared \<Rightarrow> netcore outcome" where
  "net_serve e i n sh =
     run_stages (net_stages e i)
       (net_irq e NetIpcIrq (net_irq e (NetIpcReceive IPC_CHAN_REQ) (n\<lparr>n_shared := sh\<rparr>)))"

text \<open>What poll \<open>k\<close> finds: the request still pending, then the outcome.\<close>

definition net_answers :: "net_env \<Rightarrow> net_input \<Rightarrow> netcore \<Rightarrow> ipc_shared \<Rightarrow> nat \<Rightarrow> ipc_shared" where
  "net_answers e i n sh k =
     (if k = 0 then sh
      else case net_serve e i n sh of
             Continue n' \<Rightarrow> n_shared n'
           | Stuck n' \<Rightarrow> n_shared n'
           | Undefined \<Rightarrow> sh)"

lemma idle_stages:
  assumes "\<not> n_req_received n" "\<not> n_data_received n" "\<not> n_send_status n"
    "\<not> n_ipc_log_received n" "\<not> n_metrics_received n" "\<not> n_lh2_calibration_ready n"
  shows "run_stages (net_stages e i) n =
    and_then (net_stage_ipc i n) (run_stages [net_stage_data, net_stage_metrics e i, net_stage_log i])"
  using assms
  by (simp add: net_stages_def net_stage_calibration_def net_stage_status_def
        net_stage_request_def)

text \<open>Serving a request from idle only touches the acknowledgement and the random byte.\<close>

lemma net_serve_idle:
  assumes "net_idle n" and "connected i"
  shows "\<exists>n' b v. net_serve e i n sh = Continue n' \<and>
    n_shared n' = sh\<lparr>net_ack := b, rng_value := v\<rparr> \<and> (sh_req sh \<noteq> IPC_REQ_NONE \<longrightarrow> b)"
proof -
  define n1 where "n1 = net_irq e NetIpcIrq (net_irq e (NetIpcReceive IPC_CHAN_REQ) (n\<lparr>n_shared := sh\<rparr>))"
  have n1: "n1 = n\<lparr>n_shared := sh, n_events := (n_events n)(IPC_CHAN_REQ := False),
                   n_ipc_req := sh_req sh\<rparr>"
    using assms(1) by (simp add: n1_def net_ipc_irq_handler_def Let_def net_idle_def)
  have spin_ok: "spin (in_connected i) x = Continue x" for x :: netcore
    using assms(2) by (auto simp: spin_cases connected_def)
  have flags: "\<not> n_req_received n1" "\<not> n_data_received n1" "\<not> n_send_status n1"
    "\<not> n_ipc_log_received n1" "\<not> n_metrics_received n1" "\<not> n_lh2_calibration_ready n1"
    using assms(1) by (simp_all add: n1 net_idle_def)
  have keep: "\<exists>v. sh\<lparr>net_ack := True\<rparr> = sh\<lparr>net_ack := True, rng_value := v\<rparr>"
    by (rule exI [of _ "rng_value sh"]) simp
  have keep_rng:
    "\<exists>v. sh\<lparr>rng_value := w, net_ack := True\<rparr> = sh\<lparr>net_ack := True, rng_value := v\<rparr>" for w
    by (rule exI [of _ w]) simp
  have busy: "\<exists>n2. net_stage_ipc i n1 = Continue n2 \<and>
      (\<exists>v. n_shared n2 = sh\<lparr>net_ack := True, rng_value := v\<rparr>) \<and>
      \<not> n_data_received n2 \<and> \<not> n_metrics_received n2 \<and> \<not> n_ipc_log_received n2"
    if "sh_req sh \<noteq> IPC_REQ_NONE"
    using that flags spin_ok keep keep_rng
    by (cases "sh_req sh")
       (auto simp: net_stage_ipc_def net_ipc_serve_def n1 net_upd_defs)
  have rest: "net_serve e i n sh = Continue n2"
    if "net_stage_ipc i n1 = Continue n2" "\<not> n_data_received n2" "\<not> n_metrics_received n2"
      "\<not> n_ipc_log_received n2" for n2
    unfolding net_serve_def n1_def [symmetric]
    using flags that
    by (simp add: idle_stages net_stage_data_def net_stage_metrics_def net_stage_log_def)
  show ?thesis
  proof (cases "sh_req sh = IPC_REQ_NONE")
    case True
    then have "net_stage_ipc i n1 = Continue n1" by (simp add: net_stage_ipc_def n1)
    moreover have "n_shared n1 = sh\<lparr>net_ack := net_ack sh, rng_value := rng_value sh\<rparr>"
      by (simp add: n1)
    ultimately show ?thesis using True flags rest [of n1] by blast
  next
    case False
    with busy show ?thesis using rest by blast
  qed
qed

interpretation net_serves: net_service "net_idle n \<and> connected i" "net_answers e i n"
  for e i n
proof unfold_locales
  fix sh k
  assume "net_idle n \<and> connected i"
  then obtain n' b v where s: "net_serve e i n sh = Continue n'"
      "n_shared n' = sh\<lparr>net_ack := b, rng_value := v\<rparr>" "sh_req sh \<noteq> IPC_REQ_NONE \<longrightarrow> b"
    using net_serve_idle by blast
  show "\<exists>b v. net_answers e i n sh k = sh\<lparr>net_ack := b, rng_value := v\<rparr>"
  proof (cases k)
    case 0
    then have "net_answers e i n sh k = sh\<lparr>net_ack := net_ack sh, rng_value := rng_value sh\<rparr>"
      by (simp add: net_answers_def)
    then show ?thesis by blast
  next
    case (Suc m)
    then show ?thesis using s by (auto simp: net_answers_def)
  qed
  show "sh_req sh \<noteq> IPC_REQ_NONE \<Longrightarrow> \<exists>k. net_ack (net_answers e i n sh k)"
    using s by (intro exI [of _ 1]) (simp add: net_answers_def)
qed

end
