(* ===== verification/Ota.thy ===== *)
theory Ota
  imports Net_Service
begin

text \<open>
  The firmware update across the two cores. \<open>soc_packet\<close> is one packet of the testbed controller
  on its way through the device: the radio callback and the request stage of the network core,
  the IPC events they send, the interrupt of the application core, its two update stages, and the
  network core serving the acknowledgement. It is the schedule the controller enforces, which
  waits for the acknowledgement of a chunk before it sends the next.
\<close>

section \<open>A packet through the device\<close>

definition host_start_packet :: "bytes \<Rightarrow> bytes" where
  "host_start_packet fw = ota_start_bytes (of_nat (length fw)) (of_nat (chunk_count fw))"

definition host_chunk_packet :: "net_env \<Rightarrow> bytes \<Rightarrow> nat \<Rightarrow> bytes" where
  "host_chunk_packet e fw k =
     (let data = host_chunk fw k
      in ota_chunk_bytes (of_nat k) (of_nat (length data)) (take 8 (env_sha256 e data)) data)"

fun sent_channels :: "net_event list \<Rightarrow> ipc_channels_t list" where
  "sent_channels [] = []"
| "sent_channels (NE_IpcSend ch # evs) = ch # sent_channels evs"
| "sent_channels (_ # evs) = sent_channels evs"

text \<open>The network core receives a packet and runs its request stage.\<close>

definition soc_net :: "net_env \<Rightarrow> bytes \<Rightarrow> netcore \<Rightarrow> netcore outcome" where
  "soc_net ne pkt n =
     net_stage_request ne
       (net_irq ne (NetMari (MARI_NEW_PACKET (env_broadcast ne) ((!) pkt) (of_nat (length pkt)))) n)"

text \<open>The application core takes the events \<open>chs\<close> and runs its update stages.\<close>

definition soc_app :: "app_env \<Rightarrow> app_input \<Rightarrow> ipc_channels_t list \<Rightarrow> appcore \<Rightarrow> appcore outcome" where
  "soc_app ae ai chs a =
     run_stages [app_stage_ota_start ae ai, app_stage_ota_chunk ae ai]
       (app_irq AppIpcIrq (fold (\<lambda>ch. app_irq (AppIpcReceive ch)) chs a))"

fun soc_packet :: "net_env \<Rightarrow> app_env \<Rightarrow> net_input \<Rightarrow> app_input \<Rightarrow> bytes \<Rightarrow>
    netcore \<times> appcore \<Rightarrow> (netcore \<times> appcore) outcome" where
  "soc_packet ne ae ni ai pkt (n, a) =
     (case soc_net ne pkt (n\<lparr>n_shared := a_shared a\<rparr>) of
        Continue n1 \<Rightarrow>
          (case soc_app (ae\<lparr>ae_net := (\<lambda>_. net_answers ne ni n1)\<rparr>) ai
                  (sent_channels (drop (length (n_out n)) (n_out n1))) (a\<lparr>a_shared := n_shared n1\<rparr>) of
             Continue a1 \<Rightarrow> Continue (n1\<lparr>n_shared := a_shared a1\<rparr>, a1)
           | Stuck a1 \<Rightarrow> Stuck (n1\<lparr>n_shared := a_shared a1\<rparr>, a1)
           | Undefined \<Rightarrow> Undefined)
      | Stuck n1 \<Rightarrow> Stuck (n1, a\<lparr>a_shared := n_shared n1\<rparr>)
      | Undefined \<Rightarrow> Undefined)"

fun soc_session :: "net_env \<Rightarrow> app_env \<Rightarrow> net_input \<Rightarrow> app_input \<Rightarrow> bytes list \<Rightarrow>
    netcore \<times> appcore \<Rightarrow> (netcore \<times> appcore) outcome" where
  "soc_session ne ae ni ai [] c = Continue c"
| "soc_session ne ae ni ai (p # ps) c =
     and_then (soc_packet ne ae ni ai p c) (soc_session ne ae ni ai ps)"

section \<open>Receiving on the network core\<close>

text \<open>The type byte of the library's metrics probe is none of the protocol's.\<close>

definition probe_distinct :: "net_env \<Rightarrow> bool" where
  "probe_distinct e \<longleftrightarrow> \<not> is_request (env_metrics_probe e)"

lemma packet_bytes_list:
  assumes "length p \<le> 255"
  shows "packet_bytes ((!) p) (of_nat (length p)) = p"
proof -
  have "unat (of_nat (length p) :: u8) = length p"
    using assms by (simp only: unat_of_nat) simp
  then show ?thesis by (simp add: packet_bytes_def map_nth)
qed

lemma soc_net_request:
  assumes "probe_distinct e" and "is_request t" and "length (t # p) \<le> 255"
    and "length (n_req_buffer n) = 255"
  shows "soc_net e (t # p) n =
    net_dispatch e (n\<lparr>n_req_buffer := (t # p) @ drop (length (t # p)) (n_req_buffer n),
                      n_req_received := False\<rparr>)"
proof -
  have "env_metrics_probe e \<noteq> t" using assms(1,2) by (auto simp: probe_distinct_def)
  then show ?thesis
    using assms packet_bytes_list [OF assms(3)]
    by (simp add: soc_net_def handle_packet_def Let_def blit_0 net_stage_request_def)
qed

lemma msg_of_ota [simp]:
  "msg_of_code 0x84 = Some SWRMT_MSG_OTA_START" "msg_of_code 0x85 = Some SWRMT_MSG_OTA_CHUNK"
  by (simp_all add: msg_of_code_def all_msgs_def)

text \<open>The buffer after a chunk packet, as the handler reads it.\<close>

lemma chunk_buffer:
  assumes "length sha = 8" and "length data \<le> 128"
    and b: "B = ota_chunk_bytes idx sz sha data @ r"
  shows "ota_chunk_of B = \<lparr>oc_index = idx, oc_chunk_size = sz\<rparr>"
    and "take 8 (sub_bytes OTA_CHUNK_SHA SWRMT_OTA_SHA256_LENGTH B) = sha"
    and "sub_bytes OTA_CHUNK_DATA (length data) (B @ r') = data"
proof -
  show "ota_chunk_of B = \<lparr>oc_index = idx, oc_chunk_size = sz\<rparr>"
    unfolding b by (rule ota_chunk_of_bytes)
  have "take 8 (sub_bytes OTA_CHUNK_SHA SWRMT_OTA_SHA256_LENGTH B) = sub_bytes OTA_CHUNK_SHA 8 B"
    by (simp add: sub_bytes_def SWRMT_OTA_SHA256_LENGTH_def min_def)
  then show "take 8 (sub_bytes OTA_CHUNK_SHA SWRMT_OTA_SHA256_LENGTH B) = sha"
    using ota_chunk_data_of_bytes(1) [OF assms(1)] by (simp add: b)
  show "sub_bytes OTA_CHUNK_DATA (length data) (B @ r') = data"
    using ota_chunk_data_of_bytes(2) [OF assms(1), of "length data" data idx sz "r @ r'"]
    by (simp add: b)
qed

text \<open>What a chunk request leaves behind, and when it is forwarded.\<close>

definition chunk_stored :: "u32 \<Rightarrow> bytes \<Rightarrow> ipc_shared \<Rightarrow> ipc_shared" where
  "chunk_stored idx data sh =
     (if ota_last_chunk_acked (ota sh) = idx then sh\<lparr>ota := (ota sh)\<lparr>ota_chunk_index := idx\<rparr>\<rparr>
      else sh\<lparr>ota := (ota sh)\<lparr>ota_chunk_index := idx, ota_chunk_size := of_nat (length data),
                             ota_chunk := blit 0 data (ota_chunk (ota sh))\<rparr>\<rparr>)"

lemma ota_tail_prefix:
  "length (ota_chunk (ota sh)) = 128 \<Longrightarrow> n \<le> 128 \<Longrightarrow> take n (ota_tail sh) = take n (ota_chunk (ota sh))"
  by (simp add: ota_tail_def)

lemma net_chunk_result:
  assumes inv: "net_inv n" and sha: "length sha = 8"
    and st: "n_status n = SWRMT_APPLICATION_READY \<or> n_status n = SWRMT_APPLICATION_PROGRAMMING"
    and idx: "idx < ota_chunk_count (n_ota n)"
    and data: "length data \<le> 128"
    and buf: "n_req_buffer n = ota_chunk_bytes idx (of_nat (length data)) sha data @ r"
  shows "\<exists>h h'. net_req_ota_chunk e n = Continue
    (n\<lparr>n_shared := chunk_stored idx data (n_shared n),
       n_expected_hash := h, n_computed_hash := h',
       n_out := n_out n @
         (if ota_last_chunk_acked (n_ota n) = idx \<or> take 8 (env_sha256 e data) = sha
          then [NE_IpcSend IPC_CHAN_OTA_CHUNK] else [])\<rparr>)"
proof -
  note cb = chunk_buffer [OF sha data buf]
  have sz: "unat (of_nat (length data) :: u8) = length data" using data by (simp only: unat_of_nat) simp
  have usz: "unat (of_nat (length data) :: u32) = length data"
    using data by (simp only: unat_of_nat) simp
  have sz32: "(ucast (of_nat (length data) :: u8) :: u32) = of_nat (length data)"
    by (simp only: word_unat_eq_iff unat_ucast_u8 sz usz)
  define n1 where "n1 = on_ota (\<lambda>o1. o1\<lparr>ota_chunk_index := idx\<rparr>) n"
  show ?thesis
  proof (cases "ota_last_chunk_acked (n_ota n) = idx")
    case True
    have "net_req_ota_chunk e n = Continue (emit (NE_IpcSend IPC_CHAN_OTA_CHUNK) n1)"
      using st idx True cb(1) by (auto simp: net_req_ota_chunk_def Let_def n1_def not_le)
    also have "emit (NE_IpcSend IPC_CHAN_OTA_CHUNK) n1 =
      n\<lparr>n_shared := chunk_stored idx data (n_shared n), n_expected_hash := n_expected_hash n,
        n_computed_hash := n_computed_hash n,
        n_out := n_out n @ (if ota_last_chunk_acked (n_ota n) = idx \<or> take 8 (env_sha256 e data) = sha
          then [NE_IpcSend IPC_CHAN_OTA_CHUNK] else [])\<rparr>"
      using True by (simp add: n1_def net_upd_defs chunk_stored_def)
    finally show ?thesis by blast
  next
    case False
    define n2 where "n2 = on_ota (\<lambda>o1. o1\<lparr>ota_chunk_size := of_nat (length data)\<rparr>) n1"
    have src: "chunk_source n2 (of_nat (length data)) = data"
      using cb(3) [of "n_notification_buffer n"] sz
      by (simp add: chunk_source_def n2_def n1_def)
    have ok2: "shared_ok (n_shared n2)"
      using inv data usz by (simp add: n2_def n1_def net_inv_def shared_ok_def on_ota_def)
    define sh3 where "sh3 = (n_shared n2)\<lparr>ota := (ota (n_shared n2))
      \<lparr>ota_chunk := blit 0 data (ota_chunk (ota (n_shared n2)))\<rparr>\<rparr>"
    have m: "memcpy_ota_chunk data (n_shared n2) = sh3"
      using memcpy_ota_chunk_fits [OF ok2 data] by (simp add: sh3_def)
    have len128: "length (ota_chunk (ota sh3)) = 128"
      using ok2 data by (simp add: sh3_def shared_ok_def)
    have "ota_chunk_bytes_read sh3 = data"
      using len128 data usz
      by (simp add: ota_chunk_bytes_read_def ota_tail_prefix sh3_def n2_def on_ota_def blit_0)
    then have store: "ota_store_chunk e \<lparr>oc_index = idx, oc_chunk_size = of_nat (length data)\<rparr> n1 =
      n2\<lparr>n_shared := sh3,
         n_expected_hash := sub_bytes OTA_CHUNK_SHA SWRMT_OTA_SHA256_LENGTH (n_req_buffer n),
         n_computed_hash := env_sha256 e data\<rparr>" (is "_ = ?n3")
      by (simp add: ota_store_chunk_def Let_def sz32 n2_def [symmetric] src m on_shared_def)
        (simp add: n2_def n1_def)
    have "net_req_ota_chunk e n = Continue (if take 8 (env_sha256 e data) = sha
        then emit (NE_IpcSend IPC_CHAN_OTA_CHUNK) ?n3 else ?n3)"
      using st idx False cb(1,2)
      by (auto simp: net_req_ota_chunk_def Let_def n1_def [symmetric] store hashes_match_def not_le)
        (auto simp: n1_def)
    also have "(if take 8 (env_sha256 e data) = sha
        then emit (NE_IpcSend IPC_CHAN_OTA_CHUNK) ?n3 else ?n3) =
      n\<lparr>n_shared := chunk_stored idx data (n_shared n),
        n_expected_hash := sub_bytes OTA_CHUNK_SHA SWRMT_OTA_SHA256_LENGTH (n_req_buffer n),
        n_computed_hash := env_sha256 e data,
        n_out := n_out n @ (if ota_last_chunk_acked (n_ota n) = idx \<or> take 8 (env_sha256 e data) = sha
          then [NE_IpcSend IPC_CHAN_OTA_CHUNK] else [])\<rparr>"
      using False by (simp add: emit_def chunk_stored_def sh3_def n2_def n1_def on_ota_def
          on_shared_def)
    finally show ?thesis by blast
  qed
qed

section \<open>The application core takes a chunk\<close>

definition no_ota_events :: "appcore \<Rightarrow> bool" where
  "no_ota_events a \<longleftrightarrow> \<not> a_events a IPC_CHAN_OTA_START \<and> \<not> a_events a IPC_CHAN_OTA_CHUNK \<and>
     \<not> a_ota_start_request a \<and> \<not> a_ota_chunk_request a"

lemma take_event_frame:
  assumes "ch \<noteq> IPC_CHAN_OTA_START" "ch \<noteq> IPC_CHAN_OTA_CHUNK"
    and "\<And>x. a_events (g x) = a_events x" "\<And>x. a_ota_start_request (g x) = a_ota_start_request x"
    "\<And>x. a_ota_chunk_request (g x) = a_ota_chunk_request x"
    "\<And>x. a_shared (g x) = a_shared x" "\<And>x. a_flash (g x) = a_flash x"
    "\<And>x. a_base_addr (g x) = a_base_addr x"
    "\<And>x. a_notification_buffer (g x) = a_notification_buffer x"
    "\<And>x. a_ota_require_erase (g x) = a_ota_require_erase x"
  shows "a_events (take_event ch g s) IPC_CHAN_OTA_START = a_events s IPC_CHAN_OTA_START"
    "a_events (take_event ch g s) IPC_CHAN_OTA_CHUNK = a_events s IPC_CHAN_OTA_CHUNK"
    "a_ota_start_request (take_event ch g s) = a_ota_start_request s"
    "a_ota_chunk_request (take_event ch g s) = a_ota_chunk_request s"
    "a_shared (take_event ch g s) = a_shared s" "a_flash (take_event ch g s) = a_flash s"
    "a_base_addr (take_event ch g s) = a_base_addr s"
    "a_notification_buffer (take_event ch g s) = a_notification_buffer s"
    "a_ota_require_erase (take_event ch g s) = a_ota_require_erase s"
  using assms by (simp_all add: take_event_def)

text \<open>The events of an update packet set their flag; nothing else the update uses changes.\<close>

lemma app_receives:
  assumes "no_ota_events a" and "ch = IPC_CHAN_OTA_START \<or> ch = IPC_CHAN_OTA_CHUNK"
    and a1: "a1 = app_irq AppIpcIrq (app_irq (AppIpcReceive ch) a)"
  shows "a_ota_start_request a1 = (ch = IPC_CHAN_OTA_START)"
    "a_ota_chunk_request a1 = (ch = IPC_CHAN_OTA_CHUNK)"
    "\<not> a_events a1 IPC_CHAN_OTA_START" "\<not> a_events a1 IPC_CHAN_OTA_CHUNK"
    "a_shared a1 = a_shared a" "a_flash a1 = a_flash a" "a_base_addr a1 = a_base_addr a"
    "a_notification_buffer a1 = a_notification_buffer a"
    "a_ota_require_erase a1 = a_ota_require_erase a"
  using assms(1,2) unfolding a1
  by (auto simp: app_ipc_irq_handler_def take_event_frame app_ipc_receive_def no_ota_events_def)
     (auto simp: take_event_def app_ipc_receive_def)


text \<open>The update stages with the network core behind \<open>ae_net\<close> idle and connected: both return, the
  acknowledgement is in \<open>tx_pdu\<close>.\<close>

definition sent_shared :: "bytes \<Rightarrow> u8 \<Rightarrow> ipc_shared \<Rightarrow> ipc_shared" where
  "sent_shared m v sh =
     sh\<lparr>tx_pdu := \<lparr>pdu_length = of_nat (length m), pdu_buffer = blit 0 m (pdu_buffer (tx_pdu sh))\<rparr>,
        sh_req := IPC_MARI_NODE_TX_REQ, net_ack := False, rng_value := v\<rparr>"

lemma sent_shared_frame [simp]:
  "sh_status (sent_shared m v sh) = sh_status sh" "ota (sent_shared m v sh) = ota sh"
  "lh2_calibration (sent_shared m v sh) = lh2_calibration sh"
  "shared_ok sh \<Longrightarrow> length m \<le> 255 \<Longrightarrow> shared_ok (sent_shared m v sh)"
  by (simp_all add: sent_shared_def shared_ok_def)

text \<open>The bytes the last transmission request sent.\<close>

definition sent_bytes :: "ipc_shared \<Rightarrow> bytes" where
  "sent_bytes sh = take (unat (pdu_length (tx_pdu sh))) (pdu_buffer (tx_pdu sh))"

lemma sent_bytes_status [simp]: "sent_bytes (sh\<lparr>sh_status := st\<rparr>) = sent_bytes sh"
  by (simp add: sent_bytes_def)

lemma sent_bytes_sent [simp]:
  assumes "length m \<le> 255"
  shows "sent_bytes (sent_shared m v sh) = m"
proof -
  have "unat (of_nat (length m) :: u8) = length m"
    using assms by (simp only: unat_of_nat) simp
  then show ?thesis
    by (simp add: sent_bytes_def sent_shared_def blit_def)
qed

lemma notify_sent:
  assumes "net_idle n" "connected ni" and net: "ae_net ae = (\<lambda>_. net_answers ne ni n)"
    and "length m \<le> 255" "length (a_notification_buffer a) = 255"
  shows "\<exists>v. app_notify ae i m a =
    Continue (a\<lparr>a_notification_buffer := blit 0 m (a_notification_buffer a),
                a_out := a_out a @ [AE_IpcSend IPC_CHAN_REQ],
                a_shared := sent_shared m v (a_shared a)\<rparr>)"
  using net_serves.notify_returns [of n ni ae i ne m a] assms
  by (simp add: sent_shared_def)

lemma app_takes_chunk:
  assumes net: "net_idle n" "connected ni" "ae_net ae = (\<lambda>_. net_answers ne ni n)"
    and a: "\<not> a_ota_start_request a" "a_ota_chunk_request a" "length (a_notification_buffer a) = 255"
    and idx: "idx = ota_chunk_index (ota (a_shared a))"
  shows "\<exists>a' v. run_stages [app_stage_ota_start ae i, app_stage_ota_chunk ae i] a = Continue a' \<and>
    a_flash a' = a_flash (write_chunk ae a) \<and>
    a_shared a' = (sent_shared (msg_code SWRMT_MSG_OTA_CHUNK_ACK # le32 idx) v
      ((a_shared a)\<lparr>ota := (ota (a_shared a))\<lparr>ota_last_chunk_acked := idx\<rparr>\<rparr>))
      \<lparr>sh_status := if idx = ota_chunk_count (ota (a_shared a)) - 1 then SWRMT_APPLICATION_READY
                    else sh_status (a_shared a)\<rparr> \<and>
    a_base_addr a' = a_base_addr a \<and> a_events a' = a_events a \<and>
    \<not> a_ota_start_request a' \<and> \<not> a_ota_chunk_request a' \<and>
    a_ota_require_erase a' = a_ota_require_erase (write_chunk ae a) \<and>
    length (a_notification_buffer a') = 255"
proof -
  define s1 where "s1 = write_chunk ae (a\<lparr>a_ota_chunk_request := False\<rparr>)"
  define s2 where
    "s2 = app_shared (\<lambda>sh. sh\<lparr>ota := (ota sh)\<lparr>ota_last_chunk_acked := idx\<rparr>\<rparr>) s1"
  define m where "m = msg_code SWRMT_MSG_OTA_CHUNK_ACK # le32 idx"
  have s1: "a_shared s1 = a_shared a" "a_flash s1 = a_flash (write_chunk ae a)"
    "a_base_addr s1 = a_base_addr a" "a_events s1 = a_events a"
    "a_ota_start_request s1 = a_ota_start_request a" "\<not> a_ota_chunk_request s1"
    "a_ota_require_erase s1 = a_ota_require_erase (write_chunk ae a)"
    "a_notification_buffer s1 = a_notification_buffer a"
    by (simp_all add: s1_def write_chunk_def)
  have "length m \<le> 255" "length (a_notification_buffer s2) = 255"
    using a(3) s1 by (simp_all add: m_def s2_def app_shared_def)
  then obtain v where v: "app_notify ae i m s2 =
      Continue (s2\<lparr>a_notification_buffer := blit 0 m (a_notification_buffer s2),
                  a_out := a_out s2 @ [AE_IpcSend IPC_CHAN_REQ],
                  a_shared := sent_shared m v (a_shared s2)\<rparr>)" (is "_ = Continue ?s3")
    using notify_sent [OF net] by blast
  define a' where "a' = (if idx = ota_chunk_count (ota (a_shared a)) - 1
    then app_shared (\<lambda>sh. sh\<lparr>sh_status := SWRMT_APPLICATION_READY\<rparr>) ?s3 else ?s3)"
  have s2: "ota_chunk_index (ota (a_shared s2)) = idx"
    "ota_chunk_count (ota (a_shared s2)) = ota_chunk_count (ota (a_shared a))"
    using idx s1(1) by (simp_all add: s2_def)
  have "app_stage_ota_chunk ae i a = and_then (app_notify ae i m s2)
      (\<lambda>s3. if ota_chunk_index (ota (a_shared s3)) = ota_chunk_count (ota (a_shared s3)) - 1
            then Continue (app_shared (\<lambda>sh. sh\<lparr>sh_status := SWRMT_APPLICATION_READY\<rparr>) s3)
            else Continue s3)"
    using a(2) idx s1(1)
    by (simp add: app_stage_ota_chunk_def Let_def s1_def [symmetric] m_def s2_def)
  also have "\<dots> = Continue a'"
    unfolding v using s2 by (simp add: a'_def)
  finally have "run_stages [app_stage_ota_start ae i, app_stage_ota_chunk ae i] a = Continue a'"
    using a(1) by (simp add: app_stage_ota_start_def)
  moreover have "a_shared a' = (sent_shared m v
      ((a_shared a)\<lparr>ota := (ota (a_shared a))\<lparr>ota_last_chunk_acked := idx\<rparr>\<rparr>))
      \<lparr>sh_status := if idx = ota_chunk_count (ota (a_shared a)) - 1 then SWRMT_APPLICATION_READY
                    else sh_status (a_shared a)\<rparr>"
    using s1 by (simp add: a'_def s2_def sent_shared_def)
  moreover have "a_flash a' = a_flash (write_chunk ae a)" "a_base_addr a' = a_base_addr a"
    "a_events a' = a_events a" "\<not> a_ota_start_request a'" "\<not> a_ota_chunk_request a'"
    "a_ota_require_erase a' = a_ota_require_erase (write_chunk ae a)"
    "length (a_notification_buffer a') = 255"
    using a s1 \<open>length m \<le> 255\<close> by (simp_all add: a'_def s2_def app_shared_def)
  ultimately show ?thesis unfolding m_def by blast
qed

lemma app_takes_start:
  assumes net: "net_idle n" "connected ni" "ae_net ae = (\<lambda>_. net_answers ne ni n)"
    and a: "a_ota_start_request a" "\<not> a_ota_chunk_request a" "length (a_notification_buffer a) = 255"
  shows "\<exists>a' v. run_stages [app_stage_ota_start ae i, app_stage_ota_chunk ae i] a = Continue a' \<and>
    a_flash a' = (if a_ota_require_erase a
      then erase_image (ae_flash_hw ae) (ota_image_size (ota (a_shared a))) (a_flash a)
      else a_flash a) \<and>
    a_shared a' = sent_shared [msg_code SWRMT_MSG_OTA_START_ACK] v (a_shared a) \<and>
    a_base_addr a' = a_base_addr a \<and> a_events a' = a_events a \<and>
    \<not> a_ota_start_request a' \<and> \<not> a_ota_chunk_request a' \<and> \<not> a_ota_require_erase a' \<and>
    length (a_notification_buffer a') = 255"
proof -
  define m where "m = [msg_code SWRMT_MSG_OTA_START_ACK]"
  define s1 where "s1 = a\<lparr>a_ota_start_request := False\<rparr>"
  define s2 where "s2 = (if a_ota_require_erase s1
    then s1\<lparr>a_flash := erase_image (ae_flash_hw ae) (ota_image_size (ota (a_shared s1))) (a_flash s1),
            a_ota_require_erase := False\<rparr> else s1)"
  have len: "length m \<le> 255" "length (a_notification_buffer s2) = 255"
    using a(3) by (simp_all add: m_def s2_def s1_def)
  obtain v where v: "app_notify ae i m s2 =
      Continue (s2\<lparr>a_notification_buffer := blit 0 m (a_notification_buffer s2),
                  a_out := a_out s2 @ [AE_IpcSend IPC_CHAN_REQ],
                  a_shared := sent_shared m v (a_shared s2)\<rparr>)"
    using notify_sent [OF net len] by blast
  define a' where "a' = s2\<lparr>a_notification_buffer := blit 0 m (a_notification_buffer s2),
    a_out := a_out s2 @ [AE_IpcSend IPC_CHAN_REQ], a_shared := sent_shared m v (a_shared s2)\<rparr>"
  have "app_stage_ota_start ae i a = app_notify ae i m s2"
    using a(1) by (simp add: app_stage_ota_start_def Let_def m_def s1_def s2_def)
  moreover have "app_stage_ota_chunk ae i a' = Continue a'"
    using a(2) by (simp add: app_stage_ota_chunk_def a'_def s2_def s1_def)
  ultimately have "run_stages [app_stage_ota_start ae i, app_stage_ota_chunk ae i] a = Continue a'"
    using v by (simp add: a'_def)
  moreover have "a_flash a' = (if a_ota_require_erase a
      then erase_image (ae_flash_hw ae) (ota_image_size (ota (a_shared a))) (a_flash a)
      else a_flash a)"
    "a_shared a' = sent_shared m v (a_shared a)" "a_base_addr a' = a_base_addr a"
    "a_events a' = a_events a" "\<not> a_ota_start_request a'" "\<not> a_ota_chunk_request a'"
    "\<not> a_ota_require_erase a'" "length (a_notification_buffer a') = 255"
    using a(2) len by (simp_all add: a'_def s2_def s1_def)
  ultimately show ?thesis unfolding m_def by blast
qed


text \<open>What the update stages do to the flash, whatever the network core answers.\<close>

lemma notify_frame:
  assumes "app_notify e i m s = Continue s1"
  shows "a_flash s1 = a_flash s" "a_ota_require_erase s1 = a_ota_require_erase s"
  using assms ipc_call_frame
  by (auto simp: app_notify_def mari_node_tx_def Let_def app_shared_def)

lemma stage_start_flash:
  assumes "app_stage_ota_start e i s = Continue s'" and "a_ota_start_request s"
  shows "a_flash s' = (if a_ota_require_erase s
      then erase_image (ae_flash_hw e) (ota_image_size (ota (a_shared s))) (a_flash s) else a_flash s)"
    and "\<not> a_ota_require_erase s'"
  using assms by (auto simp: app_stage_ota_start_def Let_def notify_frame split: if_splits)

lemma stage_chunk_flash:
  assumes "app_stage_ota_chunk e i s = Continue s'" and "a_ota_chunk_request s"
  shows "a_flash s' = a_flash (write_chunk e s)"
proof -
  define s1 where "s1 = write_chunk e (s\<lparr>a_ota_chunk_request := False\<rparr>)"
  define idx where "idx = ota_chunk_index (ota (a_shared s1))"
  define s2 where "s2 = app_shared (\<lambda>sh. sh\<lparr>ota := (ota sh)\<lparr>ota_last_chunk_acked := idx\<rparr>\<rparr>) s1"
  have "a_flash s2 = a_flash (write_chunk e s)" by (simp add: s2_def s1_def write_chunk_def)
  moreover obtain s3 where "app_notify e i (msg_code SWRMT_MSG_OTA_CHUNK_ACK # le32 idx) s2 = Continue s3"
    "a_flash s' = a_flash s3"
    using assms
    by (cases "app_notify e i (msg_code SWRMT_MSG_OTA_CHUNK_ACK # le32 idx) s2")
       (auto simp: app_stage_ota_chunk_def Let_def s1_def [symmetric] idx_def [symmetric]
          s2_def [symmetric] split: if_splits)
  ultimately show ?thesis by (simp add: notify_frame)
qed

section \<open>An update session\<close>

text \<open>Both cores idle, the bootloader in its loop: the state between two packets.\<close>

fun update_idle :: "netcore \<times> appcore \<Rightarrow> bool" where
  "update_idle (n, a) \<longleftrightarrow>
     net_idle n \<and> net_inv (n\<lparr>n_shared := a_shared a\<rparr>) \<and> no_ota_events a \<and>
     a_base_addr a = SWARMIT_BASE_ADDRESS \<and> length (a_notification_buffer a) = 255 \<and>
     (sh_status (a_shared a) = SWRMT_APPLICATION_READY \<or>
      sh_status (a_shared a) = SWRMT_APPLICATION_PROGRAMMING)"

text \<open>The state between two packets: the cores are idle, and the chunks of \<open>W\<close> are in the flash,
  which held \<open>c\<close> after the erase.\<close>

fun session_inv :: "bytes \<Rightarrow> (u32 \<Rightarrow> u32) \<Rightarrow> nat set \<Rightarrow> netcore \<times> appcore \<Rightarrow> bool" where
  "session_inv fw c W (n, a) \<longleftrightarrow>
     net_idle n \<and> net_inv (n\<lparr>n_shared := a_shared a\<rparr>) \<and> no_ota_events a \<and>
     a_base_addr a = SWARMIT_BASE_ADDRESS \<and> length (a_notification_buffer a) = 255 \<and>
     (sh_status (a_shared a) = SWRMT_APPLICATION_READY \<or>
      sh_status (a_shared a) = SWRMT_APPLICATION_PROGRAMMING) \<and>
     ota_chunk_count (ota (a_shared a)) = of_nat (chunk_count fw) \<and>
     (\<forall>k < chunk_count fw. ota_last_chunk_acked (ota (a_shared a)) = of_nat k \<longrightarrow>
        k \<in> W \<and> a_ota_require_erase a) \<and>
     cells (a_flash a) = image_cells fw W c"

definition soc_env_ok :: "net_env \<Rightarrow> app_env \<Rightarrow> net_input \<Rightarrow> bool" where
  "soc_env_ok ne ae ni \<longleftrightarrow> env_ok ne \<and> probe_distinct ne \<and> connected ni \<and>
     nor_flash APP_FLASH_PAGE_SIZE (ae_flash_hw ae)"

lemma of_nat_u32: "n < 2 ^ 32 \<Longrightarrow> unat (of_nat n :: u32) = n"
  by (simp only: unat_of_nat) simp

lemma chunk_count_small: "length fw \<le> 2 ^ 31 \<Longrightarrow> chunk_count fw < 2 ^ 32"
proof -
  assume "length fw \<le> 2 ^ 31"
  moreover have "length fw div 128 \<le> length fw" by simp
  ultimately show ?thesis by (simp add: chunk_count_def CHUNK_SIZE_def del: div_le_dividend)
qed

lemma host_chunk_packet_Cons:
  "host_chunk_packet e fw k = 0x85 # tl (host_chunk_packet e fw k)"
  by (simp add: host_chunk_packet_def Let_def ota_chunk_bytes_def)

lemma length_host_chunk_packet:
  "env_ok e \<Longrightarrow> k < chunk_count fw \<Longrightarrow> length (host_chunk_packet e fw k) \<le> 142"
  by (simp add: host_chunk_packet_def Let_def ota_chunk_bytes_def length_host_chunk env_ok_def
        SWRMT_OTA_SHA256_LENGTH_def)

lemma net_takes_chunk:
  assumes env: "env_ok ne" "probe_distinct ne" and inv: "net_inv n" "net_idle n"
    and st: "n_status n = SWRMT_APPLICATION_READY \<or> n_status n = SWRMT_APPLICATION_PROGRAMMING"
    and cnt: "of_nat k < ota_chunk_count (n_ota n)" and k: "k < chunk_count fw"
  shows "\<exists>n1. soc_net ne (host_chunk_packet ne fw k) n = Continue n1 \<and> net_inv n1 \<and> net_idle n1 \<and>
    n_shared n1 = chunk_stored (of_nat k) (host_chunk fw k) (n_shared n) \<and>
    n_out n1 = n_out n @ [NE_IpcSend IPC_CHAN_OTA_CHUNK]"
proof -
  let ?pkt = "host_chunk_packet ne fw k"
  define N where "N = n\<lparr>n_req_buffer := ?pkt @ drop (length ?pkt) (n_req_buffer n),
    n_req_received := False\<rparr>"
  have len: "length ?pkt \<le> 142" by (rule length_host_chunk_packet [OF env(1) k])
  have net: "soc_net ne ?pkt n = net_dispatch ne N"
    using soc_net_request [OF env(2), of "0x85" "tl ?pkt" n] len inv(1)
    by (simp add: host_chunk_packet_Cons [symmetric] N_def is_request_def net_inv_def)
  have disp: "net_dispatch ne N = net_req_ota_chunk ne N"
    by (subst net_dispatch_def) (simp add: N_def host_chunk_packet_def Let_def ota_chunk_bytes_def)
  have N: "net_inv N" using inv(1) len by (simp add: N_def net_inv_def)
  have data: "length (host_chunk fw k) \<le> 128" using k by (simp add: length_host_chunk)
  obtain h h' where r: "net_req_ota_chunk ne N = Continue
      (N\<lparr>n_shared := chunk_stored (of_nat k) (host_chunk fw k) (n_shared N),
         n_expected_hash := h, n_computed_hash := h',
         n_out := n_out N @ [NE_IpcSend IPC_CHAN_OTA_CHUNK]\<rparr>)" (is "_ = Continue ?n1")
    using net_chunk_result [OF N _ _ _ data, of "take 8 (env_sha256 ne (host_chunk fw k))" "of_nat k"
        "drop (length ?pkt) (n_req_buffer n)" ne] st cnt env(1)
    by (auto simp: N_def host_chunk_packet_def Let_def env_ok_def SWRMT_OTA_SHA256_LENGTH_def)
  have "net_inv ?n1" using net_inv_dispatch [OF N env(1)] disp r by simp
  then show ?thesis
    using net disp r inv(2) by (simp add: N_def net_idle_def)
qed

lemma chunk_stored_frame [simp]:
  "sh_status (chunk_stored i d sh) = sh_status sh"
  "ota_chunk_count (ota (chunk_stored i d sh)) = ota_chunk_count (ota sh)"
  "ota_chunk_index (ota (chunk_stored i d sh)) = i"
  "ota_last_chunk_acked (ota (chunk_stored i d sh)) = ota_last_chunk_acked (ota sh)"
  by (simp_all add: chunk_stored_def)

text \<open>The write of a stored chunk.\<close>

lemma write_stored_ands:
  assumes hw: "nor_flash APP_FLASH_PAGE_SIZE (ae_flash_hw ae)" and fw: "length fw \<le> 2 ^ 31"
    and k: "k < chunk_count fw"
    and sh: "a_shared a = chunk_stored (of_nat k) (host_chunk fw k) sh" "shared_ok sh"
    and base: "a_base_addr a = SWARMIT_BASE_ADDRESS"
    and new: "ota_last_chunk_acked (ota sh) \<noteq> of_nat k"
  shows "cells (a_flash (write_chunk ae a)) = chunk_ands fw k (cells (a_flash a))"
proof -
  let ?d = "host_chunk fw k"
  have d: "length ?d \<le> 128" using k by (simp add: length_host_chunk)
  then have "unat (of_nat (length ?d) :: u32) = length ?d" by (intro of_nat_u32) simp
  moreover have "take (length ?d) (ota_tail (a_shared a)) = ?d"
    using new sh d by (simp add: chunk_stored_def ota_tail_prefix shared_ok_def blit_0)
  ultimately show ?thesis
    using write_chunk_ands [OF hw k fw, of "ota_tail (a_shared a)" "a_flash a"] new sh base
    by (simp add: write_chunk_def) (simp add: chunk_stored_def)
qed

lemma shared_ok_chunk_stored [simp]:
  "shared_ok sh \<Longrightarrow> length d \<le> 128 \<Longrightarrow> shared_ok (chunk_stored i d sh)"
  by (simp add: chunk_stored_def shared_ok_def of_nat_u32)

text \<open>Both cores take any chunk whose index is below the count they know, of whatever image.\<close>

lemma soc_packet_any_chunk:
  assumes env: "soc_env_ok ne ae ni" and idle: "update_idle (n, a)"
    and k: "k < chunk_count fw" "of_nat k < ota_chunk_count (ota (a_shared a))"
    and sh1: "sh1 = chunk_stored (of_nat k) (host_chunk fw k) (a_shared a)"
  shows "\<exists>n' a' v. soc_packet ne ae ni ai (host_chunk_packet ne fw k) (n, a) = Continue (n', a') \<and>
    update_idle (n', a') \<and>
    a_flash a' = a_flash (write_chunk ae (a\<lparr>a_shared := sh1\<rparr>)) \<and>
    a_shared a' = (sent_shared (msg_code SWRMT_MSG_OTA_CHUNK_ACK # le32 (of_nat k)) v
      (sh1\<lparr>ota := (ota sh1)\<lparr>ota_last_chunk_acked := of_nat k\<rparr>\<rparr>))
      \<lparr>sh_status := if of_nat k = ota_chunk_count (ota (a_shared a)) - 1 then SWRMT_APPLICATION_READY
                    else sh_status (a_shared a)\<rparr> \<and>
    (a_ota_require_erase a' \<longleftrightarrow> a_ota_require_erase a \<or> ota_last_chunk_acked (ota (a_shared a)) \<noteq> of_nat k)"
proof -
  let ?N = "n\<lparr>n_shared := a_shared a\<rparr>"
  have e: "env_ok ne" "probe_distinct ne" "connected ni" using env by (simp_all add: soc_env_ok_def)
  have "net_inv ?N" "net_idle ?N" using idle by (simp_all add: net_idle_def)
  then obtain n1 where n1: "soc_net ne (host_chunk_packet ne fw k) ?N = Continue n1"
    "net_inv n1" "net_idle n1" "n_shared n1 = sh1"
    "n_out n1 = n_out n @ [NE_IpcSend IPC_CHAN_OTA_CHUNK]"
    using net_takes_chunk [OF e(1,2), of ?N k fw] idle k sh1 by auto
  define ae1 where "ae1 = ae\<lparr>ae_net := (\<lambda>_. net_answers ne ni n1)\<rparr>"
  define a1 where "a1 = app_irq AppIpcIrq (app_irq (AppIpcReceive IPC_CHAN_OTA_CHUNK)
    (a\<lparr>a_shared := n_shared n1\<rparr>))"
  have "no_ota_events (a\<lparr>a_shared := n_shared n1\<rparr>)" using idle by (simp add: no_ota_events_def)
  note a1 = app_receives [OF this _ a1_def, simplified]
  have buf: "length (a_notification_buffer a1) = 255" using a1 idle by simp
  have net1: "ae_net ae1 = (\<lambda>_. net_answers ne ni n1)" by (simp add: ae1_def)
  have idx: "of_nat k = ota_chunk_index (ota (a_shared a1))" using a1 n1(4) by (simp add: sh1)
  have req: "\<not> a_ota_start_request a1" "a_ota_chunk_request a1" using a1 by simp_all
  obtain a2 v where a2: "run_stages [app_stage_ota_start ae1 ai, app_stage_ota_chunk ae1 ai] a1 = Continue a2"
    "a_flash a2 = a_flash (write_chunk ae1 a1)"
    "a_shared a2 = (sent_shared (msg_code SWRMT_MSG_OTA_CHUNK_ACK # le32 (of_nat k)) v
      ((a_shared a1)\<lparr>ota := (ota (a_shared a1))\<lparr>ota_last_chunk_acked := of_nat k\<rparr>\<rparr>))
      \<lparr>sh_status := if of_nat k = ota_chunk_count (ota (a_shared a1)) - 1 then SWRMT_APPLICATION_READY
                    else sh_status (a_shared a1)\<rparr>"
    "a_base_addr a2 = a_base_addr a1" "a_events a2 = a_events a1"
    "\<not> a_ota_start_request a2" "\<not> a_ota_chunk_request a2" "length (a_notification_buffer a2) = 255"
    "a_ota_require_erase a2 = a_ota_require_erase (write_chunk ae1 a1)"
    using app_takes_chunk [OF n1(3) e(3) net1 req buf idx, of ai] by blast
  have packet: "soc_packet ne ae ni ai (host_chunk_packet ne fw k) (n, a)
      = Continue (n1\<lparr>n_shared := a_shared a2\<rparr>, a2)"
    using n1(1,5) a2(1) by (simp add: soc_app_def ae1_def [symmetric] a1_def del: run_stages.simps)
  have "shared_ok (a_shared a)" "length (host_chunk fw k) \<le> 128"
    using idle k by (simp_all add: net_inv_def length_host_chunk)
  then have "shared_ok sh1" by (simp add: sh1)
  have sh2: "a_shared a2 = (sent_shared (msg_code SWRMT_MSG_OTA_CHUNK_ACK # le32 (of_nat k)) v
      (sh1\<lparr>ota := (ota sh1)\<lparr>ota_last_chunk_acked := of_nat k\<rparr>\<rparr>))
      \<lparr>sh_status := if of_nat k = ota_chunk_count (ota (a_shared a)) - 1 then SWRMT_APPLICATION_READY
                    else sh_status (a_shared a)\<rparr>"
    using a2(3) a1(5) n1(4) by (simp add: sh1)
  then have "shared_ok (a_shared a2)"
    using \<open>shared_ok sh1\<close> by (simp add: shared_ok_def sent_shared_def)
  then have "update_idle (n1\<lparr>n_shared := a_shared a2\<rparr>, a2)"
    using n1(2,3) a2(4-8) a1 sh2 idle by (auto simp: net_idle_def net_inv_def no_ota_events_def)
  moreover have "a_flash a2 = a_flash (write_chunk ae (a\<lparr>a_shared := sh1\<rparr>))"
    using a2(2) a1 n1(4) by (simp add: write_chunk_def ae1_def)
  moreover have "a_ota_require_erase a2 \<longleftrightarrow>
      a_ota_require_erase a \<or> ota_last_chunk_acked (ota (a_shared a)) \<noteq> of_nat k"
    using a2(9) a1 n1(4) by (simp add: write_chunk_def sh1)
  ultimately show ?thesis using packet sh2 by blast
qed

lemma last_chunk_index:
  assumes "length fw \<le> 2 ^ 31" and "k < chunk_count fw"
  shows "(of_nat k :: u32) = of_nat (chunk_count fw) - 1 \<longleftrightarrow> k = chunk_count fw - 1"
proof -
  have cc: "chunk_count fw < 2 ^ 32" by (rule chunk_count_small [OF assms(1)])
  have eq: "(of_nat (chunk_count fw) - 1 :: u32) = of_nat (chunk_count fw - 1)" using assms(2) by simp
  have "unat (of_nat k :: u32) = k" "unat (of_nat (chunk_count fw - 1) :: u32) = chunk_count fw - 1"
    using assms(2) cc by (simp_all only: of_nat_u32)
  then show ?thesis by (simp only: eq word_unat_eq_iff)
qed

lemma chunk_index_not_reset:
  assumes "length fw \<le> 2 ^ 31" and "k < chunk_count fw"
  shows "(- 1 :: u32) \<noteq> of_nat k"
proof -
  have "length fw div 128 \<le> 2 ^ 31 div 128" using assms(1) by (rule div_le_mono)
  then have "chunk_count fw \<le> 2 ^ 31" by (simp add: chunk_count_def CHUNK_SIZE_def)
  then have "unat (of_nat k :: u32) < 2 ^ 31" using assms(2) of_nat_u32 [of k] by simp
  moreover have "unat (- 1 :: u32) = 2 ^ 32 - 1"
    by (simp add: unsigned_minus_1_eq_mask mask_eq_exp_minus_1)
  ultimately show ?thesis by fastforce
qed

lemma soc_packet_chunk:
  assumes env: "soc_env_ok ne ae ni" and fw: "length fw \<le> 2 ^ 31"
    and erased: "\<And>b. unat (b - SWARMIT_BASE_ADDRESS) div 4 < length fw div 4 \<Longrightarrow> c b = 0xFFFFFFFF"
    and inv: "session_inv fw c W (n, a)" and k: "k < chunk_count fw"
  shows "\<exists>c'. soc_packet ne ae ni ai (host_chunk_packet ne fw k) (n, a) = Continue c' \<and>
    session_inv fw c (insert k W) c' \<and>
    sh_status (a_shared (snd c')) = (if k = chunk_count fw - 1 then SWRMT_APPLICATION_READY
                                     else sh_status (a_shared a)) \<and>
    a_ota_require_erase (snd c') \<and>
    sent_bytes (a_shared (snd c')) = msg_code SWRMT_MSG_OTA_CHUNK_ACK # le32 (of_nat k)"
proof -
  have cc: "chunk_count fw < 2 ^ 32" by (rule chunk_count_small [OF fw])
  have "(of_nat k :: u32) < of_nat (chunk_count fw)"
    using k cc by (simp add: word_less_nat_alt of_nat_u32)
  moreover define sh1 where "sh1 = chunk_stored (of_nat k) (host_chunk fw k) (a_shared a)"
  moreover have "update_idle (n, a)" using inv by simp
  ultimately obtain n' a' v where p: "soc_packet ne ae ni ai (host_chunk_packet ne fw k) (n, a) = Continue (n', a')"
    "update_idle (n', a')"
    "a_flash a' = a_flash (write_chunk ae (a\<lparr>a_shared := sh1\<rparr>))"
    "a_shared a' = (sent_shared (msg_code SWRMT_MSG_OTA_CHUNK_ACK # le32 (of_nat k)) v
      (sh1\<lparr>ota := (ota sh1)\<lparr>ota_last_chunk_acked := of_nat k\<rparr>\<rparr>))
      \<lparr>sh_status := if of_nat k = ota_chunk_count (ota (a_shared a)) - 1 then SWRMT_APPLICATION_READY
                    else sh_status (a_shared a)\<rparr>"
    "a_ota_require_erase a' \<longleftrightarrow> a_ota_require_erase a \<or> ota_last_chunk_acked (ota (a_shared a)) \<noteq> of_nat k"
    using soc_packet_any_chunk [OF env _ k _ sh1_def, of n ai] inv by (auto simp del: update_idle.simps)
  note last = last_chunk_index [OF fw k]
  have hw: "nor_flash APP_FLASH_PAGE_SIZE (ae_flash_hw ae)" and ok: "shared_ok (a_shared a)"
    using env inv by (simp_all add: soc_env_ok_def net_inv_def)
  have flash: "cells (a_flash a') = image_cells fw (insert k W) c"
  proof (cases "ota_last_chunk_acked (ota (a_shared a)) = of_nat k")
    case True
    then show ?thesis using p(3) inv k by (simp add: write_chunk_def insert_absorb sh1_def)
  next
    case False
    then show ?thesis
      using write_stored_ands [OF hw fw k, of "a\<lparr>a_shared := sh1\<rparr>"]
        p(3) inv ok chunk_ands_erased [of fw c k W] erased by (simp add: sh1_def)
  qed
  have acked: "k' \<in> insert k W"
    if "k' < chunk_count fw" "ota_last_chunk_acked (ota (a_shared a')) = of_nat k'" for k'
    using that p(4) k cc by (simp add: word_unat_eq_iff of_nat_u32)
  have erase: "a_ota_require_erase a'" using p(5) inv k by auto
  moreover have "session_inv fw c (insert k W) (n', a')"
  proof -
    have "ota_chunk_count (ota (a_shared a')) = of_nat (chunk_count fw)"
      using p(4) inv by (simp add: sh1_def)
    then show ?thesis using p(2) flash acked erase by auto
  qed
  moreover have "sent_bytes (a_shared a') = msg_code SWRMT_MSG_OTA_CHUNK_ACK # le32 (of_nat k)"
    "sh_status (a_shared a') = (if k = chunk_count fw - 1 then SWRMT_APPLICATION_READY else sh_status (a_shared a))"
    using p(4) inv last by simp_all
  ultimately show ?thesis using p(1) by auto
qed


section \<open>A whole update\<close>

text \<open>The state in which an update may start: both cores idle, the bootloader in its loop with an
  erase due.\<close>

fun update_ready :: "netcore \<times> appcore \<Rightarrow> bool" where
  "update_ready (n, a) \<longleftrightarrow>
     net_idle n \<and> net_inv (n\<lparr>n_shared := a_shared a\<rparr>) \<and> no_ota_events a \<and>
     a_base_addr a = SWARMIT_BASE_ADDRESS \<and> length (a_notification_buffer a) = 255 \<and>
     (sh_status (a_shared a) = SWRMT_APPLICATION_READY \<or>
      sh_status (a_shared a) = SWRMT_APPLICATION_PROGRAMMING) \<and> a_ota_require_erase a"

lemma update_ready_iff: "update_ready p \<longleftrightarrow> update_idle p \<and> a_ota_require_erase (snd p)"
  by (cases p) auto

lemma session_idle: "session_inv fw c W p \<Longrightarrow> update_idle p"
  by (cases p) simp

lemma net_takes_start:
  assumes env: "env_ok ne" "probe_distinct ne" and inv: "net_inv n" "net_idle n"
    and st: "n_status n = SWRMT_APPLICATION_READY \<or> n_status n = SWRMT_APPLICATION_PROGRAMMING"
  shows "\<exists>n1. soc_net ne (host_start_packet fw) n = Continue n1 \<and> net_inv n1 \<and> net_idle n1 \<and>
    n_shared n1 = (n_shared n)\<lparr>sh_status := SWRMT_APPLICATION_PROGRAMMING,
      ota := (n_ota n)\<lparr>ota_last_chunk_acked := - 1, ota_image_size := of_nat (length fw),
                       ota_chunk_count := of_nat (chunk_count fw)\<rparr>\<rparr> \<and>
    n_out n1 = n_out n @ [NE_IpcSend IPC_CHAN_OTA_START]"
proof -
  let ?pkt = "host_start_packet fw"
  define N where "N = n\<lparr>n_req_buffer := ?pkt @ drop (length ?pkt) (n_req_buffer n),
    n_req_received := False\<rparr>"
  have pkt: "?pkt = 0x84 # tl ?pkt" "length ?pkt = 9"
    by (simp_all add: host_start_packet_def ota_start_bytes_def)
  have net: "soc_net ne ?pkt n = net_dispatch ne N"
    using soc_net_request [OF env(2), of "0x84" "tl ?pkt" n] inv(1) pkt
    by (simp add: N_def is_request_def net_inv_def)
  have disp: "net_dispatch ne N = net_req_ota_start N"
    by (subst net_dispatch_def) (simp add: N_def host_start_packet_def ota_start_bytes_def)
  have N: "net_inv N" using inv(1) pkt(2) by (simp add: N_def net_inv_def)
  have "ota_start_of (n_req_buffer N) =
      \<lparr>os_image_size = of_nat (length fw), os_chunk_count = of_nat (chunk_count fw)\<rparr>"
    by (simp add: N_def host_start_packet_def ota_start_of_bytes)
  then obtain n1 where n1: "net_req_ota_start N = Continue n1" and "net_idle n1"
    "n_shared n1 = (n_shared n)\<lparr>sh_status := SWRMT_APPLICATION_PROGRAMMING,
      ota := (n_ota n)\<lparr>ota_last_chunk_acked := - 1, ota_image_size := of_nat (length fw),
                       ota_chunk_count := of_nat (chunk_count fw)\<rparr>\<rparr>"
    "n_out n1 = n_out n @ [NE_IpcSend IPC_CHAN_OTA_START]"
    using st inv(2)
    by (auto simp: net_req_ota_start_def Let_def N_def net_idle_def on_ota_def on_shared_def
          set_status_def emit_def)
  moreover have "net_inv n1" using net_inv_dispatch [OF N env(1)] disp n1 by simp
  ultimately show ?thesis using net disp by auto
qed

lemma unat_above_base:
  assumes "unat (b - SWARMIT_BASE_ADDRESS) < 2 ^ 31"
  shows "unat b = 0x10000 + unat (b - SWARMIT_BASE_ADDRESS)"
proof -
  have "b = SWARMIT_BASE_ADDRESS + (b - SWARMIT_BASE_ADDRESS)" by simp
  then have "unat b = unat (SWARMIT_BASE_ADDRESS + (b - SWARMIT_BASE_ADDRESS))" by simp
  also have "\<dots> = 0x10000 + unat (b - SWARMIT_BASE_ADDRESS)"
    using assms by (subst unat_word_ariths) (simp add: SWARMIT_BASE_ADDRESS_def)
  finally show ?thesis .
qed

definition in_image_pages :: "bytes \<Rightarrow> u32 \<Rightarrow> bool" where
  "in_image_pages fw b \<longleftrightarrow>
     0x10000 \<le> unat b \<and> unat b div 4096 < 16 + (length fw + 4095) div 4096"

lemma image_in_pages:
  assumes "length fw \<le> 2 ^ 31" and "unat (b - SWARMIT_BASE_ADDRESS) div 4 < length fw div 4"
  shows "in_image_pages fw b"
proof -
  define d where "d = unat (b - SWARMIT_BASE_ADDRESS)"
  have "4 * (d div 4) + 4 \<le> length fw" using assms(2) by (simp add: d_def less_div4)
  then have d: "d < length fw" using mult_div_mod_eq [of 4 d] mod_less_divisor [of 4 d] by linarith
  then have b: "unat b = 0x10000 + d"
    using unat_above_base [of b] assms(1) by (simp add: d_def)
  have "(0x10000 + d) div 4096 = 16 + d div 4096" by (simp add: div_plus_div_distrib_dvd_left)
  moreover have "d div 4096 < (length fw + 4095) div 4096"
  proof -
    have "(d + 4096) div 4096 \<le> (length fw + 4095) div 4096" using d by (intro div_le_mono) simp
    then show ?thesis by simp
  qed
  ultimately show ?thesis using b by (simp add: in_image_pages_def)
qed

lemma soc_packet_start:
  assumes env: "soc_env_ok ne ae ni" and fw: "length fw \<le> 2 ^ 31" and ready: "update_idle (n, a)"
    and c: "c = cells (if a_ota_require_erase a
      then erase_image (ae_flash_hw ae) (of_nat (length fw)) (a_flash a) else a_flash a)"
  shows "\<exists>c'. soc_packet ne ae ni ai (host_start_packet fw) (n, a) = Continue c' \<and>
    session_inv fw c {} c' \<and> sh_status (a_shared (snd c')) = SWRMT_APPLICATION_PROGRAMMING \<and>
    \<not> a_ota_require_erase (snd c') \<and>
    sent_bytes (a_shared (snd c')) = [msg_code SWRMT_MSG_OTA_START_ACK]"
proof -
  let ?N = "n\<lparr>n_shared := a_shared a\<rparr>"
  have e: "env_ok ne" "probe_distinct ne" "connected ni" using env by (simp_all add: soc_env_ok_def)
  have "net_inv ?N" "net_idle ?N" using ready by (simp_all add: net_idle_def)
  then obtain n1 where n1: "soc_net ne (host_start_packet fw) ?N = Continue n1" "net_inv n1"
    "net_idle n1" "n_shared n1 = (a_shared a)\<lparr>sh_status := SWRMT_APPLICATION_PROGRAMMING,
      ota := (ota (a_shared a))\<lparr>ota_last_chunk_acked := - 1, ota_image_size := of_nat (length fw),
                       ota_chunk_count := of_nat (chunk_count fw)\<rparr>\<rparr>"
    "n_out n1 = n_out n @ [NE_IpcSend IPC_CHAN_OTA_START]"
    using net_takes_start [OF e(1,2), of ?N fw] ready by auto
  define ae1 where "ae1 = ae\<lparr>ae_net := (\<lambda>_. net_answers ne ni n1)\<rparr>"
  define a1 where "a1 = app_irq AppIpcIrq (app_irq (AppIpcReceive IPC_CHAN_OTA_START)
    (a\<lparr>a_shared := n_shared n1\<rparr>))"
  have "no_ota_events (a\<lparr>a_shared := n_shared n1\<rparr>)" using ready by (simp add: no_ota_events_def)
  note a1 = app_receives [OF this _ a1_def, simplified]
  have buf: "length (a_notification_buffer a1) = 255" using a1 ready by simp
  have net1: "ae_net ae1 = (\<lambda>_. net_answers ne ni n1)" by (simp add: ae1_def)
  have req: "a_ota_start_request a1" "\<not> a_ota_chunk_request a1" using a1 by simp_all
  obtain a2 v where a2: "run_stages [app_stage_ota_start ae1 ai, app_stage_ota_chunk ae1 ai] a1 = Continue a2"
    "a_flash a2 = (if a_ota_require_erase a1
      then erase_image (ae_flash_hw ae1) (ota_image_size (ota (a_shared a1))) (a_flash a1)
      else a_flash a1)"
    "a_shared a2 = sent_shared [msg_code SWRMT_MSG_OTA_START_ACK] v (a_shared a1)"
    "a_base_addr a2 = a_base_addr a1" "a_events a2 = a_events a1"
    "\<not> a_ota_start_request a2" "\<not> a_ota_chunk_request a2" "length (a_notification_buffer a2) = 255"
    "\<not> a_ota_require_erase a2"
    using app_takes_start [OF n1(3) e(3) net1 req buf, of ai] by blast
  have packet: "soc_packet ne ae ni ai (host_start_packet fw) (n, a)
      = Continue (n1\<lparr>n_shared := a_shared a2\<rparr>, a2)"
    using n1(1,5) a2(1) by (simp add: soc_app_def ae1_def [symmetric] a1_def del: run_stages.simps)
  have "shared_ok (n_shared n1)" using n1(2) by (simp add: net_inv_def)
  then have ok2: "shared_ok (a_shared a2)"
    and reply: "sent_bytes (a_shared a2) = [msg_code SWRMT_MSG_OTA_START_ACK]"
    using a2(3) a1 by simp_all
  have flash: "cells (a_flash a2) = image_cells fw {} c"
    using a2(2) a1 n1(4)
    by (simp add: image_cells_def in_chunks_def c ae1_def fun_eq_iff)
  have "session_inv fw c {} (n1\<lparr>n_shared := a_shared a2\<rparr>, a2)"
    using n1(2,3,4) a2(3-) a1 flash ok2 ready chunk_index_not_reset [OF fw]
    by (auto simp: net_idle_def net_inv_def no_ota_events_def)
  moreover have "sh_status (a_shared a2) = SWRMT_APPLICATION_PROGRAMMING"
    using a2(3) a1 n1(4) by simp
  ultimately show ?thesis using packet reply a2(9) by auto
qed

declare soc_packet.simps [simp del] session_inv.simps [simp del] update_ready.simps [simp del]
  update_idle.simps [simp del]

lemma soc_session_chunks:
  assumes env: "soc_env_ok ne ae ni" and fw: "length fw \<le> 2 ^ 31"
    and erased: "\<And>b. unat (b - SWARMIT_BASE_ADDRESS) div 4 < length fw div 4 \<Longrightarrow> c b = 0xFFFFFFFF"
  shows "session_inv fw c W p \<Longrightarrow> set ks \<subseteq> {..<chunk_count fw} \<Longrightarrow>
    \<exists>p'. soc_session ne ae ni ai (map (host_chunk_packet ne fw) ks) p = Continue p' \<and>
      session_inv fw c (W \<union> set ks) p' \<and>
      (sh_status (a_shared (snd p)) = SWRMT_APPLICATION_READY \<or> chunk_count fw - 1 \<in> set ks \<longrightarrow>
       sh_status (a_shared (snd p')) = SWRMT_APPLICATION_READY)"
proof (induction ks arbitrary: W p)
  case (Cons k ks)
  obtain n a where p: "p = (n, a)" by (cases p)
  have "\<exists>c'. soc_packet ne ae ni ai (host_chunk_packet ne fw k) (n, a) = Continue c' \<and>
    session_inv fw c (insert k W) c' \<and>
    sh_status (a_shared (snd c')) = (if k = chunk_count fw - 1 then SWRMT_APPLICATION_READY
                                     else sh_status (a_shared a)) \<and>
    a_ota_require_erase (snd c') \<and>
    sent_bytes (a_shared (snd c')) = msg_code SWRMT_MSG_OTA_CHUNK_ACK # le32 (of_nat k)"
    by (rule soc_packet_chunk [OF env fw]) (use erased Cons.prems p in \<open>simp_all\<close>)
  then obtain p1 where p1: "soc_packet ne ae ni ai (host_chunk_packet ne fw k) (n, a) = Continue p1"
    "session_inv fw c (insert k W) p1"
    "sh_status (a_shared (snd p1)) = (if k = chunk_count fw - 1 then SWRMT_APPLICATION_READY
                                      else sh_status (a_shared a))"
    by blast
  obtain p' where "soc_session ne ae ni ai (map (host_chunk_packet ne fw) ks) p1 = Continue p'"
    "session_inv fw c (insert k W \<union> set ks) p'"
    "sh_status (a_shared (snd p1)) = SWRMT_APPLICATION_READY \<or> chunk_count fw - 1 \<in> set ks \<longrightarrow>
     sh_status (a_shared (snd p')) = SWRMT_APPLICATION_READY"
    using Cons.IH [OF p1(2)] Cons.prems(2) by auto
  then show ?case using p p1(1,3) by auto
qed auto

text \<open>The flash after an update to \<open>fw\<close>: the image's words, the rest of its pages erased, and
  everything else as it was.\<close>

definition flashed_image :: "bytes \<Rightarrow> (u32 \<Rightarrow> u32) \<Rightarrow> u32 \<Rightarrow> u32" where
  "flashed_image fw c b =
     (let j = unat (b - SWARMIT_BASE_ADDRESS)
      in if j mod 4 = 0 \<and> j div 4 < length fw div 4 then get32 j fw
         else if in_image_pages fw b then 0xFFFFFFFF else c b)"

text \<open>A word of the image in flash.\<close>

lemma flashed_word:
  assumes "length fw \<le> 2 ^ 31" and "4 dvd j" and "j + 4 \<le> length fw"
  shows "flashed_image fw c (SWARMIT_BASE_ADDRESS + of_nat j) = get32 j fw"
proof -
  have "unat (of_nat j :: u32) = j" using assms by (intro of_nat_u32) simp
  moreover have "j div 4 < length fw div 4" using assms(2,3) by (auto simp: less_div4)
  ultimately show ?thesis using assms(2) by (simp add: flashed_image_def)
qed

lemma in_all_chunks:
  assumes "j div 4 < length fw div 4"
  shows "j div 128 < chunk_count fw"
proof -
  have "4 * (j div 4) + 4 \<le> length fw" using assms by (simp add: less_div4)
  then have j: "j < length fw" using mult_div_mod_eq [of 4 j] mod_less_divisor [of 4 j] by linarith
  have "j div 128 \<le> length fw div 128" using j by (intro div_le_mono) simp
  moreover have "j div 128 < length fw div 128" if "length fw mod 128 = 0"
  proof (rule less_mult_imp_div_less)
    show "j < length fw div 128 * 128" using that j by (metis dvd_div_mult_self mod_0_imp_dvd)
  qed
  ultimately show ?thesis by (auto simp: chunk_count_def CHUNK_SIZE_def)
qed

lemma image_cells_all:
  assumes fw: "length fw \<le> 2 ^ 31" and W: "W = {..<chunk_count fw}"
    and c: "c = cells (erase_image hw (of_nat (length fw)) f)" and hw: "nor_flash APP_FLASH_PAGE_SIZE hw"
  shows "image_cells fw W c = flashed_image fw (cells f)"
proof (rule ext)
  fix b
  have "unat (of_nat (length fw) :: u32) = length fw" using fw by (intro of_nat_u32) simp
  then have "c b = (if in_image_pages fw b then 0xFFFFFFFF else cells f b)"
    using fw by (simp add: c erase_image_range [OF hw] in_image_pages_def)
  then show "image_cells fw W c b = flashed_image fw (cells f) b"
    using in_all_chunks by (auto simp: image_cells_def flashed_image_def in_chunks_def W Let_def)
qed

lemma chunk_count_pos:
  assumes "fw \<noteq> []"
  shows "0 < chunk_count fw"
proof -
  have "0 < length fw" using assms by simp
  moreover have "length fw = 128 * (length fw div 128) + length fw mod 128" by simp
  ultimately have "0 < length fw div 128 \<or> length fw mod 128 \<noteq> 0" by linarith
  then show ?thesis
    unfolding chunk_count_def CHUNK_SIZE_def by (elim disjE) simp_all
qed

lemma update_session:
  assumes env: "soc_env_ok ne ae ni" and fw: "length fw \<le> 2 ^ 31" and ready: "update_ready (n, a)"
    and ks: "set ks = {..<chunk_count fw}" and pos: "fw \<noteq> []"
  shows "\<exists>n' a'. soc_session ne ae ni ai
      (host_start_packet fw # map (host_chunk_packet ne fw) ks) (n, a) = Continue (n', a') \<and>
    cells (a_flash a') = flashed_image fw (cells (a_flash a)) \<and>
    sh_status (a_shared a') = SWRMT_APPLICATION_READY"
proof -
  have hw: "nor_flash APP_FLASH_PAGE_SIZE (ae_flash_hw ae)" using env by (simp add: soc_env_ok_def)
  define c where "c = cells (erase_image (ae_flash_hw ae) (of_nat (length fw)) (a_flash a))"
  obtain p1 where p1: "soc_packet ne ae ni ai (host_start_packet fw) (n, a) = Continue p1"
    "session_inv fw c {} p1"
    using soc_packet_start [OF env fw, of n a c ai] ready by (auto simp: c_def update_ready_iff)
  have size: "unat (of_nat (length fw) :: u32) = length fw" using fw by (intro of_nat_u32) simp
  have erased: "c b = 0xFFFFFFFF" if "unat (b - SWARMIT_BASE_ADDRESS) div 4 < length fw div 4" for b
    using image_in_pages [OF fw that] fw
    by (simp add: c_def erase_image_range [OF hw] size in_image_pages_def)
  have last: "chunk_count fw - 1 \<in> set ks"
    using chunk_count_pos [OF pos] by (simp add: ks)
  have "\<exists>p'. soc_session ne ae ni ai (map (host_chunk_packet ne fw) ks) p1 = Continue p' \<and>
      session_inv fw c ({} \<union> set ks) p' \<and>
      (sh_status (a_shared (snd p1)) = SWRMT_APPLICATION_READY \<or> chunk_count fw - 1 \<in> set ks \<longrightarrow>
       sh_status (a_shared (snd p')) = SWRMT_APPLICATION_READY)"
    by (rule soc_session_chunks [OF env fw _ p1(2)]) (use erased ks in \<open>simp_all\<close>)
  then obtain p' where p': "soc_session ne ae ni ai (map (host_chunk_packet ne fw) ks) p1 = Continue p'"
    "session_inv fw c (set ks) p'" "sh_status (a_shared (snd p')) = SWRMT_APPLICATION_READY"
    using last by auto
  obtain n' a' where na: "p' = (n', a')" by (cases p')
  have "cells (a_flash a') = image_cells fw (set ks) c"
    using p'(2) by (simp add: na session_inv.simps)
  also have "\<dots> = flashed_image fw (cells (a_flash a))"
    by (rule image_cells_all [OF fw ks c_def hw])
  finally show ?thesis using p1(1) p' na by simp
qed

end
