(* ===== verification/Gateway.thy ===== *)
theory Gateway
  imports Bootloader_Facts
begin

text \<open>
  The secure gateway (\<open>bootloader/Source/cmse_implib.c\<close>): the functions the non-secure user image
  calls. A pointer it passes is a 32-bit address into \<open>a_mem\<close>, the memory as the secure side sees
  it. \<open>secure_address\<close> is what the set-up of \<open>Trustzone\<close> makes secure, with the 16 KiB flash
  regions and 8 KiB RAM regions of the nRF5340.
\<close>

section \<open>Memory behind a pointer\<close>

definition mem_bytes :: "appcore \<Rightarrow> u32 \<Rightarrow> nat \<Rightarrow> bytes" where
  "mem_bytes s a n = map (\<lambda>k. a_mem s (a + of_nat k)) [0..<n]"

definition mem_store :: "u32 \<Rightarrow> bytes \<Rightarrow> appcore \<Rightarrow> appcore" where
  "mem_store a bs s =
     s\<lparr>a_mem := fold (\<lambda>k m. m(a + of_nat k := bs ! k)) [0..<length bs] (a_mem s)\<rparr>"

section \<open>The functions\<close>

definition swarmit_keep_alive :: "app_env \<Rightarrow> app_input \<Rightarrow> appcore \<Rightarrow> appcore outcome" where
  "swarmit_keep_alive e i s =
     (let s1 = app_shared (\<lambda>sh. sh\<lparr>battery_level :=
                 battery_level_read (ae_lh2 e) (ai_saadc i)\<rparr>)
                 (s\<lparr>a_wdt0 := (a_wdt0 s)\<lparr>wd_reloads := wd_reloads (a_wdt0 s) + 1\<rparr>\<rparr>)
      in if a_loc_data_available s1
         then (case localization_get_position (ae_lh2 e) (a_loc s1) of
                 None \<Rightarrow> Undefined
               | Some (None, l) \<Rightarrow> Continue (s1\<lparr>a_loc := l\<rparr>)
               | Some (Some p, l) \<Rightarrow>
                   Continue (app_shared (\<lambda>sh. sh\<lparr>current_position := p\<rparr>) (s1\<lparr>a_loc := l\<rparr>)))
         else Continue s1)"

text \<open>The copy's source is \<open>&packet\<close>: the four bytes of the parameter itself and, beyond them, the
  secure stack (\<open>stack\<close>). Its destination holds 253 bytes.\<close>

definition swarmit_send_data_packet ::
    "app_env \<Rightarrow> app_input \<Rightarrow> bytes \<Rightarrow> u32 \<Rightarrow> u8 \<Rightarrow> appcore \<Rightarrow> appcore outcome" where
  "swarmit_send_data_packet e i stack packet len s =
     (if 253 < unat len then Undefined
      else let src = take (unat len) (le32 packet @ stack);
               s1 = s\<lparr>a_tx_data_buffer :=
                  blit 0 (packet_type_code PACKET_DATA # len # src) (a_tx_data_buffer s)\<rparr>
           in mari_node_tx e (ai_time i) (take (2 + unat len) (a_tx_data_buffer s1)) s1)"

definition swarmit_send_raw_data ::
    "app_env \<Rightarrow> app_input \<Rightarrow> u32 \<Rightarrow> u8 \<Rightarrow> appcore \<Rightarrow> appcore outcome" where
  "swarmit_send_raw_data e i packet len s =
     mari_node_tx e (ai_time i) (mem_bytes s packet (unat len)) s"

text \<open>The call of the user image's callback is the event \<open>AE_RxCallback\<close>.\<close>

definition swarmit_ipc_isr :: "appcore \<Rightarrow> appcore" where
  "swarmit_ipc_isr s =
     take_event IPC_CHAN_RADIO_RX (\<lambda>s. app_emit (AE_RxCallback
       (take (unat (pdu_length (rx_pdu (a_shared s)))) (pdu_buffer (rx_pdu (a_shared s))))) s) s"

definition swarmit_init_rng :: "app_env \<Rightarrow> app_input \<Rightarrow> appcore \<Rightarrow> appcore outcome" where
  "swarmit_init_rng e i s = rng_init e (ai_time i) s"

definition swarmit_read_rng :: "app_env \<Rightarrow> app_input \<Rightarrow> u32 \<Rightarrow> appcore \<Rightarrow> appcore outcome" where
  "swarmit_read_rng e i value s = rng_read e (ai_time i) (\<lambda>v. mem_store value [v]) s"

definition swarmit_read_device_id :: "u32 \<Rightarrow> u32 \<Rightarrow> u64" where
  "swarmit_read_device_id id1 id0 = db_device_id id1 id0"

definition log_address_refused :: "u32 \<Rightarrow> bool" where
  "log_address_refused data \<longleftrightarrow>
     (0x20000000 < data \<and> data < 0x20008000) \<or> (0x00000000 < data \<and> data < 0x0000ff00)"

definition swarmit_log_data :: "u32 \<Rightarrow> u32 \<Rightarrow> appcore \<Rightarrow> appcore" where
  "swarmit_log_data data len s =
     (if 127 < len then s
      else if log_address_refused data then s
      else app_emit (AE_IpcSend IPC_CHAN_LOG_EVENT)
             (app_shared (\<lambda>sh. sh\<lparr>sh_log :=
                \<lparr>log_length = ucast len,
                 log_data = blit 0 (mem_bytes s data (unat len)) (log_data (sh_log sh))\<rparr>\<rparr>) s))"

definition swarmit_get_battery_level :: "u32 \<Rightarrow> appcore \<Rightarrow> appcore" where
  "swarmit_get_battery_level battery s = mem_store battery (le16 (battery_level (a_shared s))) s"

definition swarmit_localization_get_position :: "u32 \<Rightarrow> appcore \<Rightarrow> appcore" where
  "swarmit_localization_get_position position s =
     (let s1 = mem_store position (le32 (pos_x (current_position (a_shared s)))) s
      in mem_store (position + 4) (le32 (pos_y (current_position (a_shared s1)))) s1)"

definition swarmit_localization_handle_isr :: "app_env \<Rightarrow> app_input \<Rightarrow> appcore \<Rightarrow> appcore" where
  "swarmit_localization_handle_isr e i s =
     (if a_spim4_end s
      then let l1 = (a_loc s)\<lparr>loc_lh2 := ai_lh2_isr i (loc_lh2 (a_loc s))\<rparr>;
               (available, l2) = localization_process_data (ae_lh2 e) (ai_lh2 i) l1
           in s\<lparr>a_spim4_end := False, a_loc := l2, a_loc_data_available := available\<rparr>
      else s)"

definition swarmit_saadc_read ::
    "app_env \<Rightarrow> app_input \<Rightarrow> u8 \<Rightarrow> u32 \<Rightarrow> appcore \<Rightarrow> appcore" where
  "swarmit_saadc_read e i channel value s =
     (if channel \<noteq> ae_saadc_vddh e \<and> \<not> channel \<le> ae_saadc_vdd e \<and> \<not> ae_saadc_ain0 e \<le> channel
      then s
      else mem_store value (le16 (ai_saadc i)) (app_emit (AE_SaadcRead channel) s))"

section \<open>Keep-alive\<close>

text \<open>A keep-alive reloads watchdog 0 whatever else happens, and publishes a battery level of at most
  3000 mV; it never gets stuck and, with defined coordinates, is never undefined.\<close>

lemma keep_alive_reloads:
  assumes "app_env_ok e" and "app_inv s"
  shows "\<exists>s'. swarmit_keep_alive e i s = Continue s' \<and> app_inv s' \<and>
    wd_reloads (a_wdt0 s') = wd_reloads (a_wdt0 s) + 1 \<and> battery_level (a_shared s') \<le> 3000 \<and>
    a_flash s' = a_flash s"
proof -
  define s1 where "s1 = app_shared (\<lambda>sh. sh\<lparr>battery_level :=
      battery_level_read (ae_lh2 e) (ai_saadc i)\<rparr>)
    (s\<lparr>a_wdt0 := (a_wdt0 s)\<lparr>wd_reloads := wd_reloads (a_wdt0 s) + 1\<rparr>\<rparr>)"
  have s1: "app_inv s1" "wd_reloads (a_wdt0 s1) = wd_reloads (a_wdt0 s) + 1"
    "battery_level (a_shared s1) \<le> 3000" "a_flash s1 = a_flash s"
    using assms(2) battery_level_read_max [of "ae_lh2 e" "ai_saadc i"]
    by (simp_all add: s1_def app_inv_def app_shared_def BATTERY_LEVEL_MAX_MV_def)
  then have "coords_ok (a_loc s1)" by (simp add: app_inv_coords)
  then obtain p l where
    pl: "localization_get_position (ae_lh2 e) (a_loc s1) = Some (p, l)" "coords_ok l"
    using get_position_defined [OF assms(1)] by blast
  show ?thesis
    unfolding swarmit_keep_alive_def Let_def s1_def [symmetric]
    using s1 pl
    by (cases p) (simp_all add: app_inv_coords app_shared_def)
qed

section \<open>The memory map\<close>

definition flash_region_of :: "u32 \<Rightarrow> u8" where
  "flash_region_of a = ucast (a div 0x4000)"

definition ram_region_of :: "u32 \<Rightarrow> u8" where
  "ram_region_of a = ucast ((a - 0x20000000) div 0x2000)"

definition secure_address :: "mdk \<Rightarrow> tz_state \<Rightarrow> u32 \<Rightarrow> bool" where
  "secure_address m z a \<longleftrightarrow>
     (a < 0x100000 \<and> flash_region_secure m z (flash_region_of a)) \<or>
     (0x20000000 \<le> a \<and> a < 0x20080000 \<and> ram_region_secure m z (ram_region_of a))"

end
