(* ===== verification/Single_Core.thy ===== *)
theory Single_Core
  imports Appcore
begin

text \<open>
  The single-core bootloader (\<open>bootloader-single-core/Source/main.c\<close>): radio, protocol and flash
  on one nRF52840, the state of \<open>_bootloader_vars\<close> and \<open>_swarmit_vars\<close> in one record. The
  parameters are those of \<open>Netcore\<close>, and what memory holds behind \<open>req_buffer\<close> (the hash context
  of the library), which an over-long chunk is read from.
\<close>

section \<open>State\<close>

datatype sc_event =
    SE_MariInit u16
  | SE_MariTx mari_tx_config bytes
  | SE_SystemReset
  | SE_Jump u32 u32 u32

record single =
  s_notification_buffer :: bytes
  s_base_addr :: u32
  s_ota_start_request :: bool
  s_ota_require_erase :: bool
  s_ota_chunk_request :: bool
  s_battery_update :: bool
  s_req_received :: bool
  s_log_received :: bool
  s_send_status :: bool
  s_req_buffer :: bytes
  s_expected_hash :: bytes
  s_computed_hash :: bytes
  s_device_id :: u64
  s_metrics_rx_counter :: u32
  s_metrics_tx_counter :: u32
  s_metrics_received :: bool
  s_status :: swrmt_application_status_t
  s_battery_level :: u16
  s_device_type :: swrmt_device_type_t
  s_log :: ipc_log
  s_ota :: ipc_ota
  s_tx_pdu :: radio_pdu
  s_wdt :: watchdog
  s_resetreas :: u32
  s_led :: bool
  s_flash :: flash
  s_out :: "sc_event list"

record sc_env = net_env +
  se_after_req :: "nat \<Rightarrow> bytes"
  se_sreq :: u32
  se_device_type :: swrmt_device_type_t
  se_float :: lh2_env

record sc_input = net_input +
  si_time :: nat
  si_saadc :: u16

definition sc_emit :: "sc_event \<Rightarrow> single \<Rightarrow> single" where
  "sc_emit ev s = s\<lparr>s_out := s_out s @ [ev]\<rparr>"

definition sc_on_ota :: "(ipc_ota \<Rightarrow> ipc_ota) \<Rightarrow> single \<Rightarrow> single" where
  "sc_on_ota g s = s\<lparr>s_ota := g (s_ota s)\<rparr>"

lemmas sc_upd_defs = sc_emit_def sc_on_ota_def

section \<open>Watchdog and radio\<close>

definition setup_watchdog :: "single \<Rightarrow> single" where
  "setup_watchdog s = s\<lparr>s_wdt := (s_wdt s)
     \<lparr>wd_sleep_run := True, wd_halt_pause := True, wd_rr0_enabled := True, wd_crv := 32768 - 1,
      wd_started := True\<rparr>\<rparr>"

text \<open>Past the tests, a packet for the running image is dropped.\<close>

definition sc_handle_packet :: "sc_env \<Rightarrow> u64 \<Rightarrow> (nat \<Rightarrow> u8) \<Rightarrow> u8 \<Rightarrow> single \<Rightarrow> single" where
  "sc_handle_packet e dst packet len s =
     (let s1 = s\<lparr>s_req_buffer := blit 0 (packet_bytes packet len) (s_req_buffer s)\<rparr>;
          packet_type = s_req_buffer s1 ! 0
      in if msg_code SWRMT_MSG_STATUS \<le> packet_type \<and> packet_type \<le> msg_code SWRMT_MSG_OTA_CHUNK
         then s1\<lparr>s_req_received := True\<rparr>
         else if unat len = env_metrics_size e \<and> packet_type = env_metrics_probe e
         then s1\<lparr>s_metrics_received := True\<rparr>
         else s1)"

fun sc_mari_event_callback :: "sc_env \<Rightarrow> mr_event \<Rightarrow> single \<Rightarrow> single" where
  "sc_mari_event_callback e (MARI_NEW_PACKET dst packet len) s = sc_handle_packet e dst packet len s"
| "sc_mari_event_callback e (MARI_CONNECTED _) s = s"
| "sc_mari_event_callback e (MARI_DISCONNECTED _) s = s"
| "sc_mari_event_callback e MARI_ERROR s = s"
| "sc_mari_event_callback e MARI_OTHER s = s"

datatype sc_interrupt = ScMari mr_event | ScReadBattery | ScSendStatus

fun sc_irq :: "sc_env \<Rightarrow> sc_interrupt \<Rightarrow> single \<Rightarrow> single" where
  "sc_irq e (ScMari ev) s = sc_mari_event_callback e ev s"
| "sc_irq e ScReadBattery s = s\<lparr>s_battery_update := True\<rparr>"
| "sc_irq e ScSendStatus s = s\<lparr>s_send_status := True\<rparr>"

section \<open>Start-up\<close>

definition SWARMIT_MARI_NET_ID :: u16 where
  "SWARMIT_MARI_NET_ID = 0x12AA"

definition sc_boots_user_image :: "sc_env \<Rightarrow> single \<Rightarrow> bool" where
  "sc_boots_user_image e s \<longleftrightarrow> s_resetreas s AND se_sreq e \<noteq> 0"

definition sc_main_init :: "sc_env \<Rightarrow> sc_input \<Rightarrow> u32 \<Rightarrow> u32 \<Rightarrow> single \<Rightarrow> single outcome" where
  "sc_main_init e i id1 id0 s =
     (let s1 = sc_emit (SE_MariInit SWARMIT_MARI_NET_ID)
                 (s\<lparr>s_device_id := db_device_id id1 id0, s_device_type := se_device_type e\<rparr>);
          s2 = s1\<lparr>s_battery_level := battery_level_read (se_float e) (si_saadc i)\<rparr>;
          s3 = s2\<lparr>s_resetreas := s_resetreas s2 AND NOT (s_resetreas s2)\<rparr>
      in if sc_boots_user_image e s2
         then Stuck (sc_emit (SE_Jump 0x10000 (cells (s_flash s) 0x10000) (cells (s_flash s) 0x10004))
                (setup_watchdog (s3\<lparr>s_status := SWRMT_APPLICATION_RUNNING\<rparr>)))
         else Continue (s3\<lparr>s_base_addr := 0x10000, s_ota_require_erase := True,
                           s_status := SWRMT_APPLICATION_READY\<rparr>))"

section \<open>Requests\<close>

definition sc_req_start :: "single \<Rightarrow> single outcome" where
  "sc_req_start s =
     (if s_status s \<noteq> SWRMT_APPLICATION_READY then Continue s else Stuck (sc_emit SE_SystemReset s))"

definition sc_req_stop :: "single \<Rightarrow> single outcome" where
  "sc_req_stop s =
     (if s_status s \<noteq> SWRMT_APPLICATION_RUNNING \<and> s_status s \<noteq> SWRMT_APPLICATION_PROGRAMMING
      then Continue s else Continue (setup_watchdog s))"

definition sc_req_ota_start :: "single \<Rightarrow> single outcome" where
  "sc_req_ota_start s =
     (if s_status s \<noteq> SWRMT_APPLICATION_READY \<and> s_status s \<noteq> SWRMT_APPLICATION_PROGRAMMING
      then Continue s
      else let s1 = sc_on_ota (\<lambda>o1. o1\<lparr>ota_last_chunk_acked := - 1\<rparr>) s;
               s2 = s1\<lparr>s_status := SWRMT_APPLICATION_PROGRAMMING\<rparr>;
               pkt = ota_start_of (s_req_buffer s2);
               s3 = sc_on_ota (\<lambda>o1. o1\<lparr>ota_image_size := os_image_size pkt,
                                       ota_chunk_count := os_chunk_count pkt\<rparr>) s2
           in Continue (s3\<lparr>s_ota_start_request := True\<rparr>))"

text \<open>The memory from \<open>ota.chunk\<close> on: the array, then \<open>tx_pdu\<close>, which a copy of up to 255 bytes
  can reach.\<close>

definition sc_ota_tail :: "single \<Rightarrow> bytes" where
  "sc_ota_tail s = ota_chunk (s_ota s) @ [pdu_length (s_tx_pdu s)] @ pdu_buffer (s_tx_pdu s)"

definition sc_memcpy_chunk :: "bytes \<Rightarrow> single \<Rightarrow> single" where
  "sc_memcpy_chunk src s =
     (let m = blit 0 src (sc_ota_tail s)
      in s\<lparr>s_ota := (s_ota s)\<lparr>ota_chunk := sub_bytes 0 128 m\<rparr>,
           s_tx_pdu := \<lparr>pdu_length = get8 128 m, pdu_buffer = sub_bytes 129 255 m\<rparr>\<rparr>)"

definition sc_chunk_source :: "sc_env \<Rightarrow> sc_input \<Rightarrow> single \<Rightarrow> u8 \<Rightarrow> bytes" where
  "sc_chunk_source e i s sz =
     sub_bytes OTA_CHUNK_DATA (unat sz) (s_req_buffer s @ se_after_req e (si_time i))"

definition sc_store_chunk :: "sc_env \<Rightarrow> sc_input \<Rightarrow> ota_chunk_pkt \<Rightarrow> single \<Rightarrow> single" where
  "sc_store_chunk e i pkt s =
     (let s1 = sc_on_ota (\<lambda>o1. o1\<lparr>ota_chunk_size := ucast (oc_chunk_size pkt)\<rparr>) s;
          s2 = sc_memcpy_chunk (sc_chunk_source e i s1 (oc_chunk_size pkt)) s1;
          s3 = s2\<lparr>s_expected_hash :=
                 sub_bytes OTA_CHUNK_SHA SWRMT_OTA_SHA256_LENGTH (s_req_buffer s2)\<rparr>
      in s3\<lparr>s_computed_hash :=
              env_sha256 e (take (unat (ota_chunk_size (s_ota s3))) (sc_ota_tail s3))\<rparr>)"

definition sc_req_ota_chunk :: "sc_env \<Rightarrow> sc_input \<Rightarrow> single \<Rightarrow> single outcome" where
  "sc_req_ota_chunk e i s =
     (if s_status s \<noteq> SWRMT_APPLICATION_PROGRAMMING \<and> s_status s \<noteq> SWRMT_APPLICATION_READY
      then Continue s
      else let pkt = ota_chunk_of (s_req_buffer s);
               s1 = sc_on_ota (\<lambda>o1. o1\<lparr>ota_chunk_index := oc_index pkt\<rparr>) s
           in if ota_chunk_count (s_ota s1) \<le> ota_chunk_index (s_ota s1) then Continue s1
              else if ota_last_chunk_acked (s_ota s1) \<noteq> ota_chunk_index (s_ota s1)
              then let s2 = sc_store_chunk e i pkt s1
                   in if take 8 (s_computed_hash s2) = take 8 (s_expected_hash s2)
                      then Continue (s2\<lparr>s_ota_chunk_request := True\<rparr>)
                      else Continue s2
              else Continue (s1\<lparr>s_ota_chunk_request := True\<rparr>))"

definition sc_dispatch :: "sc_env \<Rightarrow> sc_input \<Rightarrow> single \<Rightarrow> single outcome" where
  "sc_dispatch e i s =
     (case msg_of_code (req_type (s_req_buffer s)) of
        Some SWRMT_MSG_START \<Rightarrow> sc_req_start s
      | Some SWRMT_MSG_STOP \<Rightarrow> sc_req_stop s
      | Some SWRMT_MSG_OTA_START \<Rightarrow> sc_req_ota_start s
      | Some SWRMT_MSG_OTA_CHUNK \<Rightarrow> sc_req_ota_chunk e i s
      | _ \<Rightarrow> Continue s)"

section \<open>The stages of the main loop\<close>

definition sc_notify :: "bytes \<Rightarrow> single \<Rightarrow> single" where
  "sc_notify m s =
     (let s1 = s\<lparr>s_notification_buffer := blit 0 m (s_notification_buffer s)\<rparr>
      in sc_emit (SE_MariTx SWARMIT_TX_DEFAULT (take (length m) (s_notification_buffer s1))) s1)"

definition sc_status_message :: "single \<Rightarrow> bytes" where
  "sc_status_message s =
     msg_code SWRMT_MSG_STATUS # device_code (s_device_type s) # status_code (s_status s) #
     le16 (s_battery_level s) @ position_bytes \<lparr>pos_x = 0, pos_y = 0\<rparr>"

definition sc_stage_status :: "single \<Rightarrow> single outcome" where
  "sc_stage_status s =
     (if s_send_status s
      then Continue (sc_notify (sc_status_message s) (s\<lparr>s_send_status := False\<rparr>))
      else Continue s)"

definition sc_stage_request :: "sc_env \<Rightarrow> sc_input \<Rightarrow> single \<Rightarrow> single outcome" where
  "sc_stage_request e i s =
     (if s_req_received s then sc_dispatch e i (s\<lparr>s_req_received := False\<rparr>) else Continue s)"

definition sc_stage_metrics :: "sc_env \<Rightarrow> sc_input \<Rightarrow> single \<Rightarrow> single outcome" where
  "sc_stage_metrics e i s =
     (if s_metrics_received s
      then let s1 = s\<lparr>s_metrics_received := False,
                      s_metrics_rx_counter := s_metrics_rx_counter s + 1,
                      s_metrics_tx_counter := s_metrics_tx_counter s + 1\<rparr>;
               payload = env_fill_metrics e (s_metrics_rx_counter s1) (in_asn_rx i)
                           (s_metrics_tx_counter s1) (in_asn_tx i) (in_rssi i)
                           (take (env_metrics_size e) (s_req_buffer s1));
               s2 = s1\<lparr>s_req_buffer := blit 0 payload (s_req_buffer s1)\<rparr>
           in Continue (sc_emit
                (SE_MariTx MARI_TX_INTERNAL (take (env_metrics_size e) (s_req_buffer s2))) s2)
      else Continue s)"

definition sc_stage_log :: "sc_input \<Rightarrow> single \<Rightarrow> single outcome" where
  "sc_stage_log i s =
     (if s_log_received s
      then if 127 < unat (log_length (s_log s)) then Undefined
           else Continue (sc_notify (log_message (in_now i) (s_log s)) (s\<lparr>s_log_received := False\<rparr>))
      else Continue s)"

definition sc_erase_image :: "flash_hw \<Rightarrow> u32 \<Rightarrow> flash \<Rightarrow> flash" where
  "sc_erase_image hw image_size f =
     fold (\<lambda>page f. sc_nvmc_page_erase hw (of_nat page + 16) f)
       [0..<unat (image_size div 4096 + (if image_size mod 4096 \<noteq> 0 then 1 else 0))] f"

definition sc_send :: "sc_input \<Rightarrow> bytes \<Rightarrow> single \<Rightarrow> single outcome" where
  "sc_send i m s = and_then (spin (in_connected i) s) (\<lambda>s1. Continue (sc_notify m s1))"

definition sc_stage_ota_start :: "sc_env \<Rightarrow> sc_input \<Rightarrow> single \<Rightarrow> single outcome" where
  "sc_stage_ota_start e i s =
     (if s_ota_start_request s
      then let s1 = s\<lparr>s_ota_start_request := False\<rparr>;
               s2 = (if s_ota_require_erase s1
                     then s1\<lparr>s_flash := sc_erase_image (env_flash_hw e)
                                (ota_image_size (s_ota s1)) (s_flash s1),
                             s_ota_require_erase := False\<rparr>
                     else s1)
           in sc_send i [msg_code SWRMT_MSG_OTA_START_ACK] s2
      else Continue s)"

definition sc_write_chunk :: "sc_env \<Rightarrow> single \<Rightarrow> single" where
  "sc_write_chunk e s =
     (if ota_last_chunk_acked (s_ota s) \<noteq> ota_chunk_index (s_ota s)
      then s\<lparr>s_flash := sc_nvmc_write (env_flash_hw e)
                (s_base_addr s + ota_chunk_index (s_ota s) * 128)
                (sc_ota_tail s) (unat (ota_chunk_size (s_ota s))) (s_flash s),
             s_ota_require_erase := True\<rparr>
      else s)"

definition sc_stage_ota_chunk :: "sc_env \<Rightarrow> sc_input \<Rightarrow> single \<Rightarrow> single outcome" where
  "sc_stage_ota_chunk e i s =
     (if s_ota_chunk_request s
      then let s1 = sc_write_chunk e (s\<lparr>s_ota_chunk_request := False\<rparr>);
               index = ota_chunk_index (s_ota s1);
               s2 = sc_on_ota (\<lambda>o1. o1\<lparr>ota_last_chunk_acked := index\<rparr>) s1
           in and_then (sc_send i (msg_code SWRMT_MSG_OTA_CHUNK_ACK # le32 index) s2)
                (\<lambda>s3. if ota_chunk_index (s_ota s3) = ota_chunk_count (s_ota s3) - 1
                      then Continue (s3\<lparr>s_status := SWRMT_APPLICATION_READY\<rparr>)
                      else Continue s3)
      else Continue s)"

definition sc_stage_battery :: "sc_env \<Rightarrow> sc_input \<Rightarrow> single \<Rightarrow> single outcome" where
  "sc_stage_battery e i s =
     (if s_battery_update s
      then Continue (s\<lparr>s_led := \<not> s_led s,
                       s_battery_level := battery_level_read (se_float e) (si_saadc i),
                       s_battery_update := False\<rparr>)
      else Continue s)"

definition sc_stages :: "sc_env \<Rightarrow> sc_input \<Rightarrow> (single \<Rightarrow> single outcome) list" where
  "sc_stages e i =
     [sc_stage_status, sc_stage_request e i, sc_stage_metrics e i, sc_stage_log i,
      sc_stage_ota_start e i, sc_stage_ota_chunk e i, sc_stage_battery e i]"

section \<open>The invariant\<close>

definition sc_env_ok :: "sc_env \<Rightarrow> bool" where
  "sc_env_ok e \<longleftrightarrow> env_metrics_size e \<le> 255 \<and>
     (\<forall>a b c d r m. length (env_fill_metrics e a b c d r m) = length m) \<and>
     (\<forall>m. length (env_sha256 e m) = SWRMT_OTA_SHA256_LENGTH) \<and>
     (\<forall>t. 14 \<le> length (se_after_req e t))"

definition sc_inv :: "single \<Rightarrow> bool" where
  "sc_inv s \<longleftrightarrow> length (s_notification_buffer s) = 255 \<and> length (s_req_buffer s) = 255 \<and>
     length (log_data (s_log s)) = 127 \<and> unat (log_length (s_log s)) \<le> 127 \<and>
     length (ota_chunk (s_ota s)) = 128 \<and> unat (ota_chunk_size (s_ota s)) \<le> 255 \<and>
     length (pdu_buffer (s_tx_pdu s)) = 255"

lemma sc_inv_emit [simp]: "sc_inv (sc_emit ev s) = sc_inv s"
  by (simp add: sc_inv_def sc_emit_def)

lemma sc_inv_on_ota:
  "sc_inv s \<Longrightarrow> ota_chunk (g (s_ota s)) = ota_chunk (s_ota s) \<Longrightarrow>
   unat (ota_chunk_size (g (s_ota s))) \<le> 255 \<Longrightarrow> sc_inv (sc_on_ota g s)"
  by (simp add: sc_inv_def sc_on_ota_def)

lemma sc_inv_notify: "sc_inv s \<Longrightarrow> length m \<le> 255 \<Longrightarrow> sc_inv (sc_notify m s)"
  by (simp add: sc_notify_def Let_def sc_inv_def sc_emit_def)

lemma sc_inv_send: "sc_inv s \<Longrightarrow> length m \<le> 255 \<Longrightarrow> outcome_ok sc_inv (sc_send i m s)"
  by (simp add: sc_send_def spin_cases sc_inv_notify)

lemma sc_inv_store_chunk:
  assumes "sc_env_ok e" and "sc_inv s"
  shows "sc_inv (sc_store_chunk e i pkt s)"
  using assms unat_u8_le [of "oc_chunk_size pkt"]
  by (simp add: sc_store_chunk_def Let_def sc_inv_def sc_on_ota_def sc_memcpy_chunk_def
        sc_ota_tail_def sc_chunk_source_def sc_env_ok_def OTA_CHUNK_DATA_def)

lemma sc_inv_dispatch:
  assumes "sc_env_ok e" and "sc_inv s"
  shows "outcome_ok sc_inv (sc_dispatch e i s)"
proof -
  have "outcome_ok sc_inv (sc_req_start s)" "outcome_ok sc_inv (sc_req_stop s)"
    using assms(2) by (simp_all add: sc_req_start_def sc_req_stop_def sc_inv_def setup_watchdog_def
        sc_emit_def)
  moreover have "outcome_ok sc_inv (sc_req_ota_start s)"
    using assms(2) by (simp add: sc_req_ota_start_def Let_def sc_inv_def sc_on_ota_def)
  moreover have "sc_inv (sc_on_ota (\<lambda>o1. o1\<lparr>ota_chunk_index := j\<rparr>) s)" for j
    using assms(2) by (simp add: sc_inv_def sc_on_ota_def)
  then have "outcome_ok sc_inv (sc_req_ota_chunk e i s)"
    using assms sc_inv_store_chunk [OF assms(1)]
    by (simp add: sc_req_ota_chunk_def Let_def sc_inv_def)
  ultimately show ?thesis
    using assms(2) by (simp add: sc_dispatch_def split: option.split swrmt_message_type_t.split)
qed

lemma sc_inv_stage_ota_chunk:
  assumes "sc_inv s"
  shows "outcome_ok sc_inv (sc_stage_ota_chunk e i s)"
proof (cases "s_ota_chunk_request s")
  case True
  define s1 where "s1 = sc_write_chunk e (s\<lparr>s_ota_chunk_request := False\<rparr>)"
  define s2 where
    "s2 = sc_on_ota (\<lambda>o1. o1\<lparr>ota_last_chunk_acked := ota_chunk_index (s_ota s1)\<rparr>) s1"
  have "sc_inv s1" using assms by (simp add: s1_def sc_write_chunk_def sc_inv_def)
  then have "sc_inv s2" by (simp add: s2_def sc_inv_def sc_on_ota_def)
  then have ok: "outcome_ok sc_inv (sc_send i (msg_code SWRMT_MSG_OTA_CHUNK_ACK #
      le32 (ota_chunk_index (s_ota s1))) s2)" (is "outcome_ok _ ?r")
    by (intro sc_inv_send) simp_all
  have "sc_stage_ota_chunk e i s = and_then ?r
      (\<lambda>s3. if ota_chunk_index (s_ota s3) = ota_chunk_count (s_ota s3) - 1
            then Continue (s3\<lparr>s_status := SWRMT_APPLICATION_READY\<rparr>) else Continue s3)"
    using True by (simp add: sc_stage_ota_chunk_def Let_def s1_def [symmetric] s2_def [symmetric])
  then show ?thesis using ok by (cases ?r) (simp_all add: sc_inv_def)
qed (use assms in \<open>simp add: sc_stage_ota_chunk_def\<close>)

lemma sc_inv_stages:
  assumes "sc_env_ok e" and "f \<in> set (sc_stages e i)" and inv: "sc_inv s"
  shows "outcome_ok sc_inv (f s)"
proof -
  have flag: "sc_inv (s\<lparr>s_req_received := False\<rparr>)" "sc_inv (s\<lparr>s_send_status := False\<rparr>)"
    "sc_inv (s\<lparr>s_log_received := False\<rparr>)"
    and log: "unat (log_length (s_log s)) \<le> 127" "length (log_data (s_log s)) = 127"
    using inv by (simp_all add: sc_inv_def)
  have "outcome_ok sc_inv (sc_stage_status s)"
    using inv flag(2) by (simp add: sc_stage_status_def sc_inv_notify sc_status_message_def)
  moreover have "outcome_ok sc_inv (sc_stage_request e i s)"
    using inv flag(1) sc_inv_dispatch [OF assms(1)] by (simp add: sc_stage_request_def)
  moreover have "outcome_ok sc_inv (sc_stage_metrics e i s)"
    using inv assms(1) by (simp add: sc_stage_metrics_def Let_def sc_inv_def sc_emit_def sc_env_ok_def)
  moreover have "outcome_ok sc_inv (sc_stage_log i s)"
    using inv flag(3) log by (simp add: sc_stage_log_def log_message_def sc_inv_notify)
  moreover have "outcome_ok sc_inv (sc_stage_ota_start e i s)"
    using inv by (auto simp: sc_stage_ota_start_def Let_def sc_inv_def intro!: sc_inv_send)
  moreover have "outcome_ok sc_inv (sc_stage_battery e i s)"
    using inv by (simp add: sc_stage_battery_def sc_inv_def)
  ultimately show ?thesis
    using assms(2) sc_inv_stage_ota_chunk [OF inv] by (auto simp: sc_stages_def)
qed

lemma sc_inv_handle_packet: "sc_inv s \<Longrightarrow> sc_inv (sc_handle_packet e dst packet len s)"
proof -
  assume inv: "sc_inv s"
  then have "length (blit 0 (packet_bytes packet len) (s_req_buffer s)) = 255"
    using unat_u8_le [of len] by (simp add: sc_inv_def)
  then show ?thesis using inv by (simp add: sc_handle_packet_def Let_def sc_inv_def)
qed

lemma sc_inv_irq: "sc_inv s \<Longrightarrow> sc_inv (sc_irq e ev s)"
proof (cases ev)
  case (ScMari m)
  then show "sc_inv s \<Longrightarrow> ?thesis"
    by (cases m) (simp_all add: sc_inv_handle_packet)
qed (simp_all add: sc_inv_def)

interpretation sc_loop: main_loop "sc_env_ok e" "sc_stages e" "sc_irq e" sc_inv
  for e
  by unfold_locales (auto intro: sc_inv_stages sc_inv_irq)

end
