(* ===== verification/Examples.thy ===== *)
theory Examples
  imports Ota Gateway Single_Core
begin

text \<open>
  Concrete parameters and states for the witnesses: a checksum in place of SHA-256, a probe of
  eight bytes, flash hardware that behaves as documented, both cores just started.
\<close>

definition ex_sha256 :: "bytes \<Rightarrow> bytes" where
  "ex_sha256 m = fold (+) m 7 # replicate 31 0"

definition ex_net_env :: net_env where
  "ex_net_env =
     \<lparr>env_sha256 = ex_sha256, env_metrics_size = 8, env_metrics_probe = 0x9D,
      env_broadcast = 0xFFFFFFFFFFFFFFFF, env_fill_metrics = (\<lambda>_ _ _ _ _ m. m),
      env_flash_hw = nor_hw NET_FLASH_PAGE_SIZE\<rparr>"

definition ex_net_input :: net_input where
  "ex_net_input =
     \<lparr>in_connected = (\<lambda>_. True), in_rng = 42, in_asn_rx = 0, in_asn_tx = 0, in_rssi = 0,
      in_now = 0\<rparr>"

definition ex_lh2_env :: lh2_env where
  "ex_lh2_env =
     \<lparr>le_stations = 4, le_init = (\<lambda>d. d), le_position = (\<lambda>_ a b _ _. (Fin (of_nat (unat a)), Fin (of_nat (unat b)))),
      le_float = (\<lambda>x. x), le_powf = (\<lambda>x _. x * x), le_sqrtf = (\<lambda>x. x)\<rparr>"

definition ex_mdk :: mdk where
  "ex_mdk =
     \<lparr>flash_read = 4, flash_write = 2, flash_execute = 1, flash_secattr_pos = 4,
      flash_secure = 1, flash_nonsecure = 0, ram_read = 4, ram_write = 2, ram_execute = 1,
      ram_secattr_pos = 4, ram_secure = 1, ram_nonsecure = 0, periph_secattr_nonsecure = 0,
      periph_dma_noseparate = 4, periph_dmasec_nonsecure = 0, aircr_vectkey_msk = 0xFFFF0000,
      aircr_vectkey_pos = 16, aircr_pris = 0x4000, aircr_bfhfnmins = 0x2000,
      aircr_sysresetreqs = 8, nsacr_cp10 = 0x400, nsacr_cp11 = 0x800,
      shcsr_securefaultena = 0x80000, ccr_div_0_trp = 16, ccr_unalign_trp = 8\<rparr>"

definition ex_board :: board where
  "ex_board = \<lparr>lh2_e_port = 1, lh2_e_pin = 11, lh2_d_port = 1, lh2_d_pin = 10, dotbot_v3 = True\<rparr>"

definition ex_app_env :: app_env where
  "ex_app_env =
     \<lparr>ae_flash_hw = nor_hw APP_FLASH_PAGE_SIZE, ae_lh2 = ex_lh2_env, ae_mdk = ex_mdk,
      ae_board = ex_board, ae_device_type = SWRMT_DEVICE_TYPE_DOTBOTV3, ae_sreq = 8,
      ae_saadc_vdd = 9, ae_saadc_vddh = 13, ae_saadc_ain0 = 1,
      ae_net = (\<lambda>_ sh _. sh\<lparr>net_ready := True, net_ack := True\<rparr>)\<rparr>"

definition ex_app_input :: app_input where
  "ex_app_input =
     \<lparr>ai_time = 0, ai_saadc = 3000, ai_lh2 = (\<lambda>d. d), ai_lh2_isr = (\<lambda>d. d)\<rparr>"

definition ex_flash :: flash where
  "ex_flash = \<lparr>cells = (\<lambda>_. 0xFFFFFFFF), config_wen = Ren\<rparr>"

definition ex_loc :: localization where
  "ex_loc =
     \<lparr>loc_lh2 = \<lparr>data_ready = (\<lambda>_ _. DB_LH2_NO_NEW_DATA), lfsr_counts = (\<lambda>_ _. 0)\<rparr>,
      loc_coordinates = (Fin 0, Fin 0), loc_position = \<lparr>pos_x = 0, pos_y = 0\<rparr>,
      loc_previous = \<lparr>pos_x = 0, pos_y = 0\<rparr>, loc_homographies = (\<lambda>_. None),
      calibration_loaded = False, lh2_started = False, lh2_running = False\<rparr>"

definition ex_tz :: tz_state where
  "ex_tz =
     \<lparr>spu_flash = (\<lambda>_. 0x17), spu_ram = (\<lambda>_. 0x17), spu_periph = (\<lambda>_. 0x10), spu_gpio = (\<lambda>_. 0xFFFFFFFF),
      nsc_region = 0, nsc_size = 0, scb_aircr = 0, scb_nsacr = 0, scb_shcsr = 0, scb_ccr = 0,
      sau_ctrl = 0, nvic_ns = (\<lambda>_. False)\<rparr>"

definition ex_watchdog :: watchdog where
  "ex_watchdog =
     \<lparr>wd_sleep_run = False, wd_halt_pause = False, wd_rr0_enabled = False, wd_crv = 0,
      wd_started = False, wd_reloads = 0\<rparr>"

text \<open>\<open>_bootloader_vars\<close> zeroed, with a reset reason and a boot intent.\<close>

definition app_reset :: "u32 \<Rightarrow> u32 \<Rightarrow> flash \<Rightarrow> appcore" where
  "app_reset resetreas intent f =
     \<lparr>a_notification_buffer = replicate 255 0, a_base_addr = 0, a_ota_start_request = False,
      a_ota_require_erase = False, a_ota_chunk_request = False, a_lh2_calibration_ready = False,
      a_lh2_capture_request = False, a_lh2_capturing = False, a_start_application = False,
      a_system_reset_requested = False, a_position_update = False, a_battery_update = False,
      a_boot_intent = intent, a_resetreas = resetreas, a_net_forceoff = True,
      a_wdt0 = ex_watchdog, a_wdt1 = ex_watchdog, a_stop_starts_wdt1 = False,
      a_tx_data_buffer = replicate 255 0, a_loc_data_available = False, a_spim4_end = False,
      a_shared = shared_zero, a_flash = f, a_loc = ex_loc, a_tz = ex_tz,
      a_events = (\<lambda>_. False), a_leds = (\<lambda>_. False), a_mem = (\<lambda>_. 0), a_out = []\<rparr>"

definition ex_net :: netcore where
  "ex_net = net_reset shared_zero ex_flash"

text \<open>The bootloader at the start of its loop.\<close>

definition ex_app :: appcore where
  "ex_app = boot_bootloader (app_reset 0 0 ex_flash)"

definition ex_firmware :: bytes where
  "ex_firmware = [1, 2, 3, 4, 5, 6, 7, 8, 9]"

lemma ex_net_env_ok [simp]: "env_ok ex_net_env" "probe_distinct ex_net_env"
  by (simp_all add: env_ok_def ex_net_env_def ex_sha256_def SWRMT_OTA_SHA256_LENGTH_def
        probe_distinct_def is_request_def)

lemma ex_soc_env_ok [simp]: "soc_env_ok ex_net_env ex_app_env ex_net_input"
  by (simp add: soc_env_ok_def connected_def ex_net_input_def ex_app_env_def)

lemma ex_net_inv [simp]: "net_inv ex_net"
  by (simp add: ex_net_def net_inv_reset)

lemma ex_app_inv [simp]: "app_inv ex_app"
  by (simp add: ex_app_def boot_bootloader_def app_reset_def app_inv_def app_shared_def
        app_shared_ok_def ex_loc_def) (simp add: shared_zero_def)

lemma ex_app_env_ok [simp]: "app_env_ok ex_app_env"
  by (simp add: app_env_ok_def ex_app_env_def ex_lh2_env_def)

lemma ex_mdk_ok [simp]: "mdk_ok ex_mdk"
  by (simp add: mdk_ok_def ex_mdk_def bit_simps)

lemma ex_update_ready [simp]: "update_ready (ex_net, ex_app)"
  using ex_net_inv ex_app_inv
  by (simp add: update_ready.simps ex_net_def net_reset_def net_idle_def net_inv_def ex_app_def
        boot_bootloader_def app_reset_def app_shared_def no_ota_events_def)

end
