(* ===== verification/Net_Properties.thy ===== *)
theory Net_Properties
  imports Examples
begin

text \<open>
  The properties of the network core: what its request handlers accept and leave behind, its
  status machine, the configuration it stores, and what it sends. Each property follows the text
  that names its claim; a property with hypotheses is followed by a witness on the states of
  \<open>Examples\<close>.
\<close>

section \<open>Storing a chunk of any size\<close>

lemma unat_ucast_size: "unat (ucast (sz :: u8) :: u32) = unat sz"
  by simp

lemma store_chunk_result:
  assumes inv: "net_inv s"
  shows "n_shared (ota_store_chunk e pkt s) =
      memcpy_ota_chunk (chunk_source s (oc_chunk_size pkt))
        ((n_shared s)\<lparr>ota := (n_ota s)\<lparr>ota_chunk_size := ucast (oc_chunk_size pkt)\<rparr>\<rparr>)"
    and "n_computed_hash (ota_store_chunk e pkt s) = env_sha256 e (chunk_source s (oc_chunk_size pkt))"
    and "n_expected_hash (ota_store_chunk e pkt s) = sub_bytes OTA_CHUNK_SHA SWRMT_OTA_SHA256_LENGTH (n_req_buffer s)"
    and "n_out (ota_store_chunk e pkt s) = n_out s"
proof -
  let ?sz = "oc_chunk_size pkt"
  let ?sh = "(n_shared s)\<lparr>ota := (n_ota s)\<lparr>ota_chunk_size := ucast ?sz\<rparr>\<rparr>"
  let ?src = "chunk_source s ?sz"
  have ok: "shared_ok ?sh" using inv unat_u8_le [of ?sz] by (simp add: net_inv_def shared_ok_def)
  have len: "length ?src = unat ?sz" by (rule length_chunk_source [OF inv])
  then have short: "length ?src \<le> 400" using unat_u8_le [of ?sz] by simp
  have src: "chunk_source (on_ota (\<lambda>o1. o1\<lparr>ota_chunk_size := ucast ?sz\<rparr>) s) ?sz = ?src"
    by (simp add: chunk_source_def)
  have read: "ota_chunk_bytes_read (memcpy_ota_chunk ?src ?sh) = ?src"
    using len by (simp add: ota_chunk_bytes_read_def ota_tail_memcpy [OF ok short] blit_0)
  show "n_shared (ota_store_chunk e pkt s) = memcpy_ota_chunk ?src ?sh"
    by (simp add: ota_store_chunk_def Let_def src) (simp add: on_ota_def)
  show "n_computed_hash (ota_store_chunk e pkt s) = env_sha256 e ?src"
    using read by (simp add: ota_store_chunk_def Let_def src) (simp add: on_ota_def)
  show "n_expected_hash (ota_store_chunk e pkt s) = sub_bytes OTA_CHUNK_SHA SWRMT_OTA_SHA256_LENGTH (n_req_buffer s)"
    "n_out (ota_store_chunk e pkt s) = n_out s"
    by (simp_all add: ota_store_chunk_def Let_def)
qed

definition chunk_verified :: "net_env \<Rightarrow> netcore \<Rightarrow> bool" where
  "chunk_verified e s \<longleftrightarrow>
     (n_status s = SWRMT_APPLICATION_READY \<or> n_status s = SWRMT_APPLICATION_PROGRAMMING) \<and>
     get32 1 (n_req_buffer s) < ota_chunk_count (n_ota s) \<and>
     (ota_last_chunk_acked (n_ota s) = get32 1 (n_req_buffer s) \<or>
      take 8 (env_sha256 e (chunk_source s (n_req_buffer s ! 5))) =
        sub_bytes OTA_CHUNK_SHA 8 (n_req_buffer s))"

lemma take_expected: "take 8 (sub_bytes k SWRMT_OTA_SHA256_LENGTH b) = sub_bytes k 8 b"
  by (simp add: sub_bytes_def SWRMT_OTA_SHA256_LENGTH_def min_def)

lemma net_inv_index: "net_inv s \<Longrightarrow> net_inv (on_ota (\<lambda>o1. o1\<lparr>ota_chunk_index := i\<rparr>) s)"
  by (rule net_inv_on_ota) (simp_all add: net_inv_def shared_ok_def)

lemma chunk_source_index [simp]:
  "chunk_source (on_ota h s) sz = chunk_source s sz"
  by (simp add: chunk_source_def)

text \<open>C9: The network core forwards a chunk to the application core exactly when an update is
  possible, the index is below the announced count, and the chunk was acknowledged just before or
  the first eight bytes of the SHA-256 of its data are the ones the packet carries.\<close>

theorem chunk_forwarded_iff_verified:
  assumes "net_inv s"
  shows "\<exists>s'. net_req_ota_chunk e s = Continue s' \<and>
    n_out s' = n_out s @ (if chunk_verified e s then [NE_IpcSend IPC_CHAN_OTA_CHUNK] else [])"
proof -
  let ?b = "n_req_buffer s"
  let ?s1 = "on_ota (\<lambda>o1. o1\<lparr>ota_chunk_index := get32 1 ?b\<rparr>) s"
  have pkt: "oc_index (ota_chunk_of ?b) = get32 1 ?b" "oc_chunk_size (ota_chunk_of ?b) = ?b ! 5"
    by (simp_all add: ota_chunk_of_def get8_def)
  note st = store_chunk_result [OF net_inv_index [OF assms]]
  show ?thesis
    by (auto simp: net_req_ota_chunk_def Let_def pkt chunk_verified_def hashes_match_def st
          take_expected not_le not_less)
qed

theorem chunk_forwarded_iff_verified_witness:
  "\<exists>s'. net_req_ota_chunk ex_net_env ex_net = Continue s' \<and>
    n_out s' = n_out ex_net @
      (if chunk_verified ex_net_env ex_net then [NE_IpcSend IPC_CHAN_OTA_CHUNK] else [])"
  by (rule chunk_forwarded_iff_verified) simp

text \<open>C11: A chunk whose index is in range and not yet acknowledged is copied over \<open>ota.chunk\<close> with
  the packet's own length, before its hash is looked at: the memory from \<open>ota.chunk\<close> to the end
  of \<open>tx_pdu\<close> is overwritten from its start with up to 255 bytes, whether the hash matches or not.\<close>

theorem chunk_copied_before_check:
  assumes "net_inv s" and "n_status s = SWRMT_APPLICATION_PROGRAMMING"
    and "get32 1 (n_req_buffer s) < ota_chunk_count (n_ota s)"
    and "ota_last_chunk_acked (n_ota s) \<noteq> get32 1 (n_req_buffer s)"
  shows "\<exists>s'. net_req_ota_chunk e s = Continue s' \<and>
    ota_tail (n_shared s') = blit 0 (chunk_source s (n_req_buffer s ! 5)) (ota_tail (n_shared s))"
proof -
  let ?b = "n_req_buffer s"
  let ?s1 = "on_ota (\<lambda>o1. o1\<lparr>ota_chunk_index := get32 1 ?b\<rparr>) s"
  have pkt: "oc_index (ota_chunk_of ?b) = get32 1 ?b" "oc_chunk_size (ota_chunk_of ?b) = ?b ! 5"
    by (simp_all add: ota_chunk_of_def get8_def)
  let ?s2 = "ota_store_chunk e (ota_chunk_of ?b) ?s1"
  have "net_req_ota_chunk e s = Continue (if hashes_match ?s2
      then emit (NE_IpcSend IPC_CHAN_OTA_CHUNK) ?s2 else ?s2)"
    using assms(2-4) by (simp add: net_req_ota_chunk_def Let_def pkt not_le)
  moreover have "ota_tail (n_shared ?s2) = blit 0 (chunk_source s (?b ! 5)) (ota_tail (n_shared s))"
  proof -
    let ?sh = "(n_shared ?s1)\<lparr>ota := (n_ota ?s1)\<lparr>ota_chunk_size := ucast (?b ! 5)\<rparr>\<rparr>"
    have ok: "shared_ok ?sh"
      using assms(1) unat_u8_le [of "?b ! 5"] by (simp add: net_inv_def shared_ok_def on_ota_def)
    have len: "length (chunk_source s (?b ! 5)) \<le> 400"
      using length_chunk_source [OF assms(1), of "?b ! 5"] unat_u8_le [of "?b ! 5"] by simp
    have "ota_tail ?sh = ota_tail (n_shared s)" by (simp add: ota_tail_def on_ota_def)
    then show ?thesis
      using ota_tail_memcpy [OF ok len]
      by (simp add: store_chunk_result(1) [OF net_inv_index [OF assms(1)]] pkt)
  qed
  ultimately show ?thesis by (cases "hashes_match ?s2") auto
qed

text \<open>An update in progress, and a chunk packet of 144 bytes with a wrong hash in the buffer.\<close>

definition ex_net_oversize :: netcore where
  "ex_net_oversize = set_status SWRMT_APPLICATION_PROGRAMMING
     (on_ota (\<lambda>o1. o1\<lparr>ota_chunk_count := 2\<rparr>)
       (ex_net\<lparr>n_req_buffer := ota_chunk_bytes 1 144 (replicate 8 0) (replicate 144 0xEE) @ replicate 97 0\<rparr>))"

lemma ex_net_oversize_inv: "net_inv ex_net_oversize"
  using ex_net_inv
  by (simp add: ex_net_oversize_def net_inv_def set_status_def on_ota_def on_shared_def
        ota_chunk_bytes_def shared_ok_def)

lemma ex_net_oversize_buffer:
  "n_req_buffer ex_net_oversize =
     ota_chunk_bytes 1 144 (replicate 8 0) (replicate 144 0xEE) @ replicate 97 0"
  by (simp add: ex_net_oversize_def set_status_def on_ota_def on_shared_def)

theorem chunk_copied_before_check_witness:
  "\<exists>s'. net_req_ota_chunk ex_net_env ex_net_oversize = Continue s' \<and>
    ota_tail (n_shared s') = blit 0 (chunk_source ex_net_oversize 144) (ota_tail (n_shared ex_net_oversize))"
proof -
  have b: "n_req_buffer ex_net_oversize ! 5 = 144" "get32 1 (n_req_buffer ex_net_oversize) = 1"
    by (simp_all add: ex_net_oversize_buffer ota_chunk_bytes_def le32_def codec_simps nth_append)
      (simp add: get32_def nth_append)?
  have "n_status ex_net_oversize = SWRMT_APPLICATION_PROGRAMMING"
    "1 < ota_chunk_count (n_ota ex_net_oversize)" "ota_last_chunk_acked (n_ota ex_net_oversize) \<noteq> 1"
    by (simp_all add: ex_net_oversize_def ex_net_def net_reset_def shared_zero_def on_ota_def
        on_shared_def set_status_def)
  then show ?thesis
    using chunk_copied_before_check [OF ex_net_oversize_inv, of ex_net_env] b by simp
qed


section \<open>The status machine\<close>

definition next_status ::
    "swrmt_application_status_t \<Rightarrow> swrmt_message_type_t option \<Rightarrow> swrmt_application_status_t" where
  "next_status st m =
     (if m = Some SWRMT_MSG_STOP \<and> st \<in> {SWRMT_APPLICATION_RUNNING, SWRMT_APPLICATION_RESETTING,
           SWRMT_APPLICATION_PROGRAMMING} then SWRMT_APPLICATION_STOPPING
      else if m = Some SWRMT_MSG_RESET \<and> st = SWRMT_APPLICATION_READY
        then SWRMT_APPLICATION_RESETTING
      else if m = Some SWRMT_MSG_OTA_START \<and> st \<in> {SWRMT_APPLICATION_READY,
           SWRMT_APPLICATION_PROGRAMMING} then SWRMT_APPLICATION_PROGRAMMING
      else st)"

lemma status_store [simp]: "n_status (ota_store_chunk e pkt s) = n_status s"
  by (simp add: ota_store_chunk_def Let_def on_ota_def)

lemma status_commit:
  "n_status s = st \<Longrightarrow>
   outcome_ok (\<lambda>s'. n_status s' = st) (commit_config_and_reboot e (s\<lparr>n_config := c\<rparr>))"
  by (simp add: commit_config_and_reboot_def Let_def)


section \<open>Requests that need the bootloader\<close>

definition sends :: "netcore \<Rightarrow> netcore outcome \<Rightarrow> net_event list \<Rightarrow> bool" where
  "sends s r evs = outcome_ok (\<lambda>s'. n_out s' = n_out s @ evs) r"

text \<open>Start, stop, reset, capture and the start of an update send their IPC event exactly in
  the statuses that allow them, and nothing otherwise.\<close>

lemma request_events_guarded:
  "sends s (net_req_start s)
     (if n_status s = SWRMT_APPLICATION_READY then [NE_IpcSend IPC_CHAN_APPLICATION_START] else []) \<and>
   sends s (net_req_stop s)
     (if n_status s = SWRMT_APPLICATION_RUNNING \<or> n_status s = SWRMT_APPLICATION_RESETTING \<or>
         n_status s = SWRMT_APPLICATION_PROGRAMMING
      then [NE_IpcSend IPC_CHAN_APPLICATION_STOP] else []) \<and>
   sends s (net_req_reset s) [] \<and>
   sends s (net_req_lh2_capture s)
     (if n_status s = SWRMT_APPLICATION_READY then [NE_IpcSend IPC_CHAN_LH2_CAPTURE] else []) \<and>
   sends s (net_req_ota_start s)
     (if n_status s = SWRMT_APPLICATION_READY \<or> n_status s = SWRMT_APPLICATION_PROGRAMMING
      then [NE_IpcSend IPC_CHAN_OTA_START] else [])"
  by (simp add: sends_def net_req_start_def net_req_stop_def net_req_reset_def
        net_req_lh2_capture_def net_req_ota_start_def Let_def)

section \<open>Receiving\<close>

text \<open>What a received packet of at least one byte sets: the metrics flag for a probe, the
  request flag for a request, the data flag and \<open>rx_pdu\<close> for a packet to the running image that is
  addressed to this device or broadcast, and nothing else; the packet is in the receive buffer.\<close>

lemma packet_classified:
  assumes "net_inv s" and "0 < len"
  shows "let s' = handle_packet e dst packet len s; t = packet 0;
             probe = (unat len = env_metrics_size e \<and> t = env_metrics_probe e);
             data = (\<not> probe \<and> \<not> is_request t \<and> n_status s = SWRMT_APPLICATION_RUNNING \<and>
                     (dst = env_broadcast e \<or> dst = n_device_id s))
         in take (unat len) (n_req_buffer s') = packet_bytes packet len \<and>
            n_metrics_received s' = (n_metrics_received s \<or> probe) \<and>
            n_req_received s' = (n_req_received s \<or> (\<not> probe \<and> is_request t)) \<and>
            n_data_received s' = (n_data_received s \<or> data) \<and>
            (if data then pdu_length (rx_pdu (n_shared s')) = len \<and>
                          take (unat len) (pdu_buffer (rx_pdu (n_shared s'))) = packet_bytes packet len
             else n_shared s' = n_shared s)"
proof -
  have pos: "0 < unat len" using assms(2) by (simp add: word_less_nat_alt)
  then have "packet_bytes packet len ! 0 = packet 0" by (simp add: packet_bytes_def)
  then have "blit 0 (packet_bytes packet len) (n_req_buffer s) ! 0 = packet 0"
    using pos by (simp add: blit_0 nth_append)
  then show ?thesis
    by (auto simp: handle_packet_def Let_def blit_0 on_shared_def)
qed

section \<open>Messages to the host\<close>

text \<open>The status message is 13 bytes: the type, the device, the status code, the battery level
  and the current position, each read back at its offset.\<close>

lemma status_message_layout:
  "length (status_message sh) = 13 \<and> req_type (status_message sh) = msg_code SWRMT_MSG_STATUS \<and>
   get8 1 (status_message sh) = device_code (device_type sh) \<and>
   get8 2 (status_message sh) = status_code (sh_status sh) \<and>
   get16 3 (status_message sh) = battery_level sh \<and>
   position_of_bytes (sub_bytes 5 8 (status_message sh)) = current_position sh"
proof -
  have b: "get16 3 (a # b # c # le16 w @ r) = w" for a b c :: u8 and w r
    using get16_skip [of "[a, b, c]" 3 "le16 w @ r"] by (simp add: get16_le16)
  have p: "sub_bytes 5 8 (a # b # c # le16 w @ r) = sub_bytes 0 8 r" for a b c :: u8 and w r
    using sub_bytes_append_skip [of "a # b # c # le16 w" 5 8 r] by simp
  have "sub_bytes 0 8 (position_bytes q) = position_bytes q" for q
    by (rule sub_bytes_all) (simp add: position_bytes_def)
  then show ?thesis
    by (simp add: status_message_def b p get8_Cons codec_simps)
qed

text \<open>A message to the host after \<open>notify\<close> is the message itself, with the bootloader's
  protocol, and fits the buffer; a log message is at most 133 bytes.\<close>

lemma log_stage_sends:
  assumes "net_inv s" and "n_ipc_log_received s"
  shows "\<exists>s'. net_stage_log i s = Continue s' \<and>
    n_out s' = n_out s @ [NE_MariTx SWARMIT_TX_DEFAULT (log_message (in_now i) (sh_log (n_shared s)))] \<and>
    length (log_message (in_now i) (sh_log (n_shared s))) \<le> 133 \<and> \<not> n_ipc_log_received s'"
proof -
  have ok: "shared_ok (n_shared s)" using assms(1) by (rule net_inv_shared)
  then have len: "length (log_message (in_now i) (sh_log (n_shared s))) \<le> 133"
    "\<not> 127 < unat (log_length (sh_log (n_shared s)))"
    by (simp_all add: length_log_message) (simp_all add: shared_ok_def)
  then show ?thesis
    using assms(2) by (simp add: net_stage_log_def notify_def Let_def blit_0 emit_def)
qed

section \<open>The configuration page\<close>

text \<open>C29: What the network core commits to its configuration page is what it reads after the reset:
  the configuration with a valid magic, the network identifier if one is provisioned and the default
  otherwise, and, for a count in range, the matrices in the shared RAM with the flag that announces
  them.\<close>

theorem committed_config_reloaded:
  assumes hw: "nor_flash NET_FLASH_PAGE_SIZE (env_flash_hw e)"
    and ok: "matrices_ok (cfg_homographies (n_config s))" and sh: "shared_ok sh"
  shows "\<exists>s'. commit_config_and_reboot e s = Stuck s' \<and>
    (let c = n_config s; b = net_main_init id1 id0 (net_reset sh (n_flash s'))
     in n_config b = c\<lparr>cfg_magic := SWARMIT_CONFIG_MAGIC_VALUE\<rparr> \<and>
        n_mari_net_id b = (if cfg_has_net_id c = 1 then ucast (cfg_net_id c AND 0xFFFF)
                           else SWARMIT_DEFAULT_NET_ID) \<and>
        (if 0 < cfg_homography_count c \<and> unat (cfg_homography_count c) \<le> LH2_BASESTATION_COUNT_MAX
         then n_lh2_calibration_ready b \<and>
              cal_count (lh2_calibration (n_shared b)) = cfg_homography_count c \<and>
              take (unat (cfg_homography_count c)) (cal_homographies (lh2_calibration (n_shared b))) =
              take (unat (cfg_homography_count c)) (cfg_homographies c)
         else \<not> n_lh2_calibration_ready b \<and> n_shared b = sh\<lparr>net_ready := True\<rparr>))"
proof -
  define c where "c = (n_config s)\<lparr>cfg_magic := SWARMIT_CONFIG_MAGIC_VALUE\<rparr>"
  define f where "f = write_config (env_flash_hw e) c (n_flash s)"
  have read: "read_config f = c"
    unfolding f_def by (rule read_write_config [OF hw]) (simp add: c_def ok)
  have dst: "matrices_ok (cal_homographies (lh2_calibration sh))" using sh by (simp add: shared_ok_def)
  have okc: "matrices_ok (cfg_homographies c)" using ok by (simp add: c_def)
  have len: "length (cfg_homographies c) = LH2_BASESTATION_COUNT_MAX"
    using okc by (simp add: matrices_ok_def)
  have commit: "commit_config_and_reboot e s = Stuck (emit (NE_IpcSend IPC_CHAN_SOC_RESET)
      (s\<lparr>n_config := c, n_flash := f\<rparr>))"
    by (simp add: commit_config_and_reboot_def Let_def c_def f_def)
  show ?thesis
    unfolding commit
    using read copy_homographies_eq [OF okc dst] len
    by (auto simp: net_main_init_def load_config_def Let_def net_reset_def on_shared_def emit_def
          config_net_id_def config_calibrated_def c_def)
qed

theorem committed_config_reloaded_witness:
  "\<exists>s'. commit_config_and_reboot ex_net_env ex_net = Stuck s' \<and>
    n_config (net_main_init 1 2 (net_reset shared_zero (n_flash s'))) =
      (n_config ex_net)\<lparr>cfg_magic := SWARMIT_CONFIG_MAGIC_VALUE\<rparr>"
proof -
  have "nor_flash NET_FLASH_PAGE_SIZE (env_flash_hw ex_net_env)" by (simp add: ex_net_env_def)
  moreover have "matrices_ok (cfg_homographies (n_config ex_net))"
    using ex_net_inv by (simp add: net_inv_def)
  ultimately show ?thesis
    using committed_config_reloaded [of ex_net_env ex_net shared_zero 1 2] by (auto simp: Let_def)
qed

text \<open>The page while it is being written, when only the first \<open>j\<close> words have reached the flash.\<close>

definition torn_config :: "flash_hw \<Rightarrow> swarmit_config \<Rightarrow> nat \<Rightarrow> flash \<Rightarrow> flash" where
  "torn_config hw c j f =
     nvmc_write_words hw SWARMIT_NET_CONFIG_START_ADDRESS (config_bytes c) j
       ((net_nvmc_page_erase hw SWARMIT_NET_CONFIG_PAGE f)\<lparr>config_wen := Wen\<rparr>)"

lemma torn_config_word:
  assumes hw: "nor_flash NET_FLASH_PAGE_SIZE hw" and j: "j \<le> 148" and k: "k < 148"
  shows "cells (torn_config hw c j f) (SWARMIT_NET_CONFIG_START_ADDRESS + 4 * of_nat k) =
    (if k < j then get32 (4 * k) (config_bytes c) else 0xFFFFFFFF)"
proof -
  have "cells (torn_config hw c j f) = written SWARMIT_NET_CONFIG_START_ADDRESS (config_bytes c) j
      (cells (net_nvmc_page_erase hw SWARMIT_NET_CONFIG_PAGE f))"
    unfolding torn_config_def using j by (subst cells_write_words [OF hw]) simp_all
  moreover have "cells (net_nvmc_page_erase hw SWARMIT_NET_CONFIG_PAGE f)
      (SWARMIT_NET_CONFIG_START_ADDRESS + 4 * of_nat k) = 0xFFFFFFFF"
    using net_flash.erase_cells [OF hw] config_page_cell [OF k] by simp
  moreover have "unat ((SWARMIT_NET_CONFIG_START_ADDRESS + 4 * of_nat k) -
      SWARMIT_NET_CONFIG_START_ADDRESS) = 4 * k"
    using word_offset_eq [of k "SWARMIT_NET_CONFIG_START_ADDRESS + 4 * of_nat k"
        SWARMIT_NET_CONFIG_START_ADDRESS] k by simp
  ultimately show ?thesis by (simp add: written_def)
qed

text \<open>The magic that gates the page is its first word and is written first: a write of a usable
  calibration interrupted after at least its four header words leaves a page that the next boot
  takes for calibrated, with the entries not yet written read as all ones.\<close>

lemma torn_config_accepted:
  assumes hw: "nor_flash NET_FLASH_PAGE_SIZE hw" and j: "4 \<le> j" "j < 148"
    and ok: "matrices_ok (cfg_homographies c)" and cal: "config_calibrated c"
  shows "config_calibrated (read_config (torn_config hw c j f)) \<and>
    cfg_homographies (read_config (torn_config hw c j f)) ! 15 ! 2 ! 2 = 0xFFFFFFFF"
proof -
  define w where "w = (\<lambda>k. cells (torn_config hw c j f) (SWARMIT_NET_CONFIG_START_ADDRESS + 4 * of_nat k))"
  have word: "w k = (if k < j then get32 (4 * k) (config_bytes c) else 0xFFFFFFFF)" if "k < 148" for k
    unfolding w_def using torn_config_word [OF hw _ that] j by simp
  have c: "config_of_words (\<lambda>k. get32 (4 * k) (config_bytes c)) = c" by (rule config_of_config_bytes [OF ok])
  then have "get32 (4 * 0) (config_bytes c) = cfg_magic c"
    "get32 (4 * 3) (config_bytes c) = cfg_homography_count c"
    by (metis swarmit_config.select_convs(1,4) config_of_words_def)+
  then have "w 0 = cfg_magic c" "w 3 = cfg_homography_count c" "w 147 = 0xFFFFFFFF"
    using word [of 0] word [of 3] word [of 147] j by simp_all
  then show ?thesis
    using cal by (simp add: read_config_def w_def [symmetric] config_of_words_def config_calibrated_def)
qed

end
