(* ===== verification/App_Properties.thy ===== *)
theory App_Properties
  imports Examples
begin

text \<open>
  The properties of the application core: which image it boots and what the TrustZone set-up
  leaves to it, the update stages and the flash, localization, and the secure gateway.
\<close>

section \<open>Booting\<close>

lemma init_localization_result:
  assumes "unat (cal_count (lh2_calibration (a_shared s))) \<le> LH2_BASESTATION_COUNT_MAX"
  obtains l where "init_localization e s = Continue (s\<lparr>a_loc := l\<rparr>)"
  using assms by (simp add: init_localization_def localization_init_def Let_def)

lemma boot_user_image_result:
  "\<exists>s'. boot_user_image e s = Stuck s' \<and> a_boot_intent s' = a_boot_intent s \<and>
     wd_started (a_wdt0 s') \<and> sh_status (a_shared s') = SWRMT_APPLICATION_RUNNING \<and>
     last (a_out s') = AE_JumpNonSecure 0x10000 (cells (a_flash s) 0x10000)
                         (cells (a_flash s) 0x10004 AND NOT 1)"
proof -
  define s1 where "s1 = app_shared (\<lambda>sh. sh\<lparr>sh_status := SWRMT_APPLICATION_RUNNING\<rparr>) s"
  obtain l where l: "(if cal_usable (lh2_calibration (a_shared s1)) then init_localization e s1
      else Continue s1) = Continue (s1\<lparr>a_loc := l\<rparr>)"
  proof (cases "cal_usable (lh2_calibration (a_shared s1))")
    case True
    then have "unat (cal_count (lh2_calibration (a_shared s1))) \<le> LH2_BASESTATION_COUNT_MAX"
      by (simp add: cal_usable_def)
    then show ?thesis using that True by (elim init_localization_result [where e = e]) simp
  next
    case False
    then have "(if cal_usable (lh2_calibration (a_shared s1)) then init_localization e s1
      else Continue s1) = Continue (s1\<lparr>a_loc := a_loc s1\<rparr>)" by simp
    then show ?thesis by (rule that)
  qed
  obtain z where z: "setup_ns_user (ae_mdk e) (ae_board e) (a_tz s1) = Some z"
    using setup_ns_user_result by blast
  show ?thesis
    unfolding boot_user_image_def Let_def s1_def [symmetric] l and_then.simps
    using z by (simp add: with_tz_def setup_watchdog0_def app_emit_def SWARMIT_BASE_ADDRESS_def)
      (simp add: s1_def app_shared_def)
qed

text \<open>C31: After a reset the bootloader jumps to the user image exactly when the reset was a software
  reset and the boot intent asks for it; the jump goes to the image's reset handler, with the status
  running and watchdog 0 started. In every other case it ends up ready in its loop with an erase
  due. The intent is consumed either way, so the next reset without a new request stays in the
  bootloader.\<close>

theorem boot_decision:
  "if a_resetreas s AND ae_sreq e \<noteq> 0 \<and> a_boot_intent s = SWRMT_BOOT_INTENT_USER_IMAGE
   then \<exists>s'. boot_select e s = Stuck s' \<and> a_boot_intent s' = 0 \<and> wd_started (a_wdt0 s') \<and>
          sh_status (a_shared s') = SWRMT_APPLICATION_RUNNING \<and>
          last (a_out s') = AE_JumpNonSecure 0x10000 (cells (a_flash s) 0x10000)
                              (cells (a_flash s) 0x10004 AND NOT 1)
   else \<exists>s'. boot_select e s = Continue s' \<and> a_boot_intent s' = 0 \<and> a_ota_require_erase s' \<and>
          a_base_addr s' = 0x10000 \<and> sh_status (a_shared s') = SWRMT_APPLICATION_READY \<and>
          a_flash s' = a_flash s"
proof (cases "boots_user_image e s")
  case True
  then show ?thesis
    using boot_user_image_result
      [of e "s\<lparr>a_resetreas := a_resetreas s AND NOT (a_resetreas s), a_boot_intent := 0\<rparr>"]
    by (auto simp: boots_user_image_def boot_select_def Let_def)
next
  case False
  then show ?thesis
    by (auto simp: boots_user_image_def boot_select_def boot_bootloader_def Let_def app_shared_def
          SWARMIT_BASE_ADDRESS_def)
qed

text \<open>A start event in the bootloader leads to a system reset from which the user image boots; a
  reset request of the network core leads to one that stays in the bootloader, whatever the reset
  reason.\<close>

lemma reset_requests_boot_as_asked:
  assumes "ae_sreq e \<noteq> 0"
  shows "(a_start_application s \<longrightarrow> (\<exists>s'. app_stage_start s = Stuck s' \<and> last (a_out s') = AE_SystemReset \<and>
            boots_user_image e (s'\<lparr>a_resetreas := ae_sreq e\<rparr>))) \<and>
         (a_system_reset_requested s \<longrightarrow> (\<exists>s'. app_stage_reset s = Stuck s' \<and> last (a_out s') = AE_SystemReset \<and>
            (\<forall>r. \<not> boots_user_image e (s'\<lparr>a_resetreas := r\<rparr>))))"
  using assms
  by (simp add: app_stage_start_def app_stage_reset_def system_reset_def app_emit_def
        boots_user_image_def SWRMT_BOOT_INTENT_USER_IMAGE_def SWRMT_BOOT_INTENT_BOOTLOADER_def)

section \<open>The TrustZone partition\<close>

text \<open>C32: When the user image starts, the first four flash regions are secure and the other sixty are
  not, and the first three RAM regions are secure and the other forty-nine of the 52 set up are not:
  24 KiB of secure RAM, the shared data in the first non-secure region.\<close>

theorem trustzone_partition:
  assumes "mdk_ok m"
  shows "\<exists>z1 z2. main_configure_tz m z = Some z1 \<and> setup_ns_user m b z1 = Some z2 \<and>
    (\<forall>r. unat r < 64 \<longrightarrow> flash_region_secure m z2 r = (unat r < 4)) \<and>
    (\<forall>r. unat r < 52 \<longrightarrow> ram_region_secure m z2 r = (unat r < 3))"
  using set_up_partition [OF assms] .

theorem trustzone_partition_witness:
  "\<exists>z1 z2. main_configure_tz ex_mdk ex_tz = Some z1 \<and> setup_ns_user ex_mdk ex_board z1 = Some z2 \<and>
    flash_region_secure ex_mdk z2 3 \<and> \<not> ram_region_secure ex_mdk z2 3"
  using trustzone_partition [OF ex_mdk_ok, of ex_tz ex_board] by fastforce

text \<open>The set-up opens exactly the peripherals and interrupts of its lists to the user image: every
  other peripheral keeps its permission (the flash controller, the watchdogs, the IPC, the ADC and
  the LH2 bus among them), every other interrupt its target.\<close>

lemma trustzone_peripherals:
  "\<exists>z'. setup_ns_user m b z = Some z' \<and>
    (\<forall>p. p \<notin> fst ` set ns_periphs \<longrightarrow> spu_periph z' p = spu_periph z p) \<and>
    (\<forall>p \<in> {10, 14, 24, 25, 42, 48, 57}. p \<notin> fst ` set ns_periphs) \<and>
    (\<forall>i. nvic_ns z' i = (i \<in> set ns_irqs \<or> nvic_ns z i))"
proof -
  have "map_of ns_periphs p = None" if "p \<notin> fst ` set ns_periphs" for p
    using that by (simp add: map_of_eq_None_iff)
  then show ?thesis
    using setup_ns_user_result [of m b z] by (auto simp: ns_periphs_def)
qed

text \<open>The region loop of \<open>tz.c\<close> ends for every bound up to 255, having set exactly the regions
  from its start below the bound; with a bound of 256 or more its 8-bit counter never gets there.\<close>

lemma region_loop_terminates_iff:
  "(unat bound \<le> 255 \<longrightarrow> region_loop start bound v p =
      Some (\<lambda>q. if unat start \<le> unat q \<and> unat q < unat bound then v else p q)) \<and>
   (256 \<le> unat bound \<longrightarrow> region_loop start bound v p = None)"
proof -
  have "bound = of_nat (unat bound)" by simp
  then show ?thesis using region_loop_upto [of "unat bound" start v p] region_loop_diverges by auto
qed

end
