(* ===== verification/Device_Properties.thy ===== *)
theory Device_Properties
  imports Examples
begin

text \<open>
  The properties of localization, the battery and the watchdogs, and of the secure gateway the user
  image calls.
\<close>

section \<open>Localization\<close>

lemma cd_to_u32_valid:
  "0 \<le> q \<Longrightarrow> q \<le> 100000 \<Longrightarrow> cd_to_u32 (Fin q) = Some (of_int \<lfloor>q\<rfloor>)"
  by simp

definition in_arena :: "rat \<Rightarrow> bool" where
  "in_arena q \<longleftrightarrow> 0 \<le> q \<and> q \<le> 100000"

definition grid_position :: "rat \<Rightarrow> rat \<Rightarrow> position" where
  "grid_position x y = \<lparr>pos_x = of_int \<lfloor>x\<rfloor>, pos_y = of_int \<lfloor>y\<rfloor>\<rparr>"

definition at_origin :: "position \<Rightarrow> bool" where
  "at_origin p \<longleftrightarrow> pos_x p = 0 \<and> pos_y p = 0"

lemma coordinate_valid_fin: "coordinate_invalid (Fin q) \<longleftrightarrow> \<not> in_arena q"
  by (auto simp: coordinate_invalid_def in_arena_def)


definition ex_located :: "nat \<Rightarrow> localization" where
  "ex_located c = ex_loc\<lparr>calibration_loaded := True, loc_previous := \<lparr>pos_x = 10, pos_y = 10\<rparr>,
     loc_coordinates := (Fin (of_nat c), Fin 10)\<rparr>"


definition ready_stations :: "lh2_env \<Rightarrow> localization \<Rightarrow> nat list" where
  "ready_stations le l = take 14 (filter (station_ready (loc_lh2 l)) [0..<le_stations le])"

lemma raw_counts_result:
  "localization_get_raw_counts le (min max_samples LH2_BASESTATION_COUNT_MAX) l =
     (map (sample_of (loc_lh2 l)) (ready_stations le l),
      l\<lparr>loc_lh2 := fold clear_ready (ready_stations le l) (loc_lh2 l), lh2_running := True\<rparr>)"
  by (simp add: localization_get_raw_counts_def raw_loop_result ready_stations_def
        max_samples_def LH2_BASESTATION_COUNT_MAX_def)

lemma station_ready_fold_clear:
  "station_ready (fold clear_ready js d) j \<longleftrightarrow> station_ready d j \<and> j \<notin> set js"
  by (induction js arbitrary: d) auto

lemma ready_stations_all:
  "le_stations le \<le> 14 \<Longrightarrow>
   ready_stations le l = filter (station_ready (loc_lh2 l)) [0..<le_stations le]"
  by (simp add: ready_stations_def) (metis diff_zero length_filter_le length_upt order_trans)

lemma locate_none: "\<forall>j < le_stations le. \<not> station_ready (loc_lh2 l) j \<Longrightarrow> locate le l = l"
  by (simp add: locate_def filter_False)

lemma get_position_stale:
  assumes "\<forall>j < le_stations le. \<not> station_ready (loc_lh2 l) j"
    and "localization_get_position le l = Some (p, l')"
  shows "loc_coordinates l' = loc_coordinates l"
proof -
  have "locate le (l\<lparr>lh2_running := False\<rparr>) = l\<lparr>lh2_running := False\<rparr>"
    using assms(1) by (intro locate_none) simp
  then show ?thesis
    using assms(2)
    by (auto simp: localization_get_position_def Let_def bind_eq_Some_conv
          split: if_splits prod.splits)
qed

text \<open>While the raw counts of a capture are taken, a position update due in the same iteration is
  lost: every ready base station has been cleared, so the position it publishes comes from the
  coordinates of before, and the update is marked done.\<close>

lemma capture_starves_position:
  assumes "le_stations (ae_lh2 e) \<le> 14" and "a_lh2_capturing s" and "a_position_update s"
    and "fst (localization_process_data (ae_lh2 e) (ai_lh2 i) (a_loc s))"
    and "app_stage_localization e i s = Continue s'"
  shows "loc_coordinates (a_loc s') = loc_coordinates (a_loc s) \<and> \<not> a_position_update s' \<and>
    \<not> a_lh2_capturing s'"
proof -
  define l where "l = (a_loc s)\<lparr>loc_lh2 := ai_lh2 i (loc_lh2 (a_loc s))\<rparr>"
  have pd: "localization_process_data (ae_lh2 e) (ai_lh2 i) (a_loc s) = (True, l)"
    using assms(4) by (simp add: localization_process_data_def l_def Let_def)
  obtain j where j: "j < le_stations (ae_lh2 e)" "station_ready (loc_lh2 l) j"
    using assms(4) by (auto simp: localization_process_data_def l_def Let_def list_ex_iff)
  have ne: "ready_stations (ae_lh2 e) l \<noteq> []"
    using j by (auto simp: ready_stations_all [OF assms(1)] filter_empty_conv)
  define s2 where "s2 = capture_samples e (s\<lparr>a_loc := l\<rparr>)"
  have s2: "a_loc s2 = l\<lparr>loc_lh2 := fold clear_ready (ready_stations (ae_lh2 e) l) (loc_lh2 l),
                 lh2_running := True\<rparr>"
    "\<not> a_lh2_capturing s2" "a_position_update s2"
    using ne assms(3)
    by (simp_all add: s2_def capture_samples_def raw_counts_result Let_def app_upd_defs)
  have stale: "\<forall>j < le_stations (ae_lh2 e). \<not> station_ready (loc_lh2 (a_loc s2)) j"
    by (auto simp: s2(1) station_ready_fold_clear ready_stations_all [OF assms(1)])
  have "publish_position e s2 = Continue s'"
    using assms(2,5) s2(3) by (simp add: app_stage_localization_def pd s2_def [symmetric])
  then obtain p l' where "localization_get_position (ae_lh2 e) (a_loc s2) = Some (p, l')"
      "a_loc s' = l'" "\<not> a_position_update s'" "\<not> a_lh2_capturing s'"
    using s2(2)
    by (auto simp: publish_position_def app_shared_def split: option.splits)
  then show ?thesis
    using get_position_stale [OF stale] by (simp add: s2(1) l_def)
qed

text \<open>The controller's reading of a capture message.\<close>

fun decode_samples :: "nat \<Rightarrow> bytes \<Rightarrow> raw_sample list" where
  "decode_samples 0 b = []"
| "decode_samples (Suc n) b =
     \<lparr>rs_lh_index = get8 0 b, rs_count1 = get32 1 b, rs_count2 = get32 5 b\<rparr>
       # decode_samples n (drop 9 b)"

definition log_samples :: "ipc_log \<Rightarrow> raw_sample list" where
  "log_samples lg = decode_samples ((unat (log_length lg) - 1) div 9) (drop 1 (log_data lg))"

lemma decode_sample_bytes:
  "decode_samples (length rs) (concat (map sample_bytes rs) @ r) = rs"
proof (induction rs)
  case (Cons a rs)
  then show ?case
    by (simp add: sample_bytes_def codec_simps)
qed simp

text \<open>What a capture leaves in the log buffer decodes to exactly the counts of the first base
  stations with both sweeps ready, in order, at most fourteen of them, and their data is consumed.\<close>

lemma capture_log_decodes:
  assumes "app_inv s" and "ready_stations (ae_lh2 e) (a_loc s) \<noteq> []"
  shows "log_samples (sh_log (a_shared (capture_samples e s))) =
      map (sample_of (loc_lh2 (a_loc s))) (ready_stations (ae_lh2 e) (a_loc s)) \<and>
    log_data (sh_log (a_shared (capture_samples e s))) ! 0 = SWRMT_LH2_CALIB_TAG \<and>
    (\<forall>j. station_ready (loc_lh2 (a_loc (capture_samples e s))) j \<longleftrightarrow>
       station_ready (loc_lh2 (a_loc s)) j \<and> j \<notin> set (ready_stations (ae_lh2 e) (a_loc s)))"
proof -
  define rs where "rs = map (sample_of (loc_lh2 (a_loc s))) (ready_stations (ae_lh2 e) (a_loc s))"
  have n: "length rs \<le> 14" by (simp add: rs_def ready_stations_def)
  have ne: "rs \<noteq> []" using assms(2) by (simp add: rs_def)
  have len: "length (log_data (sh_log (a_shared s))) = 127"
    using app_inv_shared [OF assms(1)] by (simp add: app_shared_ok_def shared_ok_def)
  have lg: "sh_log (a_shared (capture_samples e s)) =
      \<lparr>log_length = of_nat (length (raw_log rs)),
       log_data = blit 0 (raw_log rs) (log_data (sh_log (a_shared s)))\<rparr>"
    using ne by (simp add: capture_samples_def raw_counts_result Let_def app_upd_defs rs_def)
  have "unat (of_nat (length (raw_log rs)) :: u8) = length (raw_log rs)"
    using n by (simp only: unat_of_nat) (simp add: length_raw_log)
  then have "log_samples (sh_log (a_shared (capture_samples e s))) = rs"
    by (simp add: log_samples_def lg length_raw_log blit_0)
       (simp add: raw_log_def decode_sample_bytes)
  moreover have "log_data (sh_log (a_shared (capture_samples e s))) ! 0 = SWRMT_LH2_CALIB_TAG"
    by (simp add: lg blit_0 raw_log_def)
  moreover have "a_loc (capture_samples e s) = (a_loc s)\<lparr>loc_lh2 :=
      fold clear_ready (ready_stations (ae_lh2 e) (a_loc s)) (loc_lh2 (a_loc s)), lh2_running := True\<rparr>"
    using ne by (simp add: capture_samples_def raw_counts_result Let_def app_upd_defs rs_def)
  ultimately show ?thesis by (simp add: station_ready_fold_clear rs_def)
qed

section \<open>Battery and watchdogs\<close>

text \<open>A battery update publishes a level of at most 3000 mV, leaves every LED off but the one of
  that level, which it toggles, and touches nothing else of the shared RAM.\<close>

lemma battery_stage:
  assumes "a_battery_update s"
  shows "\<exists>s'. app_stage_battery e i s = Continue s' \<and> \<not> a_battery_update s' \<and>
    battery_level (a_shared s') \<le> 3000 \<and>
    a_shared s' = (a_shared s)\<lparr>battery_level := battery_level (a_shared s')\<rparr> \<and>
    (\<forall>l. a_leds s' l \<longleftrightarrow>
       l = (if battery_level (a_shared s') > 2900 then BlueLed
            else if battery_level (a_shared s') > 1500 then GreenLed else RedLed) \<and> \<not> a_leds s l)"
  using assms battery_level_read_max [of "ae_lh2 e" "ai_saadc i"]
  by (simp add: app_stage_battery_def Let_def app_shared_def battery_led_def BATTERY_VOLTAGE_FULL_def
        BATTERY_VOLTAGE_WARNING_def BATTERY_LEVEL_MAX_MV_def)

text \<open>After the set-up, the stop channel alone starts watchdog 1, whose one-second timeout runs on
  in sleep: no code of the user image takes part in stopping it.\<close>

lemma stop_starts_watchdog:
  "\<exists>s1. boot_prepare e s = Continue s1 \<and>
    (\<forall>ch. a_wdt1 (app_ipc_receive ch s1) = (a_wdt1 s)
       \<lparr>wd_sleep_run := True, wd_halt_pause := False, wd_rr0_enabled := True, wd_crv := 32767,
        wd_started := (ch = IPC_CHAN_APPLICATION_STOP \<or> wd_started (a_wdt1 s))\<rparr>)"
proof -
  obtain z where "main_configure_tz (ae_mdk e) (a_tz (setup_watchdog1 s)) = Some z"
    using main_configure_tz_result by blast
  then show ?thesis
    by (auto simp: boot_prepare_def with_tz_def app_ipc_receive_def Let_def setup_watchdog1_def
          app_shared_def)
qed

section \<open>The secure gateway\<close>

lemma flash_region_below: "a < 0x100000 \<Longrightarrow> unat (flash_region_of a) = unat a div 0x4000"
  by (simp add: flash_region_of_def word_less_nat_alt unsigned_ucast_eq take_bit_nat_eq_self_iff
        unat_div less_mult_imp_div_less)

lemma ram_region_below:
  assumes "0x20000000 \<le> a" and "a < 0x20080000"
  shows "unat (ram_region_of a) = (unat a - 0x20000000) div 0x2000"
proof -
  have "unat (a - 0x20000000) = unat a - 0x20000000"
    using assms(1) by (simp add: unat_sub)
  moreover have "unat a - 0x20000000 < 64 * 0x2000"
    using assms by (simp add: word_less_nat_alt word_le_nat_alt)
  then have "(unat a - 0x20000000) div 0x2000 < 64" by (rule less_mult_imp_div_less)
  ultimately show ?thesis
    by (simp add: ram_region_of_def unsigned_ucast_eq take_bit_nat_eq_self_iff unat_div)
qed

lemma secure_address_partitioned:
  assumes flash: "\<And>r. unat r < 64 \<Longrightarrow> flash_region_secure m z r = (unat r < 4)"
    and ram: "\<And>r. unat r < 52 \<Longrightarrow> ram_region_secure m z r = (unat r < 3)"
    and a: "a < 0x20068000"
  shows "secure_address m z a \<longleftrightarrow> a < 0x10000 \<or> 0x20000000 \<le> a \<and> a < 0x20006000"
proof -
  have "flash_region_secure m z (flash_region_of a) = (unat a < 0x10000)" if "a < 0x100000"
  proof -
    have "unat a < 64 * 0x4000" using that by (simp add: word_less_nat_alt)
    then have "unat a div 0x4000 < 64" by (rule less_mult_imp_div_less)
    then show ?thesis
      using flash [of "flash_region_of a"] flash_region_below [OF that]
      by (simp add: div_less_iff_less_mult)
  qed
  moreover have "ram_region_secure m z (ram_region_of a) = (unat a < 0x20006000)"
    if "0x20000000 \<le> a"
  proof -
    have "a < 0x20080000" using a by (rule less_trans) simp
    note r = ram_region_below [OF that this]
    have "unat a - 0x20000000 < 52 * 0x2000"
      using a that by (simp add: word_less_nat_alt word_le_nat_alt)
    then have "(unat a - 0x20000000) div 0x2000 < 52" by (rule less_mult_imp_div_less)
    then show ?thesis
      using ram [of "ram_region_of a"] r that
      by (simp add: div_less_iff_less_mult word_le_nat_alt) linarith
  qed
  ultimately show ?thesis
    using a by (auto simp: secure_address_def word_less_nat_alt word_le_nat_alt)
qed



text \<open>\<open>swarmit_read_rng\<close> and \<open>swarmit_get_battery_level\<close> write through the caller's pointer
  wherever it points, secure memory included: the byte at every address is the caller's choice of
  target or unchanged.\<close>

lemma gateway_writes_anywhere:
  assumes "swarmit_read_rng e i p s = Continue s'"
  shows "a_mem s' = (a_mem s)(p := rng_value (a_shared s')) \<and>
    a_mem (swarmit_get_battery_level q s) =
      (a_mem s)(q := ucast (battery_level (a_shared s)),
                q + 1 := ucast (drop_bit 8 (battery_level (a_shared s))))"
  using assms
  by (cases "ipc_network_call e (ai_time i) IPC_RNG_READ_REQ s")
    (auto simp: swarmit_read_rng_def rng_read_def mem_store_def swarmit_get_battery_level_def
          le16_def dest: ipc_call_frame)

text \<open>\<open>swarmit_send_data_packet\<close> sends its own argument, the four bytes of the pointer, and never
  what the pointer points to; a length beyond 253 overruns the buffer.\<close>

lemma send_data_packet_sends_pointer:
  assumes "length (a_tx_data_buffer s) = 255" and "len \<le> 4"
  shows "swarmit_send_data_packet e i stack p len s =
      mari_node_tx e (ai_time i)
        (packet_type_code PACKET_DATA # len # take (unat len) (le32 p))
        (s\<lparr>a_tx_data_buffer := blit 0 (packet_type_code PACKET_DATA # len # take (unat len) (le32 p))
             (a_tx_data_buffer s)\<rparr>) \<and>
    (253 < n \<longrightarrow> swarmit_send_data_packet e i stack p n s = Undefined)"
proof -
  have n: "unat len \<le> 4" using assms(2) by (simp add: word_le_nat_alt)
  then show ?thesis
    using assms(1)
    by (simp add: swarmit_send_data_packet_def Let_def blit_0 word_less_nat_alt)
qed

end
