(* ===== verification/Updater.thy ===== *)
theory Updater
  imports Ota
begin

text \<open>
  What the device promises the testbed controller during an update, without its two cores: an
  announcement and the chunks of one image, in any order and repeated, act on a flash whose words
  are simply stored. \<open>updater_of\<close> is the abstraction of the two cores; the interpretation of
  \<open>refinement\<close> shows that \<open>soc_packet\<close> implements every operation.
\<close>

section \<open>The specification\<close>

datatype update_op = Announce | Chunk nat

record updater =
  up_cells :: "u32 \<Rightarrow> u32"
  up_erase_due :: bool
  up_ready :: bool
  up_reply :: bytes

text \<open>An announcement erases the pages of the image unless nothing was stored since the last erase. A
  chunk is stored over what was there.\<close>

definition erase_pages :: "bytes \<Rightarrow> (u32 \<Rightarrow> u32) \<Rightarrow> u32 \<Rightarrow> u32" where
  "erase_pages fw c b = (if in_image_pages fw b then 0xFFFFFFFF else c b)"

definition store_chunk :: "bytes \<Rightarrow> nat \<Rightarrow> (u32 \<Rightarrow> u32) \<Rightarrow> u32 \<Rightarrow> u32" where
  "store_chunk fw k c b =
     (let j = unat (b - SWARMIT_BASE_ADDRESS)
      in if j mod 4 = 0 \<and> j div 4 < length fw div 4 \<and> j div 128 = k then get32 j fw else c b)"

fun update_step :: "bytes \<Rightarrow> update_op \<Rightarrow> updater \<Rightarrow> updater" where
  "update_step fw Announce u =
     \<lparr>up_cells = if up_erase_due u then erase_pages fw (up_cells u) else up_cells u,
      up_erase_due = False, up_ready = False, up_reply = [msg_code SWRMT_MSG_OTA_START_ACK]\<rparr>"
| "update_step fw (Chunk k) u =
     \<lparr>up_cells = store_chunk fw k (up_cells u), up_erase_due = True,
      up_ready = up_ready u \<or> k = chunk_count fw - 1,
      up_reply = msg_code SWRMT_MSG_OTA_CHUNK_ACK # le32 (of_nat k)\<rparr>"

fun valid_op :: "bytes \<Rightarrow> update_op \<Rightarrow> bool" where
  "valid_op fw Announce = True"
| "valid_op fw (Chunk k) \<longleftrightarrow> k < chunk_count fw"

section \<open>The two cores behind it\<close>

fun op_packet :: "net_env \<Rightarrow> bytes \<Rightarrow> update_op \<Rightarrow> bytes" where
  "op_packet ne fw Announce = host_start_packet fw"
| "op_packet ne fw (Chunk k) = host_chunk_packet ne fw k"

definition updater_of :: "netcore \<times> appcore \<Rightarrow> updater" where
  "updater_of p =
     \<lparr>up_cells = cells (a_flash (snd p)), up_erase_due = a_ota_require_erase (snd p),
      up_ready = (sh_status (a_shared (snd p)) = SWRMT_APPLICATION_READY),
      up_reply = sent_bytes (a_shared (snd p))\<rparr>"

text \<open>Between two packets of an update that has been announced: the stored chunks lie on erased
  flash, and an erase is due as soon as there are any.\<close>

definition image_erased :: "bytes \<Rightarrow> (u32 \<Rightarrow> u32) \<Rightarrow> bool" where
  "image_erased fw c \<longleftrightarrow>
     (\<forall>b. unat (b - SWARMIT_BASE_ADDRESS) div 4 < length fw div 4 \<longrightarrow> c b = 0xFFFFFFFF)"

definition update_announced :: "bytes \<Rightarrow> netcore \<times> appcore \<Rightarrow> bool" where
  "update_announced fw p \<longleftrightarrow>
     (\<exists>c W. session_inv fw c W p \<and> image_erased fw c \<and> (W = {} \<or> a_ota_require_erase (snd p)))"

lemma session_cells: "session_inv fw c W p \<Longrightarrow> cells (a_flash (snd p)) = image_cells fw W c"
  by (cases p) (simp add: session_inv.simps)

lemma store_chunk_cells: "store_chunk fw k (image_cells fw W c) = image_cells fw (insert k W) c"
  by (rule ext) (auto simp: store_chunk_def image_cells_def in_chunks_def Let_def)

lemma image_cells_none: "image_cells fw {} c = c"
  by (rule ext) (simp add: image_cells_def in_chunks_def)

lemma erase_image_pages:
  assumes "nor_flash APP_FLASH_PAGE_SIZE hw" and "length fw \<le> 2 ^ 31"
  shows "cells (erase_image hw (of_nat (length fw)) f) = erase_pages fw (cells f)"
proof -
  have "unat (of_nat (length fw) :: u32) = length fw" using assms(2) by (intro of_nat_u32) simp
  then show ?thesis
    using assms by (simp add: fun_eq_iff erase_image_range erase_pages_def in_image_pages_def)
qed

lemma erase_pages_erased: "length fw \<le> 2 ^ 31 \<Longrightarrow> image_erased fw (erase_pages fw c)"
  using image_in_pages by (simp add: image_erased_def erase_pages_def)

text \<open>An announcement, the first one or a later one.\<close>

lemma announce_refines:
  assumes env: "soc_env_ok ne ae ni" and fw: "length fw \<le> 2 ^ 31"
    and p: "update_ready p \<or> update_announced fw p"
  shows "\<exists>p'. soc_packet ne ae ni ai (host_start_packet fw) p = Continue p' \<and>
    update_announced fw p' \<and> updater_of p' = update_step fw Announce (updater_of p)"
proof -
  obtain n a where na: "p = (n, a)" by (cases p)
  have idle: "update_idle (n, a)"
    using p na by (auto simp: update_ready_iff update_announced_def dest: session_idle)
  have hw: "nor_flash APP_FLASH_PAGE_SIZE (ae_flash_hw ae)" using env by (simp add: soc_env_ok_def)
  define c where "c = (if a_ota_require_erase a then erase_pages fw (cells (a_flash a)) else cells (a_flash a))"
  have c: "c = cells (if a_ota_require_erase a
      then erase_image (ae_flash_hw ae) (of_nat (length fw)) (a_flash a) else a_flash a)"
    by (simp add: c_def erase_image_pages [OF hw fw])
  obtain p' where p': "soc_packet ne ae ni ai (host_start_packet fw) (n, a) = Continue p'"
    "session_inv fw c {} p'" "sh_status (a_shared (snd p')) = SWRMT_APPLICATION_PROGRAMMING"
    "\<not> a_ota_require_erase (snd p')"
    "sent_bytes (a_shared (snd p')) = [msg_code SWRMT_MSG_OTA_START_ACK]"
    using soc_packet_start [OF env fw idle c, of ai] by blast
  have erased: "image_erased fw c"
  proof (cases "a_ota_require_erase a")
    case False
    then obtain c0 where "session_inv fw c0 {} p" "image_erased fw c0"
      using p na by (auto simp: update_ready_iff update_announced_def)
    then show ?thesis
      using False session_cells na by (fastforce simp: c_def image_cells_none)
  qed (simp add: c_def erase_pages_erased [OF fw])
  then have "update_announced fw p'" using p'(2) unfolding update_announced_def by blast
  moreover have "updater_of p' = update_step fw Announce (updater_of p)"
    using p'(3-5) session_cells [OF p'(2)] by (simp add: updater_of_def na c_def image_cells_none)
  ultimately show ?thesis using p'(1) na by blast
qed

lemma chunk_refines:
  assumes env: "soc_env_ok ne ae ni" and fw: "length fw \<le> 2 ^ 31"
    and p: "update_announced fw p" and k: "k < chunk_count fw"
  shows "\<exists>p'. soc_packet ne ae ni ai (host_chunk_packet ne fw k) p = Continue p' \<and>
    update_announced fw p' \<and> updater_of p' = update_step fw (Chunk k) (updater_of p)"
proof -
  obtain n a where na: "p = (n, a)" by (cases p)
  obtain c W where c: "session_inv fw c W (n, a)" "image_erased fw c"
    using p na by (auto simp: update_announced_def)
  obtain p' where p': "soc_packet ne ae ni ai (host_chunk_packet ne fw k) (n, a) = Continue p'"
    "session_inv fw c (insert k W) p'"
    "sh_status (a_shared (snd p')) = (if k = chunk_count fw - 1 then SWRMT_APPLICATION_READY
                                      else sh_status (a_shared a))"
    "a_ota_require_erase (snd p')"
    "sent_bytes (a_shared (snd p')) = msg_code SWRMT_MSG_OTA_CHUNK_ACK # le32 (of_nat k)"
    using soc_packet_chunk [OF env fw _ c(1) k, of ai] c(2) by (auto simp: image_erased_def)
  have "updater_of p' = update_step fw (Chunk k) (updater_of p)"
    using p'(3-5) session_cells [OF p'(2)] session_cells [OF c(1)]
    by (simp add: updater_of_def na store_chunk_cells)
  moreover have "update_announced fw p'" using p'(2,4) c(2) unfolding update_announced_def by blast
  ultimately show ?thesis using p'(1) na by blast
qed

interpretation updater: refinement "soc_env_ok ne ae ni \<and> length fw \<le> 2 ^ 31" "valid_op fw"
    "update_announced fw" "\<lambda>op. soc_packet ne ae ni ai (op_packet ne fw op)" "update_step fw" updater_of
  for ne ae ni ai fw
proof unfold_locales
  fix op p
  assume "soc_env_ok ne ae ni \<and> length fw \<le> 2 ^ 31" "valid_op fw op" "update_announced fw p"
  then show "\<exists>p'. soc_packet ne ae ni ai (op_packet ne fw op) p = Continue p' \<and>
      update_announced fw p' \<and> updater_of p' = update_step fw op (updater_of p)"
    using announce_refines chunk_refines by (cases op) simp_all
qed

lemma soc_session_run: "soc_session ne ae ni ai ps p = run_stages (map (soc_packet ne ae ni ai) ps) p"
  by (induction ps arbitrary: p) (simp_all, metis and_then.elims and_then.simps)

end
