(* ===== verification/Update_Properties.thy ===== *)
theory Update_Properties
  imports Net_Properties App_Properties Updater
begin

text \<open>
  The properties of the firmware update, from the controller's packets to the flash and the next
  boot: what a whole update achieves, and what the update stages do outside the controller's
  schedule.
\<close>

section \<open>A whole update\<close>

text \<open>C1: An update of both cores, idle and in the bootloader, with the controller's packets for a
  non-empty image of up to 2 GiB ends ready, with every whole word of the image at its place above
  the base address, the rest of the image's pages erased, and every other word of the flash as it
  was: whatever the order in which the chunks arrive and however often each does.\<close>

theorem firmware_update_flashes_image:
  assumes "soc_env_ok ne ae ni" and "length fw \<le> 2 ^ 31" and "fw \<noteq> []" and "update_ready (n, a)"
    and "set ks = {..<chunk_count fw}"
  shows "\<exists>n' a'. soc_session ne ae ni ai
      (host_start_packet fw # map (host_chunk_packet ne fw) ks) (n, a) = Continue (n', a') \<and>
    cells (a_flash a') = flashed_image fw (cells (a_flash a)) \<and>
    sh_status (a_shared a') = SWRMT_APPLICATION_READY"
  by (rule update_session [OF assms(1,2,4,5,3)])

lemma ex_chunks: "set [0, 0] = {..<chunk_count ex_firmware}"
  by (auto simp: chunk_count_def CHUNK_SIZE_def ex_firmware_def)

theorem firmware_update_flashes_image_witness:
  "\<exists>n' a'. soc_session ex_net_env ex_app_env ex_net_input ex_app_input
      (host_start_packet ex_firmware # map (host_chunk_packet ex_net_env ex_firmware) [0, 0])
      (ex_net, ex_app) = Continue (n', a') \<and>
    cells (a_flash a') 0x10004 = 0x08070605 \<and> sh_status (a_shared a') = SWRMT_APPLICATION_READY"
proof -
  have "flashed_image ex_firmware c 0x10004 = 0x08070605" for c
    by (simp add: flashed_image_def SWARMIT_BASE_ADDRESS_def ex_firmware_def get32_def)
  then show ?thesis
    using firmware_update_flashes_image [OF ex_soc_env_ok _ _ ex_update_ready ex_chunks]
    by (fastforce simp: ex_firmware_def)
qed

text \<open>After an update a start request is forwarded to the application core, whose bootloader notes that
  it is to boot the image and resets.\<close>

lemma update_then_start:
  assumes "soc_env_ok ne ae ni" and "length fw \<le> 2 ^ 31" and "fw \<noteq> []"
    and "update_ready (n, a)" and "set ks = {..<chunk_count fw}"
  obtains n' a' a2 where "soc_session ne ae ni ai
      (host_start_packet fw # map (host_chunk_packet ne fw) ks) (n, a) = Continue (n', a')"
    and "sends (n'\<lparr>n_shared := a_shared a'\<rparr>) (net_req_start (n'\<lparr>n_shared := a_shared a'\<rparr>))
      [NE_IpcSend IPC_CHAN_APPLICATION_START]"
    and "app_stage_start (a'\<lparr>a_start_application := True\<rparr>) = Stuck a2"
    and "a_boot_intent a2 = SWRMT_BOOT_INTENT_USER_IMAGE"
    and "cells (a_flash a2) = flashed_image fw (cells (a_flash a))"
proof -
  obtain n' a' where up: "soc_session ne ae ni ai
      (host_start_packet fw # map (host_chunk_packet ne fw) ks) (n, a) = Continue (n', a')"
    "cells (a_flash a') = flashed_image fw (cells (a_flash a))"
    "sh_status (a_shared a') = SWRMT_APPLICATION_READY"
    using update_session [OF assms(1,2,4,5,3)] by blast
  define a2 where "a2 = app_emit AE_SystemReset
    (a'\<lparr>a_start_application := True, a_boot_intent := SWRMT_BOOT_INTENT_USER_IMAGE\<rparr>)"
  have "app_stage_start (a'\<lparr>a_start_application := True\<rparr>) = Stuck a2"
    by (simp add: app_stage_start_def system_reset_def a2_def)
  then show ?thesis
    by (rule that [OF up(1), rotated])
       (use up(2,3) in \<open>simp_all add: sends_def net_req_start_def emit_def app_emit_def a2_def\<close>)
qed

text \<open>C6: The device refines the specification of an update in \<open>Updater\<close>: whatever announcements and chunks
  of an image follow the first announcement, in any order and however often repeated, both cores
  take every packet, and what the controller can observe (the flash, whether the next announcement
  erases, the ready status, the reply) is what the specification computes.\<close>

theorem update_refines:
  assumes "soc_env_ok ne ae ni" and "length fw \<le> 2 ^ 31" and "update_ready p"
    and "list_all (valid_op fw) ops"
  shows "\<exists>p'. soc_session ne ae ni ai (map (op_packet ne fw) (Announce # ops)) p = Continue p' \<and>
    updater_of p' = fold (update_step fw) (Announce # ops) (updater_of p)"
proof -
  obtain p1 where p1: "soc_packet ne ae ni ai (host_start_packet fw) p = Continue p1"
    "update_announced fw p1" "updater_of p1 = update_step fw Announce (updater_of p)"
    using announce_refines [OF assms(1,2), of p ai] assms(3) by blast
  then show ?thesis
    using updater.run_refines [of ne ae ni fw ops p1 ai] assms
    by (auto simp: soc_session_run comp_def)
qed

theorem update_refines_witness:
  "\<exists>p'. soc_session ex_net_env ex_app_env ex_net_input ex_app_input
      (map (op_packet ex_net_env ex_firmware) [Announce, Chunk 0, Announce, Chunk 0]) (ex_net, ex_app)
      = Continue p' \<and> up_cells (updater_of p') 0x10004 = 0x08070605 \<and> up_ready (updater_of p') \<and>
    up_reply (updater_of p') = [0x87, 0, 0, 0, 0]"
proof -
  have ops: "list_all (valid_op ex_firmware) [Chunk 0, Announce, Chunk 0]"
    by (simp add: chunk_count_def CHUNK_SIZE_def ex_firmware_def)
  have "store_chunk ex_firmware 0 c 0x10004 = 0x08070605" for c
    by (simp add: store_chunk_def SWARMIT_BASE_ADDRESS_def ex_firmware_def get32_def)
  moreover have "chunk_count ex_firmware = 1"
    by (simp add: chunk_count_def CHUNK_SIZE_def ex_firmware_def)
  moreover have "length ex_firmware \<le> 2 ^ 31" by (simp add: ex_firmware_def)
  ultimately show ?thesis
    using update_refines [OF ex_soc_env_ok _ ex_update_ready ops, of ex_app_input]
    by (fastforce simp: le32_def)
qed

text \<open>The last one to three bytes of an image whose length is not a multiple of four are never
  written, though every chunk is acknowledged and the update ends ready: their word stays erased.\<close>

lemma unaligned_tail_lost:
  assumes "soc_env_ok ne ae ni" and "length fw \<le> 2 ^ 31" and "update_ready (n, a)"
    and "set ks = {..<chunk_count fw}" and "length fw mod 4 \<noteq> 0"
  shows "\<exists>n' a'. soc_session ne ae ni ai
      (host_start_packet fw # map (host_chunk_packet ne fw) ks) (n, a) = Continue (n', a') \<and>
    sh_status (a_shared a') = SWRMT_APPLICATION_READY \<and>
    cells (a_flash a') (0x10000 + 4 * of_nat (length fw div 4)) = 0xFFFFFFFF"
proof -
  have "fw \<noteq> []" using assms(5) by auto
  then obtain n' a' where up: "soc_session ne ae ni ai
      (host_start_packet fw # map (host_chunk_packet ne fw) ks) (n, a) = Continue (n', a')"
    "cells (a_flash a') = flashed_image fw (cells (a_flash a))"
    "sh_status (a_shared a') = SWRMT_APPLICATION_READY"
    using update_session [OF assms(1-4)] by blast
  define d where "d = 4 * (length fw div 4)"
  have d: "d < length fw" "d div 4 = length fw div 4"
    using assms(5) mult_div_mod_eq [of 4 "length fw"] unfolding d_def by linarith simp
  have off: "unat (0x10000 + 4 * of_nat (length fw div 4) - SWARMIT_BASE_ADDRESS) = d"
  proof -
    have "(0x10000 + 4 * of_nat (length fw div 4) - SWARMIT_BASE_ADDRESS :: u32) = of_nat d"
      by (simp add: SWARMIT_BASE_ADDRESS_def d_def)
    moreover have "unat (of_nat d :: u32) = d" using d(1) assms(2) by (intro of_nat_u32) simp
    ultimately show ?thesis by simp
  qed
  have "unat (0x10000 + 4 * of_nat (length fw div 4) :: u32) = 0x10000 + d"
    using unat_above_base [of "0x10000 + 4 * of_nat (length fw div 4)"] off d(1) assms(2) by simp
  moreover have "(0x10000 + d) div 4096 < 16 + (length fw + 4095) div 4096"
  proof -
    have "(d + 4096) div 4096 \<le> (length fw + 4095) div 4096"
      using d(1) by (intro div_le_mono) simp
    then show ?thesis by simp
  qed
  ultimately have "in_image_pages fw (0x10000 + 4 * of_nat (length fw div 4))"
    by (simp add: in_image_pages_def)
  then show ?thesis using up by (auto simp: flashed_image_def Let_def off d(2))
qed

section \<open>The update stages outside the schedule\<close>


definition ex_start :: "u32 \<Rightarrow> appcore" where
  "ex_start n = app_shared (\<lambda>sh. sh\<lparr>ota := (ota sh)\<lparr>ota_image_size := n\<rparr>\<rparr>)
     (ex_app\<lparr>a_ota_start_request := True\<rparr>)"

lemma ex_call_returns: "\<exists>s'. ipc_network_call ex_app_env t req s = Continue s'"
  by (simp add: ipc_network_call_def wait_shared_def Let_def ex_app_env_def spin_until.simps [of _ 0])

lemma ex_start_stage:
  "a_ota_start_request s \<Longrightarrow> \<exists>s'. app_stage_ota_start ex_app_env i s = Continue s'"
  using ex_call_returns
  by (simp add: app_stage_ota_start_def Let_def app_notify_def mari_node_tx_def)

lemma ex_start_request [simp]: "a_ota_start_request (ex_start n)"
  by (simp add: ex_start_def app_shared_def)


text \<open>Once an update has started and no chunk of it has been written, a second start erases
  nothing, whatever image size it announces: the pages beyond the first announcement keep what
  they held.\<close>

lemma second_start_skips_erase:
  assumes "a_ota_start_request s" and "app_stage_ota_start e i s = Continue s1"
    and "app_stage_ota_start e i' ((app_irq (AppShared sh) s1)\<lparr>a_ota_start_request := True\<rparr>) = Continue s2"
  shows "a_flash s2 = a_flash s1 \<and> \<not> a_ota_require_erase s2"
  using stage_start_flash(2) [OF assms(2,1)] stage_start_flash [OF assms(3)] by auto

text \<open>C12: The application core reads the shared chunk when it gets to it, and the network core
  overwrites it with the next packet before its hash is checked. A chunk whose hash does not match
  raises no event; but with the event of the chunk before still pending, it is flashed at its own
  index.\<close>

theorem unverified_chunk_flashed:
  assumes "net_inv n" and "n_status n = SWRMT_APPLICATION_PROGRAMMING"
    and "idx < ota_chunk_count (n_ota n)" and "ota_last_chunk_acked (n_ota n) \<noteq> idx"
    and "length data \<le> 128" and "length sha = 8" and "take 8 (env_sha256 ne data) \<noteq> sha"
    and "n_req_buffer n = ota_chunk_bytes idx (of_nat (length data)) sha data @ r"
    and "a_ota_chunk_request a"
  shows "\<exists>n' src. net_req_ota_chunk ne n = Continue n' \<and> n_out n' = n_out n \<and>
    take (length data) src = data \<and>
    (\<forall>a'. app_stage_ota_chunk ae ai (a\<lparr>a_shared := n_shared n'\<rparr>) = Continue a' \<longrightarrow>
       a_flash a' = app_nvmc_write (ae_flash_hw ae) (chunk_addr (a_base_addr a) idx) src
                      (length data) (a_flash a))"
proof -
  obtain h h' where n': "net_req_ota_chunk ne n = Continue
      (n\<lparr>n_shared := chunk_stored idx data (n_shared n), n_expected_hash := h,
         n_computed_hash := h'\<rparr>)" (is "_ = Continue ?n'")
    using net_chunk_result [OF assms(1,6) _ assms(3,5,8), of ne] assms(2,4,7) by auto
  have "unat (of_nat (length data) :: u32) = length data"
    using assms(5) by (intro of_nat_u32) simp
  then have flash: "a_flash a' = app_nvmc_write (ae_flash_hw ae) (chunk_addr (a_base_addr a) idx)
      (ota_tail (chunk_stored idx data (n_shared n))) (length data) (a_flash a)"
    if "app_stage_ota_chunk ae ai (a\<lparr>a_shared := n_shared ?n'\<rparr>) = Continue a'" for a'
    using stage_chunk_flash [OF that] assms(4,9)
    by (simp add: write_chunk_def chunk_stored_def)
  have "take (length data) (ota_tail (chunk_stored idx data (n_shared n))) = data"
    using assms(1,4,5) by (simp add: chunk_stored_def ota_tail_def net_inv_def shared_ok_def blit_0)
  then show ?thesis using n' flash by (intro exI conjI allI impI) (assumption | simp)+
qed

definition ex_bad_chunk :: bytes where
  "ex_bad_chunk = ota_chunk_bytes 1 4 (replicate 8 0) [9, 9, 9, 9]"

definition ex_net_bad :: netcore where
  "ex_net_bad = set_status SWRMT_APPLICATION_PROGRAMMING
     (on_ota (\<lambda>o1. o1\<lparr>ota_chunk_count := 2\<rparr>)
        (ex_net\<lparr>n_req_buffer := ex_bad_chunk @ replicate (255 - length ex_bad_chunk) 0\<rparr>))"

lemma ex_net_bad_facts:
  "net_inv ex_net_bad" "n_status ex_net_bad = SWRMT_APPLICATION_PROGRAMMING"
  "ota_chunk_count (n_ota ex_net_bad) = 2" "ota_last_chunk_acked (n_ota ex_net_bad) = 0"
proof -
  have "length ex_bad_chunk = 18" by (simp add: ex_bad_chunk_def ota_chunk_bytes_def)
  then show "net_inv ex_net_bad"
    using ex_net_inv
    by (simp add: ex_net_bad_def set_status_def on_shared_def on_ota_def net_inv_def shared_ok_def)
  show "n_status ex_net_bad = SWRMT_APPLICATION_PROGRAMMING"
    "ota_chunk_count (n_ota ex_net_bad) = 2" "ota_last_chunk_acked (n_ota ex_net_bad) = 0"
    by (simp_all add: ex_net_bad_def set_status_def on_shared_def on_ota_def ex_net_def net_reset_def
          shared_zero_def)
qed

theorem unverified_chunk_flashed_witness:
  "\<exists>n' src. net_req_ota_chunk ex_net_env ex_net_bad = Continue n' \<and> n_out n' = n_out ex_net_bad \<and>
    take 4 src = [9, 9, 9, 9 :: u8]"
proof -
  let ?data = "[9, 9, 9, 9] :: bytes"
  have "env_sha256 ex_net_env ?data = 43 # replicate 31 0"
    by (simp add: ex_net_env_def ex_sha256_def)
  then have bad: "take 8 (env_sha256 ex_net_env ?data) \<noteq> replicate 8 0"
    by (auto dest: arg_cong [where f = hd])
  have buf: "n_req_buffer ex_net_bad = ota_chunk_bytes 1 (of_nat (length ?data)) (replicate 8 0)
      ?data @ replicate (255 - length ex_bad_chunk) 0"
    by (simp add: ex_net_bad_def set_status_def on_shared_def on_ota_def ex_bad_chunk_def)
  have idx: "(1 :: u32) < ota_chunk_count (n_ota ex_net_bad)" "ota_last_chunk_acked (n_ota ex_net_bad) \<noteq> 1"
    "length ?data \<le> 128" "length (replicate 8 (0 :: u8)) = 8"
    "a_ota_chunk_request (ex_app\<lparr>a_ota_chunk_request := True\<rparr>)"
    by (simp_all add: ex_net_bad_facts)
  obtain n' src where "net_req_ota_chunk ex_net_env ex_net_bad = Continue n'"
    "n_out n' = n_out ex_net_bad" "take (length ?data) src = ?data"
    using unverified_chunk_flashed [OF ex_net_bad_facts(1,2) idx(1-4) bad buf idx(5)] by metis
  moreover have "length ?data = 4" by simp
  ultimately show ?thesis by metis
qed

text \<open>C13: A device that was never told of an image takes its chunks all the same: a ready device whose
  flash holds another image, and whose chunk count covers the index, ANDs each whole word of a
  broadcast chunk over its flash without erasing it, acknowledges the chunk and stays ready.\<close>

theorem bystander_overwritten:
  assumes env: "soc_env_ok ne ae ni" and fw: "length fw \<le> 2 ^ 31" "length old \<le> 2 ^ 31"
    and idle: "update_idle (n, a)" and ready: "sh_status (a_shared a) = SWRMT_APPLICATION_READY"
    and old: "ota_chunk_count (ota (a_shared a)) = of_nat (chunk_count old)"
      "cells (a_flash a) = flashed_image old c"
    and k: "k < chunk_count fw" "k < chunk_count old" "ota_last_chunk_acked (ota (a_shared a)) \<noteq> of_nat k"
  shows "\<exists>n' a'. soc_packet ne ae ni ai (host_chunk_packet ne fw k) (n, a) = Continue (n', a') \<and>
    sent_bytes (a_shared a') = msg_code SWRMT_MSG_OTA_CHUNK_ACK # le32 (of_nat k) \<and>
    sh_status (a_shared a') = SWRMT_APPLICATION_READY \<and>
    (\<forall>j. 4 dvd j \<longrightarrow> j div 128 = k \<longrightarrow> j + 4 \<le> length fw \<longrightarrow> j + 4 \<le> length old \<longrightarrow>
       cells (a_flash a') (SWARMIT_BASE_ADDRESS + of_nat j) = get32 j old AND get32 j fw)"
proof -
  define sh1 where "sh1 = chunk_stored (of_nat k) (host_chunk fw k) (a_shared a)"
  have hw: "nor_flash APP_FLASH_PAGE_SIZE (ae_flash_hw ae)" and ok: "shared_ok (a_shared a)"
    and base: "a_base_addr a = SWARMIT_BASE_ADDRESS"
    using env idle by (simp_all add: soc_env_ok_def update_idle.simps net_inv_def)
  have "(of_nat k :: u32) < ota_chunk_count (ota (a_shared a))"
    using k(2) chunk_count_small [OF fw(2)] by (simp add: old(1) word_less_nat_alt of_nat_u32)
  then obtain n' a' v where p: "soc_packet ne ae ni ai (host_chunk_packet ne fw k) (n, a) = Continue (n', a')"
    "a_flash a' = a_flash (write_chunk ae (a\<lparr>a_shared := sh1\<rparr>))"
    "a_shared a' = (sent_shared (msg_code SWRMT_MSG_OTA_CHUNK_ACK # le32 (of_nat k)) v
      (sh1\<lparr>ota := (ota sh1)\<lparr>ota_last_chunk_acked := of_nat k\<rparr>\<rparr>))
      \<lparr>sh_status := if of_nat k = ota_chunk_count (ota (a_shared a)) - 1 then SWRMT_APPLICATION_READY
                    else sh_status (a_shared a)\<rparr>"
    using soc_packet_any_chunk [OF env idle k(1) _ sh1_def, of ai] by blast
  have "cells (a_flash a') = chunk_ands fw k (flashed_image old c)"
    using write_stored_ands [OF hw fw(1) k(1), of "a\<lparr>a_shared := sh1\<rparr>"] k(3) ok base old(2) p(2)
    by (simp add: sh1_def)
  moreover have "chunk_ands fw k (flashed_image old c) (SWARMIT_BASE_ADDRESS + of_nat j) = get32 j old AND get32 j fw"
    if j: "4 dvd j" "j div 128 = k" "j + 4 \<le> length fw" "j + 4 \<le> length old" for j
  proof -
    have "unat (of_nat j :: u32) = j" using j(3) fw(1) by (intro of_nat_u32) simp
    moreover have "j div 4 < length fw div 4" using j(1,3) by (auto simp: less_div4)
    ultimately show ?thesis
      using j(1,2) flashed_word [OF fw(2) j(1,4)] by (simp add: chunk_ands_def)
  qed
  ultimately show ?thesis using p(1,3) ready by auto
qed

definition ex_bystander :: appcore where
  "ex_bystander = ex_app\<lparr>a_flash := (a_flash ex_app)\<lparr>cells := flashed_image ex_firmware (\<lambda>_. 0xFFFFFFFF)\<rparr>,
     a_shared := (a_shared ex_app)\<lparr>ota := (ota (a_shared ex_app))\<lparr>ota_chunk_count := 1, ota_last_chunk_acked := 7\<rparr>\<rparr>\<rparr>"

theorem bystander_overwritten_witness:
  "\<exists>n' a'. soc_packet ex_net_env ex_app_env ex_net_input ex_app_input
      (host_chunk_packet ex_net_env (replicate 8 0xF0) 0) (ex_net, ex_bystander) = Continue (n', a') \<and>
    cells (a_flash a') 0x10004 = 0x00000000"
proof -
  have "update_idle (ex_net, ex_bystander)"
    using ex_update_ready by (simp add: ex_bystander_def update_ready.simps update_idle.simps net_inv_def
        net_idle_def no_ota_events_def shared_ok_def)
  moreover have "sh_status (a_shared ex_bystander) = SWRMT_APPLICATION_READY"
    by (simp add: ex_bystander_def ex_app_def boot_bootloader_def app_reset_def app_shared_def)
  ultimately obtain n' a' where p: "soc_packet ex_net_env ex_app_env ex_net_input ex_app_input
      (host_chunk_packet ex_net_env (replicate 8 0xF0) 0) (ex_net, ex_bystander) = Continue (n', a')"
    and w: "\<forall>j. 4 dvd j \<longrightarrow> j div 128 = 0 \<longrightarrow> j + 4 \<le> length (replicate 8 (0xF0 :: u8)) \<longrightarrow> j + 4 \<le> length ex_firmware \<longrightarrow>
       cells (a_flash a') (SWARMIT_BASE_ADDRESS + of_nat j) = get32 j ex_firmware AND get32 j (replicate 8 0xF0)"
    using bystander_overwritten [OF ex_soc_env_ok, of "replicate 8 0xF0" ex_firmware ex_net ex_bystander
        "\<lambda>_. 0xFFFFFFFF" 0 ex_app_input]
    by (auto simp: ex_bystander_def chunk_count_def CHUNK_SIZE_def ex_firmware_def)
  have "cells (a_flash a') 0x10004 = get32 4 ex_firmware AND get32 4 (replicate 8 0xF0)"
    using w [rule_format, of 4] by (simp add: ex_firmware_def SWARMIT_BASE_ADDRESS_def)
  also have "\<dots> = 0" by (simp add: ex_firmware_def get32_def)
  finally show ?thesis using p by blast
qed

text \<open>Chunk indices below 0x1FFFE00 address the image, chunk after chunk from the base address; the
  512 after that wrap round to the bootloader's own flash. Nothing but the announced count limits
  the index.\<close>

lemma chunk_address_range:
  "(unat idx < 0x1FFFE00 \<longrightarrow> unat (chunk_addr SWARMIT_BASE_ADDRESS idx) = 0x10000 + 128 * unat idx) \<and>
   (0x1FFFE00 \<le> unat idx \<and> unat idx < 0x2000000 \<longrightarrow>
      unat (chunk_addr SWARMIT_BASE_ADDRESS idx) = 128 * (unat idx - 0x1FFFE00))"
proof -
  have "chunk_addr SWARMIT_BASE_ADDRESS idx = of_nat (0x10000 + 128 * unat idx)"
    by (simp add: chunk_addr_def SWARMIT_BASE_ADDRESS_def SWRMT_OTA_CHUNK_SIZE_def mult.commute)
  then have addr: "unat (chunk_addr SWARMIT_BASE_ADDRESS idx) = (0x10000 + 128 * unat idx) mod 4294967296"
    by (simp only: unat_of_nat) simp
  have lower: "(0x10000 + 128 * k) mod 4294967296 = 0x10000 + 128 * k" if "k < 0x1FFFE00" for k :: nat
    using that by (intro mod_less) simp
  have upper: "(0x10000 + 128 * k) mod 4294967296 = 128 * (k - 0x1FFFE00)"
    if "0x1FFFE00 \<le> k" "k < 0x2000000" for k :: nat
  proof -
    have eq: "0x10000 + 128 * k = 128 * (k - 0x1FFFE00) + 4294967296" using that(1) by simp
    have "128 * (k - 0x1FFFE00) < 4294967296" using that(2) by simp
    then show ?thesis unfolding eq mod_add_self2 by (rule mod_less)
  qed
  show ?thesis unfolding addr using lower upper by blast
qed

text \<open>The update ends, ready, on the chunk with the last index, and on no other: no record is kept
  of the chunks written before it.\<close>

lemma ready_iff_last_index:
  assumes "net_idle n" and "connected ni" and "ae_net e = (\<lambda>_. net_answers ne ni n)"
    and "a_ota_chunk_request a" and "\<not> a_ota_start_request a" and "length (a_notification_buffer a) = 255"
    and "sh_status (a_shared a) = SWRMT_APPLICATION_PROGRAMMING"
  shows "\<exists>a'. run_stages [app_stage_ota_start e i, app_stage_ota_chunk e i] a = Continue a' \<and>
    (sh_status (a_shared a') = SWRMT_APPLICATION_READY \<longleftrightarrow>
       ota_chunk_index (ota (a_shared a)) = ota_chunk_count (ota (a_shared a)) - 1) \<and>
    ota_last_chunk_acked (ota (a_shared a')) = ota_chunk_index (ota (a_shared a))"
  using app_takes_chunk [OF assms(1-3,5,4,6) refl, of i] assms(7) by auto

end
