(* ===== verification/Arm_Core.thy ===== *)
theory Arm_Core
  imports Main_Loop
begin

text \<open>
  A core as the start-up code sees it (\<open>System/\<close> of every project): memory by word address, the
  special registers of the processor, and the peripheral registers the code writes. A register
  the code names through Nordic's headers (\<open>NRF_CLOCK->HFCLKSRC\<close>) is a constructor of \<open>reg\<close>; one
  it writes as a number (\<open>0x5000470C\<close>) is a word of \<open>c_mem\<close>.

  Writing a register stores the value, except where the product specification says otherwise:
  the reset reason and the hard fault status clear the bits written as one, and a word of UICR
  is flash, which takes a write only while the flash controller's CONFIG register enables it
  (the value \<open>wen\<close> of the header, here its documented 1) and can only clear bits.
\<close>

datatype reg =
    EVENTS_HFCLKSTARTED | TASKS_HFCLKSTART | HFCLKSRC | HFCLKCTRL
  | EVENTS_LFCLKSTARTED | TASKS_LFCLKSTART | LFCLKSRC
  | XOSC32MTRIM | XOSC32MCAPS | XOSC32KI_INTCAP | PIN_CNF nat
  | CPACR | NSACR | SAU_CTRL | DEMCR
  | RESETREAS | EVENTS_SLEEPENTER | EVENTS_SLEEPEXIT
  | RAMREGION_PERM u32 | GPIOPORT0_PERM
  | NVMC_CONFIG | NFCPINS | PSELRESET nat | NRFMDK nat
  | TAD_ENABLE | TAD_CLOCKSTART | TAD_TRACEPORTSPEED | PSEL_TRACECLK | PSEL_TRACEDATA nat
  | TRACECONFIG | EVENTS_DONE | EVENTS_CTTO | CTIV | TEMP nat | FICR_TEMP nat | MAXPACKETSIZE
  | VREGRADIO_DCDCEN | VREGMAIN_DCDCEN | VREGH_DCDCEN
  | SHCSR | CFSR | MMFAR | BFAR | HFSR | DFSR | AFSR | SFSR

datatype core_event = CE_SystemReset | CE_Call u32 | CE_Main

record clock_state_t =
  hf_enabled :: bool
  lf_enabled :: bool

record core =
  c_mem :: "u32 \<Rightarrow> u32"
  c_reg :: "reg \<Rightarrow> u32"
  c_msp :: u32
  c_psp :: u32
  c_control :: u32
  c_msplim :: u32
  c_psplim :: u32
  c_clock :: clock_state_t
  c_out :: "core_event list"

fun uicr_reg :: "reg \<Rightarrow> bool" where
  "uicr_reg NFCPINS = True"
| "uicr_reg (PSELRESET i) = True"
| "uicr_reg (NRFMDK i) = True"
| "uicr_reg _ = False"

definition reg_after :: "(reg \<Rightarrow> u32) \<Rightarrow> reg \<Rightarrow> u32 \<Rightarrow> u32" where
  "reg_after rs r v =
     (if r = RESETREAS \<or> r = HFSR then rs r AND NOT v
      else if uicr_reg r then (if rs NVMC_CONFIG = 1 then rs r AND v else rs r)
      else v)"

text \<open>Assignment, \<open>|=\<close> and \<open>&= ~\<close> of a register, and a store to a numbered address.\<close>

definition wr :: "reg \<Rightarrow> u32 \<Rightarrow> core \<Rightarrow> core" where
  "wr r v c = c\<lparr>c_reg := (c_reg c)(r := reg_after (c_reg c) r v)\<rparr>"

definition set_bits :: "reg \<Rightarrow> u32 \<Rightarrow> core \<Rightarrow> core" where
  "set_bits r v c = wr r (c_reg c r OR v) c"

definition clr_bits :: "reg \<Rightarrow> u32 \<Rightarrow> core \<Rightarrow> core" where
  "clr_bits r v c = wr r (c_reg c r AND NOT v) c"

definition st :: "u32 \<Rightarrow> u32 \<Rightarrow> core \<Rightarrow> core" where
  "st a v c = c\<lparr>c_mem := (c_mem c)(a := v)\<rparr>"

definition emit :: "core_event \<Rightarrow> core \<Rightarrow> core" where
  "emit ev c = c\<lparr>c_out := c_out c @ [ev]\<rparr>"

text \<open>An \<open>#if\<close> or \<open>if\<close> without an \<open>else\<close>.\<close>

definition only_if :: "bool \<Rightarrow> ('a \<Rightarrow> 'a) \<Rightarrow> 'a \<Rightarrow> 'a" where
  "only_if b f x = (if b then f x else x)"

text \<open>Statements in the order of the source.\<close>

primrec steps :: "('a \<Rightarrow> 'a) list \<Rightarrow> 'a \<Rightarrow> 'a" where
  "steps [] x = x"
| "steps (f # fs) x = steps fs (f x)"

named_theorems core_simps \<open>what one register write or store changes\<close>

lemma wr_simps [core_simps, simp]:
  "c_reg (wr r v c) = (c_reg c)(r := reg_after (c_reg c) r v)"
  "c_mem (wr r v c) = c_mem c" "c_msp (wr r v c) = c_msp c" "c_psp (wr r v c) = c_psp c"
  "c_control (wr r v c) = c_control c" "c_msplim (wr r v c) = c_msplim c"
  "c_psplim (wr r v c) = c_psplim c" "c_clock (wr r v c) = c_clock c" "c_out (wr r v c) = c_out c"
  by (simp_all add: wr_def)

lemma st_simps [core_simps, simp]:
  "c_mem (st a v c) = (c_mem c)(a := v)" "c_reg (st a v c) = c_reg c"
  "c_msp (st a v c) = c_msp c" "c_psp (st a v c) = c_psp c"
  "c_control (st a v c) = c_control c" "c_msplim (st a v c) = c_msplim c"
  "c_psplim (st a v c) = c_psplim c" "c_clock (st a v c) = c_clock c" "c_out (st a v c) = c_out c"
  by (simp_all add: st_def)

lemma emit_simps [core_simps, simp]:
  "c_mem (emit ev c) = c_mem c" "c_reg (emit ev c) = c_reg c"
  "c_msp (emit ev c) = c_msp c" "c_psp (emit ev c) = c_psp c"
  "c_control (emit ev c) = c_control c" "c_msplim (emit ev c) = c_msplim c"
  "c_psplim (emit ev c) = c_psplim c" "c_clock (emit ev c) = c_clock c"
  "c_out (emit ev c) = c_out c @ [ev]"
  by (simp_all add: emit_def)

lemma bits_mem [core_simps, simp]:
  "c_mem (set_bits r v c) = c_mem c" "c_mem (clr_bits r v c) = c_mem c"
  "c_clock (set_bits r v c) = c_clock c" "c_clock (clr_bits r v c) = c_clock c"
  "c_out (set_bits r v c) = c_out c" "c_out (clr_bits r v c) = c_out c"
  "c_msp (set_bits r v c) = c_msp c" "c_msp (clr_bits r v c) = c_msp c"
  "c_psp (set_bits r v c) = c_psp c" "c_psp (clr_bits r v c) = c_psp c"
  by (simp_all add: set_bits_def clr_bits_def)

lemma bits_reg [core_simps, simp]:
  "c_reg (set_bits r v c) = (c_reg c)(r := reg_after (c_reg c) r (c_reg c r OR v))"
  "c_reg (clr_bits r v c) = (c_reg c)(r := reg_after (c_reg c) r (c_reg c r AND NOT v))"
  by (simp_all add: set_bits_def clr_bits_def)

lemma only_if_simps [simp]: "only_if True f x = f x" "only_if False f x = x"
  by (simp_all add: only_if_def)

end
