(* ===== verification/Word_Copy.thy ===== *)
theory Word_Copy
  imports Arm_Core
begin

text \<open>
  The word-copying loops of the start-up code, over pointers that may wrap: a loop that never
  ends is \<open>None\<close>. \<open>block_copy\<close> and \<open>block_zero\<close> say what a loop means to do, as one function of
  the address; \<open>no_clobber\<close> is when a copy may run through overlapping blocks.
\<close>

type_synonym word_mem = "u32 \<Rightarrow> u32"

section \<open>The loops\<close>

text \<open>\<open>while (dst < end) { *dst++ = *src++; }\<close>\<close>

partial_function (option) copy_words :: "u32 \<Rightarrow> u32 \<Rightarrow> u32 \<Rightarrow> word_mem \<Rightarrow> word_mem option" where
  "copy_words src dst stop m =
     (if dst < stop then copy_words (src + 4) (dst + 4) stop (m(dst := m src)) else Some m)"

text \<open>The same loop left by a \<open>break\<close> when source and destination coincide.\<close>

partial_function (option) copy_words_break ::
    "u32 \<Rightarrow> u32 \<Rightarrow> u32 \<Rightarrow> word_mem \<Rightarrow> word_mem option" where
  "copy_words_break src dst stop m =
     (if dst < stop
      then if dst = src then Some m
           else copy_words_break (src + 4) (dst + 4) stop (m(dst := m src))
      else Some m)"

text \<open>The loop over \<open>.tdata\<close>, whose test is the other way round and whose \<open>++\<close> are inside the
  test: \<open>while (dst < end) { if (dst == src) { *dst++ = *src++; } }\<close>\<close>

partial_function (option) copy_words_if_same ::
    "u32 \<Rightarrow> u32 \<Rightarrow> u32 \<Rightarrow> word_mem \<Rightarrow> word_mem option" where
  "copy_words_if_same src dst stop m =
     (if dst < stop
      then if dst = src then copy_words_if_same (src + 4) (dst + 4) stop (m(dst := m src))
           else copy_words_if_same src dst stop m
      else Some m)"

text \<open>\<open>while (src < end) { *src++ = 0; }\<close>\<close>

partial_function (option) zero_words :: "u32 \<Rightarrow> u32 \<Rightarrow> word_mem \<Rightarrow> word_mem option" where
  "zero_words dst stop m = (if dst < stop then zero_words (dst + 4) stop (m(dst := 0)) else Some m)"

text \<open>\<open>while (from >= stop) { *(to--) = *(from--); }\<close>\<close>

partial_function (option) copy_words_down ::
    "u32 \<Rightarrow> u32 \<Rightarrow> u32 \<Rightarrow> word_mem \<Rightarrow> word_mem option" where
  "copy_words_down src dst stop m =
     (if stop \<le> src then copy_words_down (src - 4) (dst - 4) stop (m(dst := m src)) else Some m)"

section \<open>What they mean to do\<close>

definition in_block :: "u32 \<Rightarrow> nat \<Rightarrow> u32 \<Rightarrow> bool" where
  "in_block dst n a \<longleftrightarrow> unat (a - dst) < 4 * n \<and> 4 dvd unat (a - dst)"

definition block_copy :: "u32 \<Rightarrow> u32 \<Rightarrow> nat \<Rightarrow> word_mem \<Rightarrow> word_mem" where
  "block_copy src dst n m = (\<lambda>a. if in_block dst n a then m (src + (a - dst)) else m a)"

definition block_zero :: "u32 \<Rightarrow> nat \<Rightarrow> word_mem \<Rightarrow> word_mem" where
  "block_zero dst n m = (\<lambda>a. if in_block dst n a then 0 else m a)"

text \<open>A copy upwards of \<open>n\<close> words reads no word it has written; the copy downwards is the same
  with the blocks exchanged.\<close>

definition no_clobber :: "u32 \<Rightarrow> u32 \<Rightarrow> nat \<Rightarrow> bool" where
  "no_clobber src dst n \<longleftrightarrow> dst = src \<or> 4 * n \<le> unat (dst - src)"

definition block_fits :: "u32 \<Rightarrow> nat \<Rightarrow> bool" where
  "block_fits dst n \<longleftrightarrow> unat dst + 4 * n < 2 ^ 32"

section \<open>Offsets\<close>

lemma unat_off: "4 * i < 2 ^ 32 \<Longrightarrow> unat (4 * of_nat i :: u32) = 4 * i"
proof -
  assume "4 * i < 2 ^ 32"
  then have "unat (of_nat (4 * i) :: u32) = 4 * i"
    by (simp only: unsigned_of_nat) (simp add: take_bit_nat_eq_self)
  then show ?thesis by (simp only: of_nat_mult) simp
qed

lemma unat_block_word:
  "block_fits dst n \<Longrightarrow> i \<le> n \<Longrightarrow> unat (dst + 4 * of_nat i) = unat dst + 4 * i"
  by (subst unat_add_lem [THEN iffD1]) (simp_all add: block_fits_def unat_off)

lemma block_word_less:
  "block_fits dst n \<Longrightarrow> i \<le> n \<Longrightarrow> dst + 4 * of_nat i < dst + 4 * of_nat n \<longleftrightarrow> i < n"
  by (simp add: word_less_nat_alt unat_block_word)

lemma in_block_0 [simp]: "\<not> in_block dst 0 a"
  by (simp add: in_block_def)

lemma in_block_Suc:
  assumes "4 * Suc n \<le> 2 ^ 32"
  shows "in_block dst (Suc n) a \<longleftrightarrow> in_block dst n a \<or> a = dst + 4 * of_nat n"
proof
  assume l: "in_block dst (Suc n) a"
  then obtain k where k: "unat (a - dst) = 4 * k" by (auto simp: in_block_def dvd_def)
  show "in_block dst n a \<or> a = dst + 4 * of_nat n"
  proof (cases "k = n")
    case True
    have "a - dst = of_nat (unat (a - dst))" by simp
    also have "\<dots> = 4 * of_nat n" unfolding k by (simp add: True)
    finally show ?thesis by (simp add: algebra_simps)
  next
    case False
    then show ?thesis using l k by (simp add: in_block_def)
  qed
next
  assume "in_block dst n a \<or> a = dst + 4 * of_nat n"
  then show "in_block dst (Suc n) a"
    using assms by (auto simp: in_block_def unat_off)
qed

lemma in_block_word:
  assumes "4 * n \<le> 2 ^ 32" and "i < n"
  shows "in_block dst n (dst + 4 * of_nat i)"
  using assms by (simp add: in_block_def unat_off)

lemma in_block_last:
  assumes "4 * Suc n \<le> 2 ^ 32"
  shows "\<not> in_block dst n (dst + 4 * of_nat n)"
  using assms by (simp add: in_block_def unat_off)

lemma block_copy_0 [simp]: "block_copy src dst 0 m = m"
  by (simp add: block_copy_def)

lemma block_zero_0 [simp]: "block_zero dst 0 m = m"
  by (simp add: block_zero_def)

lemma block_copy_Suc:
  "4 * Suc n \<le> 2 ^ 32 \<Longrightarrow>
   block_copy src dst (Suc n) m = (block_copy src dst n m)(dst + 4 * of_nat n := m (src + 4 * of_nat n))"
  using in_block_last [of n dst] by (auto simp: block_copy_def in_block_Suc)

lemma block_zero_Suc:
  "4 * Suc n \<le> 2 ^ 32 \<Longrightarrow>
   block_zero dst (Suc n) m = (block_zero dst n m)(dst + 4 * of_nat n := 0)"
  by (auto simp: block_zero_def in_block_Suc)

lemma block_copy_same: "block_copy src src n m = m"
  by (auto simp: block_copy_def)

lemma block_copy_frame: "\<not> in_block dst n a \<Longrightarrow> block_copy src dst n m a = m a"
  by (simp add: block_copy_def)

lemma block_zero_frame: "\<not> in_block dst n a \<Longrightarrow> block_zero dst n m a = m a"
  by (simp add: block_zero_def)

text \<open>The source word of step \<open>i\<close> has not been overwritten by the steps before it.\<close>

lemma no_clobber_src:
  assumes "no_clobber src dst n" and "i < n" and "4 * n \<le> 2 ^ 32"
  shows "block_copy src dst i m (src + 4 * of_nat i) = m (src + 4 * of_nat i)"
proof (cases "dst = src")
  case True
  then show ?thesis by (simp add: block_copy_same)
next
  case False
  then have far: "4 * n \<le> unat (dst - src)"
    using assms(1) by (simp add: no_clobber_def)
  have "\<not> in_block dst i (src + 4 * of_nat i)"
  proof
    assume b: "in_block dst i (src + 4 * of_nat i)"
    let ?d = "unat (src + 4 * of_nat i - dst)"
    have d: "?d < 4 * i" using b by (simp add: in_block_def)
    have "dst - src = 4 * of_nat i - of_nat ?d" by simp
    also have "\<dots> = of_nat (4 * i - ?d)"
      using d by (simp add: of_nat_diff)
    finally have "unat (dst - src) \<le> 4 * i - ?d"
      by (metis unat_of_nat mod_less_eq_dividend)
    then show False using far assms(2) by simp
  qed
  then show ?thesis by (simp add: block_copy_frame)
qed

section \<open>The loops do it\<close>

lemma copy_words_from:
  assumes "block_fits dst n" and "no_clobber src dst n" and "i \<le> n"
  shows "copy_words (src + 4 * of_nat i) (dst + 4 * of_nat i) (dst + 4 * of_nat n)
           (block_copy src dst i m) = Some (block_copy src dst n m)"
  using assms(3)
proof (induction i rule: inc_induct)
  case base
  show ?case by (subst copy_words.simps) simp
next
  case (step i)
  have n: "4 * n \<le> 2 ^ 32" using assms(1) by (simp add: block_fits_def)
  have less: "dst + 4 * of_nat i < dst + 4 * of_nat n"
    using block_word_less [OF assms(1), of i] step(2) by simp
  have "(block_copy src dst i m)(dst + 4 * of_nat i := block_copy src dst i m (src + 4 * of_nat i))
      = block_copy src dst (Suc i) m"
    using step(2) n by (simp add: block_copy_Suc no_clobber_src [OF assms(2) step(2) n])
  then show ?case
    using step(3) less by (subst copy_words.simps) (simp add: algebra_simps)
qed

lemma copy_words_block:
  "block_fits dst n \<Longrightarrow> no_clobber src dst n \<Longrightarrow>
   copy_words src dst (dst + 4 * of_nat n) m = Some (block_copy src dst n m)"
  using copy_words_from [of dst n src 0 m] by simp

lemma zero_words_from:
  assumes "block_fits dst n" and "i \<le> n"
  shows "zero_words (dst + 4 * of_nat i) (dst + 4 * of_nat n) (block_zero dst i m)
    = Some (block_zero dst n m)"
  using assms(2)
proof (induction i rule: inc_induct)
  case base
  show ?case by (subst zero_words.simps) simp
next
  case (step i)
  have n: "4 * n \<le> 2 ^ 32" using assms(1) by (simp add: block_fits_def)
  have less: "dst + 4 * of_nat i < dst + 4 * of_nat n"
    using block_word_less [OF assms(1), of i] step(2) by simp
  have "(block_zero dst i m)(dst + 4 * of_nat i := 0) = block_zero dst (Suc i) m"
    using step(2) n by (simp add: block_zero_Suc)
  then show ?case
    using step(3) less by (subst zero_words.simps) (simp add: algebra_simps)
qed

lemma zero_words_block:
  "block_fits dst n \<Longrightarrow> zero_words dst (dst + 4 * of_nat n) m = Some (block_zero dst n m)"
  using zero_words_from [of dst n 0 m] by simp

text \<open>With a \<open>break\<close> the loop is the copy when the blocks differ and nothing when they are the
  same; here the distance between the pointers never changes, so the test is settled at once.\<close>

lemma copy_words_break_from:
  assumes "block_fits dst n" and "no_clobber src dst n" and "dst \<noteq> src" and "i \<le> n"
  shows "copy_words_break (src + 4 * of_nat i) (dst + 4 * of_nat i) (dst + 4 * of_nat n)
           (block_copy src dst i m) = Some (block_copy src dst n m)"
  using assms(4)
proof (induction i rule: inc_induct)
  case base
  show ?case by (subst copy_words_break.simps) simp
next
  case (step i)
  have n: "4 * n \<le> 2 ^ 32" using assms(1) by (simp add: block_fits_def)
  have less: "dst + 4 * of_nat i < dst + 4 * of_nat n"
    using block_word_less [OF assms(1), of i] step(2) by simp
  have "(block_copy src dst i m)(dst + 4 * of_nat i := block_copy src dst i m (src + 4 * of_nat i))
      = block_copy src dst (Suc i) m"
    using step(2) n by (simp add: block_copy_Suc no_clobber_src [OF assms(2) step(2) n])
  then show ?case
    using step(3) less assms(3) by (subst copy_words_break.simps) (simp add: algebra_simps)
qed

lemma copy_words_break_block:
  assumes "block_fits dst n" and "no_clobber src dst n"
  shows "copy_words_break src dst (dst + 4 * of_nat n) m = Some (block_copy src dst n m)"
proof (cases "dst = src")
  case True
  then show ?thesis by (subst copy_words_break.simps) (simp add: block_copy_same)
next
  case False
  then show ?thesis using copy_words_break_from [OF assms False, of 0 m] by simp
qed

text \<open>The loop over \<open>.tdata\<close> can only end when there is nothing to do.\<close>

lemma copy_words_if_same_stuck:
  assumes "dst < stop" and "dst \<noteq> src"
  shows "copy_words_if_same src dst stop m = None"
proof (rule ccontr)
  assume "copy_words_if_same src dst stop m \<noteq> None"
  then obtain r where r: "copy_words_if_same src dst stop m = Some r" by auto
  have "\<not> (dst < stop \<and> dst \<noteq> src)"
  proof (rule copy_words_if_same.raw_induct
      [where P = "\<lambda>src dst stop m r. \<not> (dst < stop \<and> dst \<noteq> src)", OF _ r])
    fix f :: "u32 \<Rightarrow> u32 \<Rightarrow> u32 \<Rightarrow> word_mem \<Rightarrow> word_mem option"
      and src dst stop :: u32 and m r :: word_mem
    assume IH: "\<And>src dst stop m r. f src dst stop m = Some r \<Longrightarrow> \<not> (dst < stop \<and> dst \<noteq> src)"
      and eq: "(if dst < stop
          then if dst = src then f (src + 4) (dst + 4) stop (m(dst := m src)) else f src dst stop m
          else Some m) = Some r"
    show "\<not> (dst < stop \<and> dst \<noteq> src)"
    proof
      assume "dst < stop \<and> dst \<noteq> src"
      then have "f src dst stop m = Some r" using eq by simp
      then show False using IH \<open>dst < stop \<and> dst \<noteq> src\<close> by blast
    qed
  qed
  then show False using assms by simp
qed

lemma copy_words_if_same_from:
  assumes "block_fits dst n" and "i \<le> n"
  shows "copy_words_if_same (dst + 4 * of_nat i) (dst + 4 * of_nat i) (dst + 4 * of_nat n) m = Some m"
  using assms(2)
proof (induction i rule: inc_induct)
  case base
  show ?case by (subst copy_words_if_same.simps) simp
next
  case (step i)
  have "dst + 4 * of_nat i < dst + 4 * of_nat n"
    using block_word_less [OF assms(1), of i] step(2) by simp
  then show ?case
    using step(3) by (subst copy_words_if_same.simps) (simp add: algebra_simps)
qed

lemma copy_words_if_same_iff:
  assumes "block_fits dst n"
  shows "copy_words_if_same src dst (dst + 4 * of_nat n) m =
     (if n = 0 \<or> dst = src then Some m else None)"
proof -
  have less: "dst < dst + 4 * of_nat n \<longleftrightarrow> 0 < n"
    using block_word_less [OF assms, of 0] by simp
  show ?thesis
  proof (cases "n = 0 \<or> dst = src")
    case True
    then show ?thesis
      using copy_words_if_same_from [OF assms, of 0 m] less
      by (auto simp: copy_words_if_same.simps [of src dst dst])
  next
    case False
    then show ?thesis using less by (simp add: copy_words_if_same_stuck)
  qed
qed

section \<open>Copying downwards\<close>

lemma in_block_Cons:
  assumes "4 * Suc n \<le> 2 ^ 32"
  shows "in_block dst (Suc n) a \<longleftrightarrow> a = dst \<or> in_block (dst + 4) n a"
  using assms
proof (induction n)
  case 0
  then show ?case using in_block_Suc [of 0 dst a] by simp
next
  case (Suc n)
  have "in_block dst (Suc (Suc n)) a \<longleftrightarrow> in_block dst (Suc n) a \<or> a = dst + 4 * of_nat (Suc n)"
    using in_block_Suc [of "Suc n" dst a] Suc.prems by simp
  moreover have "in_block (dst + 4) (Suc n) a \<longleftrightarrow> in_block (dst + 4) n a \<or> a = dst + 4 + 4 * of_nat n"
    using in_block_Suc [of n "dst + 4" a] Suc.prems by simp
  ultimately show ?case using Suc by (auto simp: algebra_simps)
qed

lemma block_copy_Cons:
  assumes "4 * Suc n \<le> 2 ^ 32"
  shows "block_copy src dst (Suc n) m = (block_copy (src + 4) (dst + 4) n m)(dst := m src)"
  using assms by (auto simp: block_copy_def in_block_Cons algebra_simps)

definition no_clobber_down :: "u32 \<Rightarrow> u32 \<Rightarrow> nat \<Rightarrow> bool" where
  "no_clobber_down src dst n \<longleftrightarrow> 4 * n \<le> unat (src - dst)"

lemma no_clobber_down_src:
  assumes "no_clobber_down src dst n" and "i < n" and "4 * n \<le> 2 ^ 32"
  shows "block_copy (src + 4 + 4 * of_nat i) (dst + 4 + 4 * of_nat i) (n - Suc i) m
           (src + 4 * of_nat i) = m (src + 4 * of_nat i)"
proof -
  have "\<not> in_block (dst + 4 + 4 * of_nat i) (n - Suc i) (src + 4 * of_nat i)"
  proof
    assume b: "in_block (dst + 4 + 4 * of_nat i) (n - Suc i) (src + 4 * of_nat i)"
    let ?d = "unat (src + 4 * of_nat i - (dst + 4 + 4 * of_nat i))"
    have d: "?d < 4 * (n - Suc i)" using b by (simp add: in_block_def)
    have "src - dst = of_nat ?d + 4" by simp
    also have "\<dots> = of_nat (?d + 4)" by (simp only: of_nat_add) simp
    finally have "unat (src - dst) \<le> ?d + 4"
      by (metis unat_of_nat mod_less_eq_dividend)
    moreover have "4 * n \<le> unat (src - dst)"
      using assms(1) by (simp add: no_clobber_down_def)
    ultimately show False using d assms(2) by simp
  qed
  then show ?thesis by (simp add: block_copy_frame)
qed

lemma copy_words_down_from:
  assumes "block_fits src n" and "no_clobber_down src dst n" and "4 \<le> unat src" and "i \<le> n"
  shows "copy_words_down (src + 4 * of_nat i - 4) (dst + 4 * of_nat i - 4) src
           (block_copy (src + 4 * of_nat i) (dst + 4 * of_nat i) (n - i) m)
         = Some (block_copy src dst n m)"
  using assms(4)
proof (induction i)
  case 0
  have "\<not> src \<le> src - 4"
    using assms(3) by (simp add: word_less_nat_alt unat_sub word_le_nat_alt)
  then show ?case by (subst copy_words_down.simps) simp
next
  case (Suc i)
  have n: "4 * n \<le> 2 ^ 32" using assms(1) by (simp add: block_fits_def)
  have le: "src \<le> src + 4 * of_nat i"
    using unat_block_word [OF assms(1), of i] Suc.prems by (simp add: word_le_nat_alt)
  have d: "n - i = Suc (n - Suc i)" using Suc.prems by simp
  have "4 * Suc (n - Suc i) \<le> 2 ^ 32" using n Suc.prems by simp
  then have "(block_copy (src + 4 + 4 * of_nat i) (dst + 4 + 4 * of_nat i) (n - Suc i) m)
      (dst + 4 * of_nat i := m (src + 4 * of_nat i))
      = block_copy (src + 4 * of_nat i) (dst + 4 * of_nat i) (n - i) m"
    using block_copy_Cons [of "n - Suc i" "src + 4 * of_nat i" "dst + 4 * of_nat i" m]
    unfolding d by (simp add: algebra_simps)
  then show ?case
    using Suc.IH Suc.prems le no_clobber_down_src [OF assms(2) _ n, of i m]
    by (subst copy_words_down.simps) (simp add: algebra_simps)
qed

lemma copy_words_down_block:
  "block_fits src n \<Longrightarrow> no_clobber_down src dst n \<Longrightarrow> 4 \<le> unat src \<Longrightarrow>
   copy_words_down (src + 4 * of_nat n - 4) (dst + 4 * of_nat n - 4) src m
     = Some (block_copy src dst n m)"
  using copy_words_down_from [of src n dst n m] by simp

end
