(* ===== verification/Clock.thy ===== *)
theory Clock
  imports Arm_Core
begin

text \<open>
  The clock driver of the application core (\<open>bootloader/System/clock.c\<close>). The file is written for
  three chips, selected by macros; \<open>chip\<close> is that selection and the constants of the device
  headers are the record \<open>clock_mdk\<close>. A busy-wait polls an event register; \<open>clock_polls\<close> says what
  each poll reads.
\<close>

datatype chip = Nrf5340_App | Nrf5340_Net | Nrf52

record clock_mdk =
  slope_msk :: u32
  slope_pos :: nat
  offset_msk :: u32
  offset_pos :: nat
  xosc32mcaps_enabled :: u32
  hfclksrc_hfxo :: u32
  hclk_div1 :: u32
  hclk_div2 :: u32
  mcusel_peripheral :: u32
  intcap_c7pf :: u32
  intcap_c9pf :: u32
  lfclksrc_lfxo :: u32
  lfclksrc_lfrc :: u32
  lfclksrc_xtal :: u32

record clock_polls =
  poll_hf_cleared :: "nat \<Rightarrow> u32"
  poll_hf_started :: "nat \<Rightarrow> u32"
  poll_lf_started :: "nat \<Rightarrow> u32"

definition NRF53_XOSC32_CAPACITANCE_X2 :: "bool \<Rightarrow> u32" where
  "NRF53_XOSC32_CAPACITANCE_X2 dotbot_v2 = (if dotbot_v2 then 22 else 16)"

section \<open>The load capacitance of the 32 MHz crystal\<close>

text \<open>\<open>slope_sign\<close> is the highest bit of the field; exclusive-or with it and subtracting it extends
  the sign. The sum mixes \<open>int32_t\<close> and \<open>uint32_t\<close>, so C computes it modulo \<open>2^32\<close> and shifts it
  right as an unsigned number.\<close>

definition slope_sign :: "clock_mdk \<Rightarrow> u32" where
  "slope_sign m = drop_bit (slope_pos m) (slope_msk m)
     - drop_bit 1 (drop_bit (slope_pos m) (slope_msk m))"

definition trim_slope :: "clock_mdk \<Rightarrow> u32 \<Rightarrow> u32" where
  "trim_slope m trim =
     (drop_bit (slope_pos m) (trim AND slope_msk m) XOR slope_sign m) - slope_sign m"

definition trim_offset :: "clock_mdk \<Rightarrow> u32 \<Rightarrow> u32" where
  "trim_offset m trim = drop_bit (offset_pos m) (trim AND offset_msk m)"

definition cap_value :: "clock_mdk \<Rightarrow> bool \<Rightarrow> u32 \<Rightarrow> u32" where
  "cap_value m dotbot_v2 trim =
     drop_bit 6 ((trim_slope m trim + 56) * (NRF53_XOSC32_CAPACITANCE_X2 dotbot_v2 - 14)
       + push_bit 4 (trim_offset m trim - 8) + 32)"

section \<open>hfclk_init and lfclk_init\<close>

definition hfclk_source :: "clock_mdk \<Rightarrow> chip \<Rightarrow> bool \<Rightarrow> core \<Rightarrow> core" where
  "hfclk_source m ch dotbot_v2 c =
     only_if (ch \<noteq> Nrf52) (wr HFCLKCTRL (hclk_div1 m))
       (only_if (ch \<noteq> Nrf52) (wr HFCLKSRC (hfclksrc_hfxo m))
         (only_if (ch = Nrf5340_App)
           (wr XOSC32MCAPS (xosc32mcaps_enabled m OR cap_value m dotbot_v2 (c_reg c XOSC32MTRIM)))
           c))"

definition hfclk_init :: "clock_mdk \<Rightarrow> chip \<Rightarrow> bool \<Rightarrow> clock_polls \<Rightarrow> core \<Rightarrow> core outcome" where
  "hfclk_init m ch dotbot_v2 p c =
     (if hf_enabled (c_clock c) then Continue c
      else and_then (spin (\<lambda>k. poll_hf_cleared p k \<noteq> 1) (wr EVENTS_HFCLKSTARTED 0 c)) (\<lambda>c1.
           and_then (spin (\<lambda>k. poll_hf_started p k \<noteq> 0)
                      (wr TASKS_HFCLKSTART 1 (hfclk_source m ch dotbot_v2 c1))) (\<lambda>c2.
             Continue (c2\<lparr>c_clock := (c_clock c2)\<lparr>hf_enabled := True\<rparr>\<rparr>))))"

definition lfclk_source :: "clock_mdk \<Rightarrow> chip \<Rightarrow> bool \<Rightarrow> core \<Rightarrow> core" where
  "lfclk_source m ch dotbot_v2 c =
     (case ch of
        Nrf5340_App \<Rightarrow>
          wr LFCLKSRC (lfclksrc_lfxo m)
            (wr XOSC32KI_INTCAP (if dotbot_v2 then intcap_c7pf m else intcap_c9pf m)
              (wr (PIN_CNF 1) (mcusel_peripheral m) (wr (PIN_CNF 0) (mcusel_peripheral m) c)))
      | Nrf5340_Net \<Rightarrow> wr LFCLKSRC (lfclksrc_lfrc m) c
      | Nrf52 \<Rightarrow> wr LFCLKSRC (lfclksrc_xtal m) c)"

definition lfclk_init :: "clock_mdk \<Rightarrow> chip \<Rightarrow> bool \<Rightarrow> clock_polls \<Rightarrow> core \<Rightarrow> core outcome" where
  "lfclk_init m ch dotbot_v2 p c =
     (if lf_enabled (c_clock c) then Continue c
      else and_then (spin (\<lambda>k. poll_lf_started p k \<noteq> 0)
                      (wr TASKS_LFCLKSTART 1
                        (lfclk_source m ch dotbot_v2 (wr EVENTS_LFCLKSTARTED 0 c)))) (\<lambda>c1.
             Continue (c1\<lparr>c_clock := (c_clock c1)\<lparr>lf_enabled := True\<rparr>\<rparr>)))"

section \<open>What the driver relies on of the headers and the hardware\<close>

text \<open>The trim register of the nRF5340: a five-bit signed slope below a five-bit offset.\<close>

definition trim_fields :: "clock_mdk \<Rightarrow> bool" where
  "trim_fields m \<longleftrightarrow> slope_msk m = 0x1F \<and> slope_pos m = 0 \<and> offset_msk m = 0x3E0 \<and> offset_pos m = 5"

text \<open>The event registers answer: the cleared event is read back, and the oscillators start.\<close>

definition clocks_start :: "clock_polls \<Rightarrow> bool" where
  "clocks_start p \<longleftrightarrow> (\<exists>k. poll_hf_cleared p k \<noteq> 1) \<and> (\<exists>k. poll_hf_started p k \<noteq> 0) \<and>
     (\<exists>k. poll_lf_started p k \<noteq> 0)"

section \<open>Facts\<close>

lemma and_31: "(x :: u32) AND 0x1F = take_bit 5 x"
  by (simp add: take_bit_eq_mask mask_eq_exp_minus_1)

lemma and_31_less: "uint ((x :: u32) AND 0x1F) < 32"
proof -
  have "uint (x AND 0x1F) = uint x mod 32"
    by (simp only: and_31 unsigned_take_bit_eq) (simp add: take_bit_eq_mod)
  then show ?thesis by simp
qed

text \<open>The five bits read as a signed number.\<close>

definition signed5 :: "int \<Rightarrow> int" where
  "signed5 a = (if a < 16 then a else a - 32)"

lemma signed5_all:
  "\<forall>a \<in> set [0..31]. (word_of_int a XOR 16 :: u32) - 16 = word_of_int (signed5 a)"
  by (simp add: upto.simps signed5_def)

lemma trim_slope_signed:
  assumes "trim_fields m"
  shows "trim_slope m trim = word_of_int (signed5 (uint (trim AND 0x1F)))"
proof -
  have "uint (trim AND 0x1F) \<in> set [0..31]"
    using and_31_less [of trim] by auto
  then have "(word_of_int (uint (trim AND 0x1F)) XOR 16 :: u32) - 16
      = word_of_int (signed5 (uint (trim AND 0x1F)))"
    using signed5_all by blast
  then show ?thesis
    using assms by (simp add: trim_slope_def trim_fields_def slope_sign_def)
qed

lemma trim_offset_take:
  "trim_fields m \<Longrightarrow> trim_offset m trim = drop_bit 5 trim AND 0x1F"
  by (auto simp: trim_offset_def trim_fields_def bit_simps intro!: bit_word_eqI)

definition cap_sum :: "bool \<Rightarrow> int \<Rightarrow> int \<Rightarrow> int" where
  "cap_sum dotbot_v2 s off =
     (s + 56) * ((if dotbot_v2 then 22 else 16) - 14) + (off - 8) * 16 + 32"

lemma cap_value_sum:
  assumes "trim_fields m"
  shows "uint (cap_value m dotbot_v2 trim) =
     cap_sum dotbot_v2 (signed5 (uint (trim AND 0x1F))) (uint (drop_bit 5 trim AND 0x1F))
       mod 2 ^ 32 div 64"
proof -
  let ?s = "signed5 (uint (trim AND 0x1F))" and ?o = "uint (drop_bit 5 trim AND 0x1F)"
  have o: "trim_offset m trim = word_of_int ?o"
    by (simp add: trim_offset_take [OF assms])
  have "(trim_slope m trim + 56) * (NRF53_XOSC32_CAPACITANCE_X2 dotbot_v2 - 14)
       + push_bit 4 (trim_offset m trim - 8) + 32 = word_of_int (cap_sum dotbot_v2 ?s ?o)"
    by (simp add: trim_slope_signed [OF assms] o cap_sum_def NRF53_XOSC32_CAPACITANCE_X2_def
          push_bit_eq_mult del: word_of_int_uint)
  then have "uint (cap_value m dotbot_v2 trim) =
      drop_bit 6 (take_bit 32 (cap_sum dotbot_v2 ?s ?o))"
    by (simp only: cap_value_def unsigned_drop_bit_eq unsigned_of_int) simp
  then show ?thesis
    by (simp only: drop_bit_eq_div take_bit_eq_mod) simp
qed

end
