(* ===== verification/System_Init.thy ===== *)
theory System_Init
  imports Word_Copy Clock
begin

text \<open>
  The system initialisation that the reset handlers call: \<open>bootloader/System/system_init.c\<close>
  (application core), \<open>network_core/System/system_init.c\<close> and
  \<open>bootloader-single-core/System/system_init.c\<close> (nRF52).

  The conditions \<open>nrf53_errata_N()\<close> and \<open>nrf52_errata_N()\<close> and the access-port protection are
  header code that is not in the repository: \<open>errata\<close> and \<open>approtect\<close> of \<open>sys_env\<close>. Field
  positions and base addresses of the headers are \<open>sys_mdk\<close>; the macros a build defines are
  \<open>build_flags\<close>. A wait for the flash controller is numbered; \<open>nvmc_ready w k\<close> is what poll \<open>k\<close>
  of wait \<open>w\<close> sees.
\<close>

record sys_mdk =
  sau_ctrl_allns_pos :: nat
  ficr_s :: u32
  ficr_ns :: u32
  trimcnf_offset :: u32
  resetpin_msk :: u32
  spu_ramregion_size :: u32
  perm_secattr_pos :: nat
  perm_write_pos :: nat
  perm_execute_pos :: nat
  perm_lock_pos :: nat
  nfcpins_protect_msk :: u32
  nfcpins_protect_nfc :: u32
  wen_pos :: nat
  wen_wen :: u32
  wen_ren :: u32
  psel_connect_msk :: u32
  psel_connected :: u32
  tad_enable_msk :: u32
  tad_clockstart_msk :: u32
  traceportspeed_64mhz :: u32
  trace_pin_cnf :: u32
  traceclk_pin :: nat
  tracedata_pin :: "nat \<Rightarrow> nat"
  demcr_trcena_msk :: u32
  tracemux_serial :: u32
  tracemux_parallel :: u32
  pin_cnf_trace52 :: u32

record build_flags =
  bf_cmse :: bool
  bf_debug :: bool
  bf_fpu_used :: bool
  bf_skip_ficr_ns_copy :: bool
  bf_nfct_pins_as_gpios :: bool
  bf_enable_swo :: bool
  bf_enable_trace :: bool
  bf_gpio_as_pinreset :: bool

record sys_env =
  errata :: "nat \<Rightarrow> bool"
  configuration_249 :: bool
  approtect :: "core \<Rightarrow> core"
  nvmc_ready :: "nat \<Rightarrow> nat \<Rightarrow> bool"
  clock_mdk_of :: clock_mdk
  clock_polls_of :: clock_polls

text \<open>What a loop over memory leaves.\<close>

definition with_mem :: "(word_mem \<Rightarrow> word_mem option) \<Rightarrow> core \<Rightarrow> core outcome" where
  "with_mem g c = (case g (c_mem c) of None \<Rightarrow> Stuck c | Some m \<Rightarrow> Continue (c\<lparr>c_mem := m\<rparr>))"

definition NVIC_SystemReset :: "core \<Rightarrow> core outcome" where
  "NVIC_SystemReset c = Stuck (emit CE_SystemReset c)"

definition enable_fpu :: "build_flags \<Rightarrow> core \<Rightarrow> core" where
  "enable_fpu b = only_if (bf_fpu_used b) (set_bits CPACR (push_bit 20 3 OR push_bit 22 3))"

section \<open>Both cores of the nRF5340\<close>

text \<open>The trimming values: pairs of an address and a value in a table of FICR.\<close>

definition trim_addr :: "u32 \<Rightarrow> nat \<Rightarrow> core \<Rightarrow> u32" where
  "trim_addr table i c = c_mem c (table + 8 * of_nat i)"

definition trim_data :: "u32 \<Rightarrow> nat \<Rightarrow> core \<Rightarrow> u32" where
  "trim_data table i c = c_mem c (table + 8 * of_nat i + 4)"

function trim_from :: "u32 \<Rightarrow> nat \<Rightarrow> core \<Rightarrow> core" where
  "trim_from table i c =
     (if i < 32 \<and> trim_addr table i c \<noteq> 0xFFFFFFFF
      then trim_from table (Suc i) (st (trim_addr table i c) (trim_data table i c) c)
      else c)"
  by pat_completeness auto
termination by (relation "measure (\<lambda>(table, i, c). 32 - i)") auto

declare trim_from.simps [simp del]

definition reset_errata :: "sys_mdk \<Rightarrow> sys_env \<Rightarrow> core \<Rightarrow> core" where
  "reset_errata m e = steps
     [\<lambda>c. only_if (errata e 49 \<and> c_reg c RESETREAS AND resetpin_msk m \<noteq> 0)
        (steps [wr EVENTS_SLEEPENTER 0, wr EVENTS_SLEEPEXIT 0]) c,
      \<lambda>c. only_if (errata e 55 \<and> c_reg c RESETREAS AND resetpin_msk m \<noteq> 0)
        (wr RESETREAS (NOT (resetpin_msk m))) c]"

section \<open>The application core\<close>

definition sys_errata_97 :: "sys_env \<Rightarrow> core \<Rightarrow> core" where
  "sys_errata_97 e c =
     only_if (errata e 97 \<and> c_mem c 0x50004A20 = 0)
       (steps [st 0x50004A20 0xD, st 0x5000491C 1, st 0x5000491C 0]) c"

definition power_errata :: "sys_env \<Rightarrow> core \<Rightarrow> core" where
  "power_errata e = steps
     [only_if (errata e 64) (steps [st 0x5000470C 0x29, st 0x5000473C 0x3]),
      only_if (errata e 42)
        (steps [st 0x50039530 0xBEEF0044, wr HFCLKCTRL (hclk_div2 (clock_mdk_of e))]),
      only_if (errata e 46) (st 0x5003254C 0)]"

text \<open>FICR as non-secure code reads it: a copy in RAM, when \<open>NRF_FICR_NS\<close> is in RAM.\<close>

definition FICR_SIZE :: u32 where "FICR_SIZE = 0x1000"
definition RAM_BASE :: u32 where "RAM_BASE = 0x20000000"
definition RAM_END :: u32 where "RAM_END = 0x2FFFFFFF"

definition ficr_ns_in_ram :: "sys_mdk \<Rightarrow> bool" where
  "ficr_ns_in_ram m \<longleftrightarrow> \<not> (ficr_ns m < RAM_BASE \<or> ficr_ns m + FICR_SIZE > RAM_END)"

definition ficr_ram_region :: "sys_mdk \<Rightarrow> u32" where
  "ficr_ram_region m = (ficr_ns m - RAM_BASE) div spu_ramregion_size m"

definition SystemStoreFICRNS :: "sys_mdk \<Rightarrow> core \<Rightarrow> core outcome" where
  "SystemStoreFICRNS m c =
     (if \<not> ficr_ns_in_ram m then Continue c
      else and_then
        (with_mem (copy_words_down (ficr_s m + (FICR_SIZE - 4)) (ficr_ns m + (FICR_SIZE - 4)) (ficr_s m)) c)
        (\<lambda>c. Continue
          (clr_bits (RAMREGION_PERM (ficr_ram_region m)) (push_bit (perm_secattr_pos m) 1) c)))"

definition SystemLockFICRNS :: "sys_mdk \<Rightarrow> core \<Rightarrow> core" where
  "SystemLockFICRNS m c =
     (if \<not> ficr_ns_in_ram m then c
      else steps
        [clr_bits (RAMREGION_PERM (ficr_ram_region m))
           (push_bit (perm_write_pos m) 1 OR push_bit (perm_execute_pos m) 1),
         set_bits (RAMREGION_PERM (ficr_ram_region m)) (push_bit (perm_lock_pos m) 1)] c)"

definition nfct_pins_as_gpios :: "sys_mdk \<Rightarrow> sys_env \<Rightarrow> core \<Rightarrow> core outcome" where
  "nfct_pins_as_gpios m e c =
     (if c_reg c NFCPINS AND nfcpins_protect_msk m = nfcpins_protect_nfc m
      then run_stages
        [\<lambda>c. spin (nvmc_ready e 0) (wr NVMC_CONFIG (push_bit (wen_pos m) (wen_wen m)) c),
         \<lambda>c. spin (nvmc_ready e 1) (clr_bits NFCPINS (nfcpins_protect_msk m) c),
         \<lambda>c. spin (nvmc_ready e 2) (wr NVMC_CONFIG (push_bit (wen_pos m) (wen_ren m)) c),
         NVIC_SystemReset] c
      else Continue c)"

definition enable_swo :: "sys_mdk \<Rightarrow> core \<Rightarrow> core" where
  "enable_swo m = steps
     [wr TAD_ENABLE (tad_enable_msk m), wr TAD_CLOCKSTART (tad_clockstart_msk m),
      clr_bits GPIOPORT0_PERM (push_bit (tracedata_pin m 0) 1),
      wr (PIN_CNF (tracedata_pin m 0)) (trace_pin_cnf m),
      wr (PSEL_TRACEDATA 0) (of_nat (tracedata_pin m 0)),
      wr TAD_TRACEPORTSPEED (traceportspeed_64mhz m)]"

definition enable_trace :: "sys_mdk \<Rightarrow> core \<Rightarrow> core" where
  "enable_trace m = steps
     ([wr TAD_ENABLE (tad_enable_msk m), wr TAD_CLOCKSTART (tad_clockstart_msk m),
       clr_bits GPIOPORT0_PERM (push_bit (traceclk_pin m) 1)]
      @ map (\<lambda>i. clr_bits GPIOPORT0_PERM (push_bit (tracedata_pin m i) 1)) [0..<4]
      @ [wr (PIN_CNF (traceclk_pin m)) (trace_pin_cnf m)]
      @ map (\<lambda>i. wr (PIN_CNF (tracedata_pin m i)) (trace_pin_cnf m)) [0..<4]
      @ [wr PSEL_TRACECLK (of_nat (traceclk_pin m))]
      @ map (\<lambda>i. wr (PSEL_TRACEDATA i) (of_nat (tracedata_pin m i))) [0..<4]
      @ [wr TAD_TRACEPORTSPEED (traceportspeed_64mhz m)])"

definition system_init_start :: "sys_mdk \<Rightarrow> build_flags \<Rightarrow> sys_env \<Rightarrow> core \<Rightarrow> core" where
  "system_init_start m b e = steps
     [only_if (bf_cmse b) (set_bits SAU_CTRL (push_bit (sau_ctrl_allns_pos m) 1)),
      sys_errata_97 e,
      trim_from (ficr_s m + trimcnf_offset m) 0,
      power_errata e,
      reset_errata m e,
      only_if (errata e 69) (st 0x5000470C 0x65)]"

definition system_init_end :: "sys_mdk \<Rightarrow> build_flags \<Rightarrow> sys_env \<Rightarrow> core \<Rightarrow> core" where
  "system_init_end m b e = steps
     [only_if (bf_enable_swo b) (enable_swo m),
      only_if (bf_enable_trace b) (enable_trace m),
      set_bits NSACR (push_bit 10 3),
      approtect e,
      enable_fpu b]"

definition app_system_init :: "sys_mdk \<Rightarrow> build_flags \<Rightarrow> sys_env \<Rightarrow> core \<Rightarrow> core outcome" where
  "app_system_init m b e = run_stages
     [\<lambda>c. Continue (system_init_start m b e c),
      \<lambda>c. if bf_skip_ficr_ns_copy b then Continue c else SystemStoreFICRNS m c,
      \<lambda>c. if bf_nfct_pins_as_gpios b then nfct_pins_as_gpios m e c else Continue c,
      \<lambda>c. Continue (system_init_end m b e c)]"

section \<open>The network core\<close>

text \<open>Its own clock start has no guard against a clock that runs already.\<close>

definition net_system_init :: "sys_mdk \<Rightarrow> sys_env \<Rightarrow> core \<Rightarrow> core outcome" where
  "net_system_init m e = run_stages
     [\<lambda>c. Continue (trim_from (ficr_ns m + trimcnf_offset m) 0 c),
      \<lambda>c. Continue (approtect e (reset_errata m e c)),
      \<lambda>c. spin (\<lambda>k. poll_hf_cleared (clock_polls_of e) k \<noteq> 1) (wr EVENTS_HFCLKSTARTED 0 c),
      \<lambda>c. spin (\<lambda>k. poll_hf_started (clock_polls_of e) k \<noteq> 0) (wr TASKS_HFCLKSTART 1 c)]"

end
