(* ===== verification/System_Init52.thy ===== *)
theory System_Init52
  imports System_Init
begin

text \<open>
  The system initialisation of the single-core bootloader
  (\<open>bootloader-single-core/System/system_init.c\<close>), written for every chip of the nRF52 series: the
  workarounds, and the pin and protection options kept in UICR, which is flash: changing one takes
  the flash controller and ends in a system reset.
\<close>

datatype nrf52_chip =
    NRF52805_XXAA | NRF52810_XXAA | NRF52811_XXAA | NRF52820_XXAA | NRF52832_XXAA | NRF52832_XXAB
  | NRF52833_XXAA | NRF52840_XXAA

text \<open>The chip the code is compiled for, and the chip it is developed on, if another.\<close>

record nrf52_target =
  chip_of :: nrf52_chip
  develop_in :: "nrf52_chip option"

definition pin_21_chips :: "nrf52_chip set" where
  "pin_21_chips = {NRF52805_XXAA, NRF52810_XXAA, NRF52811_XXAA, NRF52832_XXAA, NRF52832_XXAB}"

definition RESET_PIN :: "nrf52_target \<Rightarrow> u32" where
  "RESET_PIN t =
     (case develop_in t of
        Some d \<Rightarrow> if d \<in> pin_21_chips then 21 else 18
      | None \<Rightarrow> if chip_of t \<in> pin_21_chips then 21 else 18)"

section \<open>The flash controller\<close>

definition nvmc_wait :: "sys_env \<Rightarrow> nat \<Rightarrow> core \<Rightarrow> core outcome" where
  "nvmc_wait e w c = spin (nvmc_ready e w) c"

definition nvmc_config :: "sys_mdk \<Rightarrow> sys_env \<Rightarrow> nat \<Rightarrow> u32 \<Rightarrow> core \<Rightarrow> core outcome" where
  "nvmc_config m e w mode c = nvmc_wait e w (wr NVMC_CONFIG (push_bit (wen_pos m) mode) c)"

section \<open>The workarounds\<close>

definition trace52 :: "sys_mdk \<Rightarrow> build_flags \<Rightarrow> core \<Rightarrow> core" where
  "trace52 m b = steps
     [only_if (bf_enable_swo b) (steps
        [set_bits DEMCR (demcr_trcena_msk m), set_bits TRACECONFIG (tracemux_serial m),
         wr (PIN_CNF 18) (pin_cnf_trace52 m)]),
      only_if (bf_enable_trace b) (steps
        ([set_bits DEMCR (demcr_trcena_msk m), set_bits TRACECONFIG (tracemux_parallel m)]
         @ map (\<lambda>p. wr (PIN_CNF p) (pin_cnf_trace52 m)) [14, 15, 16, 18, 20]))]"

definition errata_12_to_57 :: "sys_mdk \<Rightarrow> sys_env \<Rightarrow> core \<Rightarrow> core" where
  "errata_12_to_57 m e = steps
     [only_if (errata e 12)
        (\<lambda>c. st 0x40013540 (drop_bit 8 (c_mem c 0x10000324 AND 0x1F00)) c),
      only_if (errata e 16) (st 0x4007C074 3131961357),
      only_if (errata e 31)
        (\<lambda>c. st 0x4000053C (drop_bit 13 (c_mem c 0x10000244 AND 0xE000)) c),
      only_if (errata e 32) (clr_bits DEMCR (demcr_trcena_msk m)),
      only_if (errata e 36) (steps [wr EVENTS_DONE 0, wr EVENTS_CTTO 0, wr CTIV 0]),
      only_if (errata e 37) (st 0x400005A0 0x3),
      only_if (errata e 57)
        (steps [st 0x40005610 5, st 0x40005688 1, st 0x40005618 0, st 0x40005614 0x3F])]"

text \<open>The temperature sensor's seventeen coefficients: A0 to A5, B0 to B5, T0 to T4.\<close>

definition errata_66 :: "core \<Rightarrow> core" where
  "errata_66 = steps (map (\<lambda>i c. wr (TEMP i) (c_reg c (FICR_TEMP i)) c) [0..<17])"

definition errata_98_to_120 :: "sys_env \<Rightarrow> core \<Rightarrow> core" where
  "errata_98_to_120 e = steps
     [only_if (errata e 98) (st 0x4000568C 0x00038148),
      only_if (errata e 103) (wr MAXPACKETSIZE 0xFB),
      only_if (errata e 108) (\<lambda>c. st 0x40000EE4 (c_mem c 0x10000258 AND 0x4F) c),
      only_if (errata e 115)
        (\<lambda>c. st 0x40000EE4 ((c_mem c 0x40000EE4 AND 0xFFFFFFF0) OR (c_mem c 0x10000258 AND 0xF)) c),
      only_if (errata e 120) (st 0x40029640 0x200)]"

definition errata_136_to_217 :: "sys_mdk \<Rightarrow> sys_env \<Rightarrow> core \<Rightarrow> core" where
  "errata_136_to_217 m e = steps
     [\<lambda>c. only_if (errata e 136 \<and> c_reg c RESETREAS AND resetpin_msk m \<noteq> 0)
        (wr RESETREAS (NOT (resetpin_msk m))) c,
      only_if (errata e 182) (\<lambda>c. st 0x4000173C (c_mem c 0x4000173C OR push_bit 10 1) c),
      only_if (errata e 217) (\<lambda>c. st 0x40000EE4 (c_mem c 0x40000EE4 OR 0xF) c)]"

definition workarounds52 :: "sys_mdk \<Rightarrow> build_flags \<Rightarrow> sys_env \<Rightarrow> core \<Rightarrow> core" where
  "workarounds52 m b e = steps
     [trace52 m b, errata_12_to_57 m e, only_if (errata e 66) errata_66, errata_98_to_120 e,
      errata_136_to_217 m e, enable_fpu b, approtect e]"

section \<open>The options in UICR\<close>

definition config_249 :: "sys_mdk \<Rightarrow> sys_env \<Rightarrow> nrf52_target \<Rightarrow> core \<Rightarrow> core outcome" where
  "config_249 m e t c =
     (if chip_of t \<in> {NRF52805_XXAA, NRF52810_XXAA, NRF52811_XXAA} \<and> configuration_249 e \<and>
         (c_reg c (NRFMDK 0) = 0xFFFFFFFF \<or> c_reg c (NRFMDK 1) = 0xFFFFFFFF)
      then run_stages
        [nvmc_config m e 0 (wen_wen m),
         \<lambda>c. nvmc_wait e 1 (wr (NRFMDK 0) 0 c),
         \<lambda>c. nvmc_wait e 2 (wr (NRFMDK 1) 0 c),
         nvmc_config m e 3 (wen_ren m)] c
      else Continue c)"

definition nfct52 :: "sys_mdk \<Rightarrow> sys_env \<Rightarrow> core \<Rightarrow> core outcome" where
  "nfct52 m e c =
     (if c_reg c NFCPINS AND nfcpins_protect_msk m = nfcpins_protect_nfc m
      then run_stages
        [nvmc_config m e 4 (wen_wen m),
         \<lambda>c. nvmc_wait e 5 (clr_bits NFCPINS (nfcpins_protect_msk m) c),
         nvmc_config m e 6 (wen_ren m),
         NVIC_SystemReset] c
      else Continue c)"

definition pin_reset_configured :: "sys_mdk \<Rightarrow> core \<Rightarrow> bool" where
  "pin_reset_configured m c \<longleftrightarrow>
     c_reg c (PSELRESET 0) AND psel_connect_msk m = psel_connected m \<and>
     c_reg c (PSELRESET 1) AND psel_connect_msk m = psel_connected m"

definition gpio_as_pinreset :: "sys_mdk \<Rightarrow> sys_env \<Rightarrow> nrf52_target \<Rightarrow> core \<Rightarrow> core outcome" where
  "gpio_as_pinreset m e t c =
     (if \<not> pin_reset_configured m c
      then run_stages
        [nvmc_config m e 7 (wen_wen m),
         \<lambda>c. nvmc_wait e 8 (wr (PSELRESET 0) (RESET_PIN t) c),
         \<lambda>c. nvmc_wait e 9 (wr (PSELRESET 1) (RESET_PIN t) c),
         nvmc_config m e 10 (wen_ren m),
         NVIC_SystemReset] c
      else Continue c)"

text \<open>The code writes \<open>0x1000120C\<close>, the address of UICR's \<open>NFCPINS\<close>.\<close>

definition develop_in_nfc :: "sys_mdk \<Rightarrow> sys_env \<Rightarrow> nrf52_target \<Rightarrow> core \<Rightarrow> core outcome" where
  "develop_in_nfc m e t c =
     (if (develop_in t \<in> {Some NRF52832_XXAA, Some NRF52832_XXAB} \<and> chip_of t = NRF52810_XXAA \<or>
          develop_in t = Some NRF52840_XXAA \<and> chip_of t = NRF52811_XXAA) \<and>
         bit (c_reg c NFCPINS) 0
      then run_stages
        [nvmc_config m e 11 (wen_wen m),
         \<lambda>c. nvmc_wait e 12 (wr NFCPINS 0 c),
         nvmc_config m e 13 (wen_ren m),
         NVIC_SystemReset] c
      else Continue c)"

definition sc_system_init ::
    "sys_mdk \<Rightarrow> build_flags \<Rightarrow> sys_env \<Rightarrow> nrf52_target \<Rightarrow> core \<Rightarrow> core outcome" where
  "sc_system_init m b e t = run_stages
     [\<lambda>c. Continue (workarounds52 m b e c),
      config_249 m e t,
      \<lambda>c. if bf_nfct_pins_as_gpios b then nfct52 m e c else Continue c,
      \<lambda>c. if bf_gpio_as_pinreset b then gpio_as_pinreset m e t c else Continue c,
      develop_in_nfc m e t]"

end
