(* ===== verification/Startup.thy ===== *)
theory Startup
  imports System_Init52
begin

text \<open>
  The reset handlers (\<open>System/startup.c\<close> of the bootloader, the network core, the single-core
  bootloader and the sample image): stack pointers, the sections the linker wants copied or
  cleared, the constructors, the system initialisation and the jump to \<open>main\<close>.

  The linker's symbols are addresses, the record \<open>link_map\<close>. A constructor is machine code at an
  address: \<open>run_code\<close>. \<open>l_func_addr\<close> is where the compiler puts the local variable \<open>func\<close>, whose
  address the constructor loop compares.
\<close>

record mem_section =
  sec_load :: u32
  sec_start :: u32
  sec_end :: u32

record link_map =
  l_data :: mem_section
  l_text :: mem_section
  l_fast :: mem_section
  l_ctors :: mem_section
  l_dtors :: mem_section
  l_rodata :: mem_section
  l_tdata :: mem_section
  l_bss :: mem_section
  l_tbss :: mem_section
  l_shared_data :: mem_section
  l_stack_end :: u32
  l_stack_process_end :: u32
  l_stacksize :: u32
  l_stacksize_process :: u32
  l_func_addr :: u32

section \<open>Stages\<close>

definition copy_section :: "mem_section \<Rightarrow> core \<Rightarrow> core outcome" where
  "copy_section s = with_mem (copy_words (sec_load s) (sec_start s) (sec_end s))"

definition move_section :: "mem_section \<Rightarrow> core \<Rightarrow> core outcome" where
  "move_section s = with_mem (copy_words_break (sec_load s) (sec_start s) (sec_end s))"

definition tdata_section :: "mem_section \<Rightarrow> core \<Rightarrow> core outcome" where
  "tdata_section s = with_mem (copy_words_if_same (sec_load s) (sec_start s) (sec_end s))"

definition zero_section :: "mem_section \<Rightarrow> core \<Rightarrow> core outcome" where
  "zero_section s = with_mem (zero_words (sec_start s) (sec_end s))"

definition full_fpu_access :: "core \<Rightarrow> core" where
  "full_fpu_access = set_bits CPACR (push_bit 20 3 OR push_bit 22 3)"

definition set_stacks :: "link_map \<Rightarrow> core \<Rightarrow> core" where
  "set_stacks l c = c\<lparr>c_msp := l_stack_end l, c_psp := l_stack_process_end l, c_control := 0\<rparr>"

text \<open>The limits are set to what memory holds at the symbols, not to the symbols.\<close>

definition set_stack_limits :: "build_flags \<Rightarrow> link_map \<Rightarrow> core \<Rightarrow> core" where
  "set_stack_limits b l c =
     only_if (bf_cmse b)
       (\<lambda>c. c\<lparr>c_msplim := c_mem c (l_stacksize l), c_psplim := c_mem c (l_stacksize_process l)\<rparr>) c"

definition stage_if :: "bool \<Rightarrow> (core \<Rightarrow> core outcome) \<Rightarrow> core \<Rightarrow> core outcome" where
  "stage_if b f c = (if b then f c else Continue c)"

text \<open>The sections, in the order of every startup file.\<close>

definition init_sections :: "build_flags \<Rightarrow> link_map \<Rightarrow> (core \<Rightarrow> core outcome) list" where
  "init_sections b l =
     [copy_section (l_data l),
      stage_if (bf_debug b) (move_section (l_text l)),
      copy_section (l_fast l),
      copy_section (l_ctors l),
      copy_section (l_dtors l),
      stage_if (bf_debug b) (move_section (l_rodata l)),
      tdata_section (l_tdata l),
      zero_section (l_bss l),
      zero_section (l_tbss l)]"

text \<open>The constructor loop: \<open>while (&func < &__ctors_end__) { func++(); }\<close> compares the address of
  the variable, which never changes, and calls the address of the table, then the next byte.\<close>

partial_function (option) ctor_loop ::
    "(u32 \<Rightarrow> core \<Rightarrow> core outcome) \<Rightarrow> u32 \<Rightarrow> u32 \<Rightarrow> u32 \<Rightarrow> core \<Rightarrow> core outcome option" where
  "ctor_loop run_code func_addr stop func c =
     (if func_addr < stop
      then case run_code func (emit (CE_Call func) c) of
             Continue c' \<Rightarrow> ctor_loop run_code func_addr stop (func + 1) c'
           | Stuck c' \<Rightarrow> Some (Stuck c')
           | Undefined \<Rightarrow> Some Undefined
      else Some (Continue c))"

definition call_constructors ::
    "(u32 \<Rightarrow> core \<Rightarrow> core outcome) \<Rightarrow> link_map \<Rightarrow> core \<Rightarrow> core outcome" where
  "call_constructors run_code l c =
     (case ctor_loop run_code (l_func_addr l) (sec_end (l_ctors l)) (sec_start (l_ctors l)) c of
        None \<Rightarrow> Stuck c
      | Some r \<Rightarrow> r)"

definition enter_main :: "core \<Rightarrow> core outcome" where
  "enter_main c = Continue (emit CE_Main c)"

text \<open>The clock driver's static state lies in \<open>.bss\<close>.\<close>

definition clear_clock_state :: "core \<Rightarrow> core" where
  "clear_clock_state c = c\<lparr>c_clock := \<lparr>hf_enabled = False, lf_enabled = False\<rparr>\<rparr>"

definition disable_dcdc :: "core \<Rightarrow> core" where
  "disable_dcdc = steps [wr VREGRADIO_DCDCEN 0, wr VREGMAIN_DCDCEN 0, wr VREGH_DCDCEN 0]"

section \<open>The four handlers\<close>

definition app_Reset_Handler ::
    "sys_mdk \<Rightarrow> build_flags \<Rightarrow> sys_env \<Rightarrow> bool \<Rightarrow> (u32 \<Rightarrow> core \<Rightarrow> core outcome) \<Rightarrow> link_map
      \<Rightarrow> core \<Rightarrow> core outcome" where
  "app_Reset_Handler m b e dotbot_v2 run_code l =
     run_stages
       ([\<lambda>c. Continue (full_fpu_access c),
         \<lambda>c. Continue (set_stack_limits b l (set_stacks l c))]
        @ init_sections b l
        @ [\<lambda>c. Continue (clear_clock_state c),
           zero_section (l_shared_data l),
           call_constructors run_code l,
           app_system_init m b e,
           hfclk_init (clock_mdk_of e) Nrf5340_App dotbot_v2 (clock_polls_of e),
           lfclk_init (clock_mdk_of e) Nrf5340_App dotbot_v2 (clock_polls_of e),
           \<lambda>c. Continue (disable_dcdc c),
           enter_main])"

definition net_Reset_Handler ::
    "sys_mdk \<Rightarrow> build_flags \<Rightarrow> sys_env \<Rightarrow> (u32 \<Rightarrow> core \<Rightarrow> core outcome) \<Rightarrow> link_map
      \<Rightarrow> core \<Rightarrow> core outcome" where
  "net_Reset_Handler m b e run_code l =
     run_stages
       ([\<lambda>c. Continue (full_fpu_access c)]
        @ init_sections b l
        @ [call_constructors run_code l, net_system_init m e, enter_main])"

text \<open>The clock drivers this one calls are another repository's: \<open>db_hfclk_init\<close> and
  \<open>db_lfclk_init\<close>. The shared section is left out of a build for an nRF52.\<close>

definition sc_Reset_Handler ::
    "sys_mdk \<Rightarrow> build_flags \<Rightarrow> sys_env \<Rightarrow> nrf52_target \<Rightarrow> (core \<Rightarrow> core outcome) \<Rightarrow>
      (core \<Rightarrow> core outcome) \<Rightarrow> (u32 \<Rightarrow> core \<Rightarrow> core outcome) \<Rightarrow> link_map \<Rightarrow> core \<Rightarrow> core outcome" where
  "sc_Reset_Handler m b e t db_hfclk_init db_lfclk_init run_code l =
     run_stages
       ([\<lambda>c. Continue (full_fpu_access c)]
        @ init_sections b l
        @ [call_constructors run_code l, sc_system_init m b e t, db_hfclk_init, db_lfclk_init,
           enter_main])"

definition sample_Reset_Handler ::
    "build_flags \<Rightarrow> (u32 \<Rightarrow> core \<Rightarrow> core outcome) \<Rightarrow> link_map \<Rightarrow> core \<Rightarrow> core outcome" where
  "sample_Reset_Handler b run_code l =
     run_stages
       ([\<lambda>c. Continue (full_fpu_access c), \<lambda>c. Continue (set_stacks l c)]
        @ init_sections b l
        @ [call_constructors run_code l, \<lambda>c. Continue (enable_fpu b c), enter_main])"

text \<open>The dummy handler, and the choice of the stack in \<open>HardFault_Handler\<close> and
  \<open>SecureFault_Handler\<close>: bit 2 of the link register tells which stack the frame is on.\<close>

definition Dummy_Handler :: "core \<Rightarrow> core outcome" where
  "Dummy_Handler c = Stuck c"

definition fault_stack :: "u32 \<Rightarrow> core \<Rightarrow> u32" where
  "fault_stack lr c = (if lr AND 4 = 0 then c_msp c else c_psp c)"

end
