(* ===== verification/Startup_Facts.thy ===== *)
theory Startup_Facts
  imports Startup
begin

text \<open>
  What the start-up does on a link map that makes sense: the memory it leaves, as a composition of
  block copies and clears, what the system initialisation keeps, and the two loops of the reset
  handlers that never do their work.
\<close>

section \<open>Sections\<close>

definition words_of :: "mem_section \<Rightarrow> nat" where
  "words_of s = unat (sec_end s - sec_start s) div 4"

definition run_ok :: "mem_section \<Rightarrow> bool" where
  "run_ok s \<longleftrightarrow> 4 dvd unat (sec_end s - sec_start s) \<and> block_fits (sec_start s) (words_of s)"

definition load_ok :: "mem_section \<Rightarrow> bool" where
  "load_ok s \<longleftrightarrow> run_ok s \<and> no_clobber (sec_load s) (sec_start s) (words_of s)"

definition in_section :: "mem_section \<Rightarrow> u32 \<Rightarrow> bool" where
  "in_section s = in_block (sec_start s) (words_of s)"

definition section_image :: "mem_section \<Rightarrow> word_mem \<Rightarrow> word_mem" where
  "section_image s = block_copy (sec_load s) (sec_start s) (words_of s)"

definition section_clear :: "mem_section \<Rightarrow> word_mem \<Rightarrow> word_mem" where
  "section_clear s = block_zero (sec_start s) (words_of s)"

lemma run_ok_end: "run_ok s \<Longrightarrow> sec_start s + 4 * of_nat (words_of s) = sec_end s"
proof -
  assume "run_ok s"
  then have w: "4 * words_of s = unat (sec_end s - sec_start s)"
    by (simp add: run_ok_def words_of_def)
  have "(4 * of_nat (words_of s) :: u32) = of_nat (4 * words_of s)" by simp
  also have "\<dots> = sec_end s - sec_start s" unfolding w by simp
  finally show ?thesis by simp
qed

lemma run_ok_fits: "run_ok s \<Longrightarrow> block_fits (sec_start s) (words_of s)"
  by (simp add: run_ok_def)

lemma copy_section_result:
  assumes "load_ok s"
  shows "copy_section s c = Continue (c\<lparr>c_mem := section_image s (c_mem c)\<rparr>)"
proof -
  have "run_ok s" "no_clobber (sec_load s) (sec_start s) (words_of s)"
    using assms by (simp_all add: load_ok_def)
  then show ?thesis
    using copy_words_block [OF run_ok_fits, of s "sec_load s" "c_mem c"]
    by (simp add: run_ok_end copy_section_def with_mem_def section_image_def)
qed

lemma move_section_result:
  assumes "load_ok s"
  shows "move_section s c = Continue (c\<lparr>c_mem := section_image s (c_mem c)\<rparr>)"
proof -
  have "run_ok s" "no_clobber (sec_load s) (sec_start s) (words_of s)"
    using assms by (simp_all add: load_ok_def)
  then show ?thesis
    using copy_words_break_block [OF run_ok_fits, of s "sec_load s" "c_mem c"]
    by (simp add: run_ok_end move_section_def with_mem_def section_image_def)
qed

lemma zero_section_result:
  "run_ok s \<Longrightarrow> zero_section s c = Continue (c\<lparr>c_mem := section_clear s (c_mem c)\<rparr>)"
  using zero_words_block [OF run_ok_fits, of s "c_mem c"]
  by (simp add: run_ok_end zero_section_def with_mem_def section_clear_def)

definition in_place :: "mem_section \<Rightarrow> bool" where
  "in_place s \<longleftrightarrow> words_of s = 0 \<or> sec_load s = sec_start s"

lemma tdata_section_result:
  assumes "run_ok s"
  shows "tdata_section s c = (if in_place s then Continue c else Stuck c)"
proof -
  have "copy_words_if_same (sec_load s) (sec_start s) (sec_end s) (c_mem c)
      = (if words_of s = 0 \<or> sec_start s = sec_load s then Some (c_mem c) else None)"
    using copy_words_if_same_iff [OF run_ok_fits [OF assms], of "sec_load s" "c_mem c"]
    by (simp add: run_ok_end [OF assms])
  then show ?thesis
    by (cases "in_place s") (auto simp: in_place_def tdata_section_def with_mem_def)
qed

section \<open>All of them\<close>

definition link_ok :: "link_map \<Rightarrow> bool" where
  "link_ok l \<longleftrightarrow>
     list_all load_ok [l_data l, l_text l, l_fast l, l_ctors l, l_dtors l, l_rodata l] \<and>
     list_all run_ok [l_tdata l, l_bss l, l_tbss l, l_shared_data l]"

definition loaded_image :: "build_flags \<Rightarrow> link_map \<Rightarrow> word_mem \<Rightarrow> word_mem" where
  "loaded_image b l = steps
     [section_image (l_data l), only_if (bf_debug b) (section_image (l_text l)),
      section_image (l_fast l), section_image (l_ctors l), section_image (l_dtors l),
      only_if (bf_debug b) (section_image (l_rodata l))]"

definition init_image :: "build_flags \<Rightarrow> link_map \<Rightarrow> word_mem \<Rightarrow> word_mem" where
  "init_image b l mm = section_clear (l_tbss l) (section_clear (l_bss l) (loaded_image b l mm))"

lemma stage_if_image:
  "load_ok s \<Longrightarrow> stage_if d (move_section s) c = Continue (c\<lparr>c_mem := only_if d (section_image s) (c_mem c)\<rparr>)"
  by (cases d) (simp_all add: stage_if_def move_section_result)

lemma init_sections_result:
  assumes "link_ok l"
  shows "run_stages (init_sections b l) c =
     (if in_place (l_tdata l) then Continue (c\<lparr>c_mem := init_image b l (c_mem c)\<rparr>)
      else Stuck (c\<lparr>c_mem := loaded_image b l (c_mem c)\<rparr>))"
  using assms
  by (simp add: init_sections_def link_ok_def copy_section_result stage_if_image tdata_section_result
        zero_section_result loaded_image_def init_image_def)

definition written_sections :: "link_map \<Rightarrow> mem_section list" where
  "written_sections l =
     [l_data l, l_text l, l_fast l, l_ctors l, l_dtors l, l_rodata l, l_bss l, l_tbss l]"

lemma section_image_frame: "\<not> in_section s a \<Longrightarrow> section_image s mm a = mm a"
  by (simp add: section_image_def in_section_def block_copy_frame)

lemma section_clear_frame: "\<not> in_section s a \<Longrightarrow> section_clear s mm a = mm a"
  by (simp add: section_clear_def in_section_def block_zero_frame)

lemma only_if_frame: "(\<And>mm. f mm a = mm a) \<Longrightarrow> only_if d f mm a = mm a"
  by (cases d) simp_all

lemma init_image_frame:
  "list_all (\<lambda>s. \<not> in_section s a) (written_sections l) \<Longrightarrow> init_image b l mm a = mm a"
  by (simp add: written_sections_def init_image_def loaded_image_def section_image_frame
        section_clear_frame only_if_frame)

section \<open>The constructor loop\<close>

lemma ctor_loop_none: "stop \<le> func_addr \<Longrightarrow> ctor_loop run_code func_addr stop func c = Some (Continue c)"
  by (subst ctor_loop.simps) (simp only: not_less [symmetric] if_False simp_thms)

lemma ctor_loop_no_return:
  assumes "func_addr < stop" and ret: "ctor_loop run_code func_addr stop func c = Some r"
  shows "r \<noteq> Continue c'"
proof -
  have "func_addr < stop \<longrightarrow> (\<forall>c'. r \<noteq> Continue c')"
  proof (rule ctor_loop.raw_induct
      [where P = "\<lambda>run_code func_addr stop func c r. func_addr < stop \<longrightarrow> (\<forall>c'. r \<noteq> Continue c')",
        OF _ ret])
    fix f and run_code :: "u32 \<Rightarrow> core \<Rightarrow> core outcome" and func_addr stop func :: u32
      and c :: core and r :: "core outcome"
    assume IH: "\<And>run_code func_addr stop func c r.
        f run_code func_addr stop func c = Some r \<Longrightarrow> func_addr < stop \<longrightarrow> (\<forall>c'. r \<noteq> Continue c')"
      and eq: "(if func_addr < stop
          then case run_code func (emit (CE_Call func) c) of
             Continue c' \<Rightarrow> f run_code func_addr stop (func + 1) c'
           | Stuck c' \<Rightarrow> Some (Stuck c')
           | Undefined \<Rightarrow> Some Undefined
          else Some (Continue c)) = Some r"
    show "func_addr < stop \<longrightarrow> (\<forall>c'. r \<noteq> Continue c')"
    proof
      assume less: "func_addr < stop"
      show "\<forall>c'. r \<noteq> Continue c'"
      proof (cases "run_code func (emit (CE_Call func) c)")
        case (Continue c1)
        then have "f run_code func_addr stop (func + 1) c1 = Some r" using eq less by simp
        then show ?thesis using IH less by blast
      qed (use eq less in auto)
    qed
  qed
  then show ?thesis using assms(1) by blast
qed

lemma call_constructors_result:
  "sec_end (l_ctors l) \<le> l_func_addr l \<Longrightarrow> call_constructors run_code l c = Continue c"
  by (simp add: call_constructors_def ctor_loop_none)

lemma call_constructors_Continue:
  assumes "call_constructors run_code l c = Continue c'"
  shows "c' = c" and "sec_end (l_ctors l) \<le> l_func_addr l"
proof -
  show le: "sec_end (l_ctors l) \<le> l_func_addr l"
  proof (rule ccontr)
    assume "\<not> ?thesis"
    then have "l_func_addr l < sec_end (l_ctors l)" by simp
    moreover obtain r where "ctor_loop run_code (l_func_addr l) (sec_end (l_ctors l))
        (sec_start (l_ctors l)) c = Some r" and "r = Continue c'"
      using assms by (auto simp: call_constructors_def split: option.splits)
    ultimately show False using ctor_loop_no_return by blast
  qed
  show "c' = c" using assms call_constructors_result [OF le] by simp
qed

end
