(* ===== verification/System_Facts.thy ===== *)
theory System_Facts
  imports Startup_Facts
begin

text \<open>
  The system initialisation and the clock driver leave the memory below the peripherals and the
  stack registers alone, and what they do to the reset reason. With the sections of
  \<open>Startup_Facts\<close> this is the whole reset handler of the application core.
\<close>

section \<open>Code that only touches peripherals\<close>

definition keeps :: "core \<Rightarrow> core \<Rightarrow> bool" where
  "keeps c c' \<longleftrightarrow> (\<forall>a. a < 0x40000000 \<longrightarrow> c_mem c' a = c_mem c a) \<and> c_out c' = c_out c \<and>
     c_msp c' = c_msp c \<and> c_psp c' = c_psp c \<and> c_control c' = c_control c \<and>
     c_msplim c' = c_msplim c \<and> c_psplim c' = c_psplim c"

lemma keeps_refl [simp]: "keeps c c"
  by (simp add: keeps_def)

lemma keeps_trans: "keeps c c1 \<Longrightarrow> keeps c1 c2 \<Longrightarrow> keeps c c2"
  by (auto simp: keeps_def)

lemma keeps_wr [simp]: "keeps c (wr r v c)"
  by (simp add: keeps_def)

lemma keeps_bits [simp]: "keeps c (set_bits r v c)" "keeps c (clr_bits r v c)"
  by (simp_all add: set_bits_def clr_bits_def)

lemma keeps_st [simp]: "0x40000000 \<le> a \<Longrightarrow> keeps c (st a v c)"
  by (auto simp: keeps_def)

text \<open>The peripherals a step leaves alone: the reset reason and the state of the clock driver.\<close>

definition same_reason :: "core \<Rightarrow> core \<Rightarrow> bool" where
  "same_reason c c' \<longleftrightarrow> c_reg c' RESETREAS = c_reg c RESETREAS \<and> c_clock c' = c_clock c"

lemma same_reason_refl [simp]: "same_reason c c"
  by (simp add: same_reason_def)

lemma same_reason_trans: "same_reason c c1 \<Longrightarrow> same_reason c1 c2 \<Longrightarrow> same_reason c c2"
  by (simp add: same_reason_def)

lemma same_reason_ops [simp]:
  "r \<noteq> RESETREAS \<Longrightarrow> same_reason c (wr r v c)"
  "r \<noteq> RESETREAS \<Longrightarrow> same_reason c (set_bits r v c)"
  "r \<noteq> RESETREAS \<Longrightarrow> same_reason c (clr_bits r v c)"
  "same_reason c (st a v c)"
  by (simp_all add: same_reason_def)

text \<open>A step that does neither.\<close>

definition quiet :: "(core \<Rightarrow> core) \<Rightarrow> bool" where
  "quiet f \<longleftrightarrow> (\<forall>c. keeps c (f c) \<and> same_reason c (f c))"

named_theorems quiet_intros \<open>steps that touch neither memory below the peripherals nor the reset reason\<close>

lemma quiet_ops [quiet_intros]:
  "r \<noteq> RESETREAS \<Longrightarrow> quiet (wr r v)"
  "r \<noteq> RESETREAS \<Longrightarrow> quiet (set_bits r v)"
  "r \<noteq> RESETREAS \<Longrightarrow> quiet (clr_bits r v)"
  "0x40000000 \<le> a \<Longrightarrow> quiet (st a v)"
  by (simp_all add: quiet_def)

lemma quiet_only_if [quiet_intros]: "quiet f \<Longrightarrow> quiet (only_if b f)"
  by (cases b) (simp_all add: quiet_def)

lemma quiet_steps [quiet_intros]: "list_all quiet fs \<Longrightarrow> quiet (steps fs)"
  unfolding quiet_def
proof (intro allI)
  fix c
  show "list_all (\<lambda>f. \<forall>c. keeps c (f c) \<and> same_reason c (f c)) fs \<Longrightarrow>
      keeps c (steps fs c) \<and> same_reason c (steps fs c)"
  proof (induction fs arbitrary: c)
    case (Cons f fs)
    then have "keeps c (f c) \<and> same_reason c (f c)"
      and "keeps (f c) (steps fs (f c)) \<and> same_reason (f c) (steps fs (f c))" by simp_all
    then show ?case
      using keeps_trans [of c "f c" "steps fs (f c)"]
        same_reason_trans [of c "f c" "steps fs (f c)"] by simp
  qed simp
qed

lemma quietD: "quiet f \<Longrightarrow> keeps c (f c)" "quiet f \<Longrightarrow> same_reason c (f c)"
  by (simp_all add: quiet_def)

section \<open>Trimming\<close>

text \<open>The valid entries of the table: those before the first unused one.\<close>

definition trim_entries :: "u32 \<Rightarrow> core \<Rightarrow> nat list" where
  "trim_entries table c = takeWhile (\<lambda>i. trim_addr table i c \<noteq> 0xFFFFFFFF) [0..<32]"

definition trim_apply :: "u32 \<Rightarrow> core \<Rightarrow> nat \<Rightarrow> core \<Rightarrow> core" where
  "trim_apply table c i = st (trim_addr table i c) (trim_data table i c)"

text \<open>No trimming value is meant for the table itself.\<close>

definition table_stable :: "u32 \<Rightarrow> core \<Rightarrow> bool" where
  "table_stable table c \<longleftrightarrow>
     list_all (\<lambda>i. \<not> in_block table 64 (trim_addr table i c)) (trim_entries table c)"

lemma table_words:
  "i < 32 \<Longrightarrow> in_block table 64 (table + 8 * of_nat i)"
  "i < 32 \<Longrightarrow> in_block table 64 (table + 8 * of_nat i + 4)"
  using in_block_word [of 64 "2 * i" table] in_block_word [of 64 "Suc (2 * i)" table]
  by (simp_all add: algebra_simps)

lemma trim_reads_st:
  assumes "\<not> in_block table 64 a" and "i < 32"
  shows "trim_addr table i (st a v c) = trim_addr table i c"
    and "trim_data table i (st a v c) = trim_data table i c"
  using assms table_words [of i table] by (auto simp: trim_addr_def trim_data_def)

lemma trim_entries_st:
  assumes "\<not> in_block table 64 a"
  shows "trim_entries table (st a v c) = trim_entries table c"
  unfolding trim_entries_def
  by (rule takeWhile_cong) (auto simp: trim_reads_st [OF assms])

lemma trim_from_takeWhile:
  assumes "\<And>j. j < 32 \<Longrightarrow> trim_addr table j c' = trim_addr table j c"
    and "\<And>j. j < 32 \<Longrightarrow> trim_data table j c' = trim_data table j c"
    and "list_all (\<lambda>i. \<not> in_block table 64 (trim_addr table i c))
           (takeWhile (\<lambda>i. trim_addr table i c \<noteq> 0xFFFFFFFF) [i..<32])"
  shows "trim_from table i c' =
     fold (trim_apply table c) (takeWhile (\<lambda>i. trim_addr table i c \<noteq> 0xFFFFFFFF) [i..<32]) c'"
  using assms
proof (induction table i c' rule: trim_from.induct)
  case (1 table i c')
  show ?case
  proof (cases "i < 32 \<and> trim_addr table i c \<noteq> 0xFFFFFFFF")
    case True
    have up: "[i..<32] = i # [Suc i..<32]" using True by (simp add: upt_conv_Cons)
    have out: "\<not> in_block table 64 (trim_addr table i c)" using "1.prems"(3) True up by simp
    have "trim_from table i c' = trim_from table (Suc i) (trim_apply table c i c')"
      using True "1.prems"(1,2) by (subst trim_from.simps) (simp add: trim_apply_def)
    also have "\<dots> = fold (trim_apply table c)
        (takeWhile (\<lambda>i. trim_addr table i c \<noteq> 0xFFFFFFFF) [Suc i..<32]) (trim_apply table c i c')"
      using True "1.prems" up out "1.IH" by (simp add: trim_apply_def [abs_def] trim_reads_st)
    finally show ?thesis using True up by simp
  next
    case False
    then have "takeWhile (\<lambda>i. trim_addr table i c \<noteq> 0xFFFFFFFF) [i..<32] = []"
      by (cases "i < 32") (simp_all add: upt_conv_Cons)
    then show ?thesis
      using False "1.prems"(1) by (subst trim_from.simps) auto
  qed
qed

lemma trim_from_fold:
  "table_stable table c \<Longrightarrow>
   trim_from table 0 c = fold (trim_apply table c) (trim_entries table c) c"
  unfolding trim_entries_def table_stable_def by (rule trim_from_takeWhile) simp_all

definition trims_peripherals :: "u32 \<Rightarrow> core \<Rightarrow> bool" where
  "trims_peripherals table c \<longleftrightarrow>
     list_all (\<lambda>i. 0x40000000 \<le> trim_addr table i c) (trim_entries table c)"

lemma trim_fold_keeps:
  "list_all (\<lambda>i. 0x40000000 \<le> trim_addr table i c) is \<Longrightarrow>
   keeps c' (fold (trim_apply table c) is c') \<and> same_reason c' (fold (trim_apply table c) is c')"
proof (induction "is" arbitrary: c')
  case (Cons i "is")
  then have "keeps c' (trim_apply table c i c')" "same_reason c' (trim_apply table c i c')"
    by (simp_all add: trim_apply_def)
  then show ?case
    using Cons.IH [of "trim_apply table c i c'"] Cons.prems
    by (auto intro: keeps_trans same_reason_trans)
qed simp

lemma trim_from_keeps:
  "table_stable table c \<Longrightarrow> trims_peripherals table c \<Longrightarrow>
   keeps c (trim_from table 0 c) \<and> same_reason c (trim_from table 0 c)"
  by (simp add: trim_from_fold trim_fold_keeps trims_peripherals_def)

section \<open>The system initialisation of the application core\<close>

text \<open>The reset reason it leaves: erratum 55 clears everything else after a pin reset.\<close>

definition reason_after :: "sys_mdk \<Rightarrow> sys_env \<Rightarrow> u32 \<Rightarrow> u32" where
  "reason_after m e r =
     (if errata e 55 \<and> r AND resetpin_msk m \<noteq> 0 then r AND resetpin_msk m else r)"

text \<open>The access-port protection writes its own registers only.\<close>

definition approtect_ok :: "sys_env \<Rightarrow> bool" where
  "approtect_ok e \<longleftrightarrow> quiet (approtect e)"

lemma power_errata_quiet: "quiet (power_errata e)"
  unfolding power_errata_def by (simp add: quiet_intros)

lemma errata_97_quiet: "quiet (sys_errata_97 e)"
  by (auto simp: quiet_def sys_errata_97_def only_if_def keeps_def same_reason_def)

lemma reset_errata_keeps: "keeps c (reset_errata m e c) \<and> c_clock (reset_errata m e c) = c_clock c"
  by (auto simp: reset_errata_def only_if_def keeps_def)

lemma reset_errata_reason:
  "c_reg (reset_errata m e c) RESETREAS = reason_after m e (c_reg c RESETREAS)"
  by (simp add: reset_errata_def only_if_def reason_after_def reg_after_def)

definition table_of :: "sys_mdk \<Rightarrow> u32" where
  "table_of m = ficr_s m + trimcnf_offset m"

definition system_init_ok :: "sys_mdk \<Rightarrow> build_flags \<Rightarrow> sys_env \<Rightarrow> core \<Rightarrow> bool" where
  "system_init_ok m b e c \<longleftrightarrow>
     table_of m + 4 * 63 < 0x40000000 \<and> table_of m \<le> table_of m + 4 * 63 \<and>
     trims_peripherals (table_of m) c \<and> approtect_ok e \<and>
     (bf_skip_ficr_ns_copy b \<or> \<not> ficr_ns_in_ram m) \<and> \<not> bf_nfct_pins_as_gpios b"

lemma table_below:
  assumes "t + 4 * 63 < (0x40000000 :: u32)" and "t \<le> t + 4 * 63" and "in_block t 64 a"
  shows "a < 0x40000000"
proof -
  have d: "unat (a - t) < 256" "4 dvd unat (a - t)" using assms(3) by (simp_all add: in_block_def)
  then have le: "unat (a - t) \<le> 252" by (auto simp: dvd_def)
  have t: "unat (t + 252) = unat t + 252"
    using assms(2) unat_plus_simple [of t 252] by simp
  have "unat t + 252 < 0x40000000"
    using assms(1) t by (simp add: word_less_nat_alt)
  moreover have "unat a = unat (t + (a - t))" by simp
  moreover have "unat (t + (a - t)) \<le> unat t + unat (a - t)"
    by (metis mod_less_eq_dividend unat_word_ariths(1))
  ultimately have "unat a < 0x40000000" using le by linarith
  then show ?thesis by (simp add: word_less_nat_alt)
qed

lemma trims_table_stable:
  assumes "t + 4 * 63 < (0x40000000 :: u32)" and "t \<le> t + 4 * 63" and "trims_peripherals t c"
  shows "table_stable t c"
proof -
  have "\<not> in_block t 64 (trim_addr t i c)" if "i \<in> set (trim_entries t c)" for i
  proof
    assume "in_block t 64 (trim_addr t i c)"
    then have "trim_addr t i c < 0x40000000" by (rule table_below [OF assms(1,2)])
    then show False using assms(3) that by (auto simp: trims_peripherals_def list_all_iff)
  qed
  then show ?thesis by (simp add: table_stable_def list_all_iff)
qed

lemma system_init_start_result:
  assumes ok: "system_init_ok m b e c"
  shows "keeps c (system_init_start m b e c)"
    and "c_clock (system_init_start m b e c) = c_clock c"
    and "c_reg (system_init_start m b e c) RESETREAS = reason_after m e (c_reg c RESETREAS)"
proof -
  let ?t = "table_of m"
  define f1 where "f1 = steps
    [only_if (bf_cmse b) (set_bits SAU_CTRL (push_bit (sau_ctrl_allns_pos m) 1)), sys_errata_97 e]"
  define c1 where "c1 = f1 c"
  have "quiet f1"
    unfolding f1_def by (simp add: quiet_intros errata_97_quiet)
  then have k1: "keeps c c1" "same_reason c c1"
    by (simp_all add: c1_def quietD)
  have low: "trim_addr ?t i c1 = trim_addr ?t i c" if "i < 32" for i
  proof -
    have t: "?t + 4 * 63 < 0x40000000" "?t \<le> ?t + 4 * 63"
      using ok unfolding system_init_ok_def by blast+
    have "?t + 8 * of_nat i < 0x40000000"
      by (rule table_below [OF t table_words(1) [OF that]])
    then show ?thesis using k1(1) by (simp add: trim_addr_def keeps_def)
  qed
  have "trim_entries ?t c1 = trim_entries ?t c"
    unfolding trim_entries_def by (rule takeWhile_cong) (simp_all add: low)
  moreover have "i < 32" if "i \<in> set (trim_entries ?t c)" for i
    using that unfolding trim_entries_def by (auto dest: set_takeWhileD)
  ultimately have tp: "trims_peripherals ?t c1"
    using ok low by (auto simp: system_init_ok_def trims_peripherals_def list_all_iff)
  have ts: "table_stable ?t c1"
    by (rule trims_table_stable [OF _ _ tp]) (use ok in \<open>unfold system_init_ok_def, blast+\<close>)
  define c2 where "c2 = trim_from ?t 0 c1"
  define c3 where "c3 = power_errata e c2"
  define c4 where "c4 = reset_errata m e c3"
  have k2: "keeps c1 c2" "same_reason c1 c2"
    using trim_from_keeps [OF ts tp] by (simp_all add: c2_def)
  have k3: "keeps c2 c3" "same_reason c2 c3"
    by (simp_all add: c3_def quietD power_errata_quiet)
  have k4: "keeps c3 c4" "c_clock c4 = c_clock c3"
    using reset_errata_keeps by (simp_all add: c4_def)
  have eq: "system_init_start m b e c = only_if (errata e 69) (st 0x5000470C 0x65) c4"
    by (simp add: system_init_start_def c4_def c3_def c2_def c1_def f1_def table_of_def)
  have k5: "keeps c4 (system_init_start m b e c)" "same_reason c4 (system_init_start m b e c)"
    unfolding eq by (cases "errata e 69"; simp)+
  show "keeps c (system_init_start m b e c)"
    using keeps_trans [OF keeps_trans [OF keeps_trans [OF keeps_trans [OF k1(1) k2(1)] k3(1)] k4(1)] k5(1)] .
  show "c_clock (system_init_start m b e c) = c_clock c"
    using k1(2) k2(2) k3(2) k4(2) k5(2) by (simp add: same_reason_def)
  show "c_reg (system_init_start m b e c) RESETREAS = reason_after m e (c_reg c RESETREAS)"
    using k1(2) k2(2) k3(2) k5(2) reset_errata_reason [of m e c3]
    by (simp add: same_reason_def c4_def)
qed

lemma system_init_end_quiet:
  assumes "approtect_ok e"
  shows "quiet (system_init_end m b e)"
proof -
  have "quiet (enable_swo m)" "quiet (enable_trace m)" "quiet (enable_fpu b)"
    unfolding enable_swo_def enable_trace_def enable_fpu_def
    by (auto simp: list_all_iff intro!: quiet_steps quiet_intros)
  then show ?thesis
    using assms unfolding system_init_end_def approtect_ok_def by (simp add: quiet_intros)
qed

lemma app_system_init_result:
  assumes ok: "system_init_ok m b e c"
  obtains c' where "app_system_init m b e c = Continue c'" and "keeps c c'"
    and "c_clock c' = c_clock c"
    and "c_reg c' RESETREAS = reason_after m e (c_reg c RESETREAS)"
proof
  let ?c1 = "system_init_start m b e c"
  have skip: "bf_skip_ficr_ns_copy b \<or> \<not> ficr_ns_in_ram m" and "\<not> bf_nfct_pins_as_gpios b"
    and ap: "approtect_ok e"
    using ok by (auto simp: system_init_ok_def)
  then show "app_system_init m b e c = Continue (system_init_end m b e ?c1)"
    by (auto simp: app_system_init_def SystemStoreFICRNS_def)
  note e = quietD [OF system_init_end_quiet [OF ap], of ?c1 m b]
  show "keeps c (system_init_end m b e ?c1)"
    using keeps_trans [OF system_init_start_result(1) [OF ok]] e by simp
  show "c_clock (system_init_end m b e ?c1) = c_clock c"
    using e system_init_start_result(2) [OF ok] by (simp add: same_reason_def)
  show "c_reg (system_init_end m b e ?c1) RESETREAS = reason_after m e (c_reg c RESETREAS)"
    using e system_init_start_result(3) [OF ok] by (simp add: same_reason_def)
qed

section \<open>The clock driver\<close>

lemma hfclk_init_keeps:
  assumes "clocks_start p" and "hfclk_init m ch d p c = r"
  obtains c' where "r = Continue c'" and "keeps c c'"
    and "c_reg c' RESETREAS = c_reg c RESETREAS" and "hf_enabled (c_clock c')"
    and "lf_enabled (c_clock c') = lf_enabled (c_clock c)"
    and "\<not> hf_enabled (c_clock c) \<Longrightarrow> ch \<noteq> Nrf52 \<Longrightarrow> c_reg c' HFCLKCTRL = hclk_div1 m"
  using assms
  by (cases "hf_enabled (c_clock c)")
    (auto simp: hfclk_init_def hfclk_source_def spin_cases clocks_start_def only_if_def keeps_def
       reg_after_def)

lemma lfclk_init_keeps:
  assumes "clocks_start p" and "lfclk_init m ch d p c = r"
  obtains c' where "r = Continue c'" and "keeps c c'"
    and "c_reg c' RESETREAS = c_reg c RESETREAS" and "lf_enabled (c_clock c')"
    and "hf_enabled (c_clock c') = hf_enabled (c_clock c)"
    and "c_reg c' HFCLKCTRL = c_reg c HFCLKCTRL"
  using assms
  by (cases "lf_enabled (c_clock c)"; cases ch)
    (auto simp: lfclk_init_def lfclk_source_def spin_cases clocks_start_def keeps_def reg_after_def)

section \<open>The reset handler of the application core\<close>

definition reset_ok ::
    "sys_mdk \<Rightarrow> build_flags \<Rightarrow> sys_env \<Rightarrow> link_map \<Rightarrow> core \<Rightarrow> bool" where
  "reset_ok m b e l c \<longleftrightarrow>
     link_ok l \<and> in_place (l_tdata l) \<and> sec_end (l_ctors l) \<le> l_func_addr l \<and>
     system_init_ok m b e
       (c\<lparr>c_mem := section_clear (l_shared_data l) (init_image b l (c_mem c))\<rparr>) \<and>
     clocks_start (clock_polls_of e)"

lemma system_init_ok_mem:
  "c_mem c' = c_mem c \<Longrightarrow> system_init_ok m b e c' = system_init_ok m b e c"
proof -
  assume mem: "c_mem c' = c_mem c"
  then have "trim_addr t i c' = trim_addr t i c" for t i by (simp add: trim_addr_def)
  then show ?thesis
    by (simp add: system_init_ok_def trims_peripherals_def trim_entries_def)
qed

lemma app_reset_result:
  assumes ok: "reset_ok m b e l c"
  obtains c' where "app_Reset_Handler m b e d run_code l c = Continue c'"
    and "\<And>a. a < 0x40000000 \<Longrightarrow>
           c_mem c' a = section_clear (l_shared_data l) (init_image b l (c_mem c)) a"
    and "c_out c' = c_out c @ [CE_Main]" and "c_msp c' = l_stack_end l" and "c_control c' = 0"
    and "bf_cmse b \<Longrightarrow> c_msplim c' = c_mem c (l_stacksize l)"
    and "c_reg c' RESETREAS = reason_after m e (c_reg c RESETREAS)"
    and "c_clock c' = \<lparr>hf_enabled = True, lf_enabled = True\<rparr>"
    and "c_reg c' HFCLKCTRL = hclk_div1 (clock_mdk_of e)"
proof -
  define c1 where "c1 = set_stack_limits b l (set_stacks l (full_fpu_access c))"
  define c2 where "c2 = clear_clock_state (c1\<lparr>c_mem := init_image b l (c_mem c1)\<rparr>)"
  define c3 where "c3 = c2\<lparr>c_mem := section_clear (l_shared_data l) (c_mem c2)\<rparr>"
  have c1: "c_mem c1 = c_mem c" "c_out c1 = c_out c" "c_msp c1 = l_stack_end l" "c_control c1 = 0"
      "c_reg c1 RESETREAS = c_reg c RESETREAS"
      "bf_cmse b \<Longrightarrow> c_msplim c1 = c_mem c (l_stacksize l)"
    by (simp_all add: c1_def set_stack_limits_def set_stacks_def full_fpu_access_def only_if_def)
  have c3: "c_mem c3 = section_clear (l_shared_data l) (init_image b l (c_mem c))"
      "c_out c3 = c_out c" "c_msp c3 = l_stack_end l" "c_control c3 = 0"
      "c_reg c3 RESETREAS = c_reg c RESETREAS" "c_clock c3 = \<lparr>hf_enabled = False, lf_enabled = False\<rparr>"
      "bf_cmse b \<Longrightarrow> c_msplim c3 = c_mem c (l_stacksize l)"
    using c1 by (simp_all add: c3_def c2_def clear_clock_state_def)
  have so: "system_init_ok m b e c3"
    using ok c3(1) system_init_ok_mem
      [of c3 "c\<lparr>c_mem := section_clear (l_shared_data l) (init_image b l (c_mem c))\<rparr>"]
    by (simp add: reset_ok_def)
  obtain c4 where c4: "app_system_init m b e c3 = Continue c4" "keeps c3 c4"
      "c_clock c4 = c_clock c3" "c_reg c4 RESETREAS = reason_after m e (c_reg c3 RESETREAS)"
    using app_system_init_result [OF so] by blast
  have cs: "clocks_start (clock_polls_of e)" using ok by (simp add: reset_ok_def)
  obtain c5 where c5: "hfclk_init (clock_mdk_of e) Nrf5340_App d (clock_polls_of e) c4 = Continue c5"
      "keeps c4 c5" "c_reg c5 RESETREAS = c_reg c4 RESETREAS" "hf_enabled (c_clock c5)"
      "c_reg c5 HFCLKCTRL = hclk_div1 (clock_mdk_of e)"
    using hfclk_init_keeps [OF cs, of "clock_mdk_of e" Nrf5340_App d c4] c4(3) c3(6)
    by (metis chip.distinct(4) clock_state_t.select_convs(1))
  obtain c6 where c6: "lfclk_init (clock_mdk_of e) Nrf5340_App d (clock_polls_of e) c5 = Continue c6"
      "keeps c5 c6" "c_reg c6 RESETREAS = c_reg c5 RESETREAS" "lf_enabled (c_clock c6)"
      "hf_enabled (c_clock c6) = hf_enabled (c_clock c5)" "c_reg c6 HFCLKCTRL = c_reg c5 HFCLKCTRL"
    using lfclk_init_keeps [OF cs, of "clock_mdk_of e" Nrf5340_App d c5] by metis
  have k: "keeps c3 c6"
    using keeps_trans [OF keeps_trans [OF c4(2) c5(2)] c6(2)] .
  define c7 where "c7 = emit CE_Main (disable_dcdc c6)"
  have run: "app_Reset_Handler m b e d run_code l c = Continue c7"
    using ok c4(1) c5(1) c6(1)
    by (simp add: app_Reset_Handler_def run_stages_append init_sections_result reset_ok_def
          zero_section_result link_ok_def call_constructors_result enter_main_def c7_def
          c1_def [symmetric] c2_def [symmetric] c3_def [symmetric])
  show thesis
  proof (rule that [OF run])
    show "c_mem c7 a = section_clear (l_shared_data l) (init_image b l (c_mem c)) a"
      if "a < 0x40000000" for a
      using k that c3(1) by (simp add: c7_def disable_dcdc_def keeps_def)
  qed (use k c3 c4 c5 c6 in \<open>auto simp: c7_def disable_dcdc_def keeps_def reg_after_def
         intro: clock_state_t.equality\<close>)
qed

end
