(* ===== verification/Vectors.thy ===== *)
theory Vectors
  imports Prelude
begin

text \<open>
  The vector tables (\<open>System/startup.c\<close> of the four images) and their linking. A table holds the
  initial stack pointer, handlers by name and zeros; the entries an initialiser leaves out are
  zeros too. The startup files declare most handlers as weak aliases of the dummy handler, which
  loops for ever: a definition elsewhere in the image takes precedence.
\<close>

datatype vector = Stack_End | Reserved | Handler string

definition vector_table :: "nat \<Rightarrow> vector list \<Rightarrow> vector list" where
  "vector_table n vs = vs @ replicate (n - length vs) Reserved"

text \<open>What a name stands for in an image whose other files define \<open>strong\<close>; \<open>None\<close> does not link.\<close>

datatype target = Own string | Dummy

definition link :: "string list \<Rightarrow> string list \<Rightarrow> string \<Rightarrow> target option" where
  "link strong weak h =
     (if h \<in> set strong then Some (Own h) else if h \<in> set weak then Some Dummy else None)"

text \<open>The handler of an exception number; \<open>None\<close> when the table has none for it.\<close>

definition exception_entry ::
    "string list \<Rightarrow> string list \<Rightarrow> vector list \<Rightarrow> nat \<Rightarrow> target option" where
  "exception_entry strong weak vs n =
     (if n < length vs then case vs ! n of Handler h \<Rightarrow> link strong weak h | _ \<Rightarrow> None else None)"

definition vector_links :: "string list \<Rightarrow> string list \<Rightarrow> vector \<Rightarrow> bool" where
  "vector_links strong weak v = (case v of Handler h \<Rightarrow> link strong weak h \<noteq> None | _ \<Rightarrow> True)"

text \<open>The handlers the images define: in assembly or C in the startup file, and in \<open>main.c\<close>.\<close>

definition app_handlers :: "string list" where
  "app_handlers = [''Reset_Handler'', ''HardFault_Handler'', ''SecureFault_Handler'', ''IPC_IRQHandler'']"

definition net_handlers :: "string list" where
  "net_handlers = [''Reset_Handler'', ''HardFault_Handler'', ''IPC_IRQHandler'']"

definition sc_handlers :: "string list" where
  "sc_handlers = [''Reset_Handler'', ''HardFault_Handler'']"

definition sample_handlers :: "string list" where
  "sample_handlers =
     [''Reset_Handler'', ''HardFault_Handler'', ''TIMER0_IRQHandler'', ''IPC_IRQHandler'']"

section \<open>The application core\<close>

definition app_weak_handlers :: "string list" where
  "app_weak_handlers =
     [''exit'', ''NMI_Handler'', ''MemManage_Handler'', ''BusFault_Handler'',
      ''UsageFault_Handler'', ''SVC_Handler'', ''DebugMon_Handler'', ''PendSV_Handler'',
      ''SysTick_Handler'', ''FPU_IRQHandler'', ''CACHE_IRQHandler'', ''SPU_IRQHandler'',
      ''CLOCK_POWER_IRQHandler'', ''SERIAL0_IRQHandler'', ''SERIAL1_IRQHandler'',
      ''SPIM4_IRQHandler'', ''SERIAL2_IRQHandler'', ''SERIAL3_IRQHandler'',
      ''GPIOTE0_IRQHandler'', ''SAADC_IRQHandler'', ''TIMER0_IRQHandler'',
      ''TIMER1_IRQHandler'', ''TIMER2_IRQHandler'', ''RTC0_IRQHandler'', ''RTC1_IRQHandler'',
      ''WDT0_IRQHandler'', ''WDT1_IRQHandler'', ''COMP_LPCOMP_IRQHandler'', ''EGU0_IRQHandler'',
      ''EGU1_IRQHandler'', ''EGU2_IRQHandler'', ''EGU3_IRQHandler'', ''EGU4_IRQHandler'',
      ''EGU5_IRQHandler'', ''PWM0_IRQHandler'', ''PWM1_IRQHandler'', ''PWM2_IRQHandler'',
      ''PWM3_IRQHandler'', ''PDM0_IRQHandler'', ''I2S0_IRQHandler'', ''IPC_IRQHandler'',
      ''QSPI_IRQHandler'', ''NFCT_IRQHandler'', ''GPIOTE1_IRQHandler'', ''QDEC0_IRQHandler'',
      ''QDEC1_IRQHandler'', ''USBD_IRQHandler'', ''USBREGULATOR_IRQHandler'',
      ''KMU_IRQHandler'', ''CRYPTOCELL_IRQHandler'']"

definition app_vectors :: "vector list" where
  "app_vectors = vector_table 496
     [Stack_End, Handler ''Reset_Handler'', Handler ''NMI_Handler'',
      Handler ''HardFault_Handler'', Handler ''MemManage_Handler'',
      Handler ''BusFault_Handler'', Handler ''UsageFault_Handler'',
      Handler ''SecureFault_Handler'', Reserved, Reserved, Reserved, Handler ''SVC_Handler'',
      Handler ''DebugMon_Handler'', Reserved, Handler ''PendSV_Handler'',
      Handler ''SysTick_Handler'', Handler ''FPU_IRQHandler'', Handler ''CACHE_IRQHandler'',
      Reserved, Handler ''SPU_IRQHandler'', Reserved, Handler ''CLOCK_POWER_IRQHandler'',
      Reserved, Reserved, Handler ''SERIAL0_IRQHandler'', Handler ''SERIAL1_IRQHandler'',
      Handler ''SPIM4_IRQHandler'', Handler ''SERIAL2_IRQHandler'',
      Handler ''SERIAL3_IRQHandler'', Handler ''GPIOTE0_IRQHandler'',
      Handler ''SAADC_IRQHandler'', Handler ''TIMER0_IRQHandler'',
      Handler ''TIMER1_IRQHandler'', Handler ''TIMER2_IRQHandler'', Reserved, Reserved,
      Handler ''RTC0_IRQHandler'', Handler ''RTC1_IRQHandler'', Reserved, Reserved,
      Handler ''WDT0_IRQHandler'', Handler ''WDT1_IRQHandler'',
      Handler ''COMP_LPCOMP_IRQHandler'', Handler ''EGU0_IRQHandler'',
      Handler ''EGU1_IRQHandler'', Handler ''EGU2_IRQHandler'', Handler ''EGU3_IRQHandler'',
      Handler ''EGU4_IRQHandler'', Handler ''EGU5_IRQHandler'', Handler ''PWM0_IRQHandler'',
      Handler ''PWM1_IRQHandler'', Handler ''PWM2_IRQHandler'', Handler ''PWM3_IRQHandler'',
      Reserved, Handler ''PDM0_IRQHandler'', Reserved, Handler ''I2S0_IRQHandler'', Reserved,
      Handler ''IPC_IRQHandler'', Handler ''QSPI_IRQHandler'', Reserved,
      Handler ''NFCT_IRQHandler'', Reserved, Handler ''GPIOTE1_IRQHandler'', Reserved, Reserved,
      Reserved, Handler ''QDEC0_IRQHandler'', Handler ''QDEC1_IRQHandler'', Reserved,
      Handler ''USBD_IRQHandler'', Handler ''USBREGULATOR_IRQHandler'', Reserved,
      Handler ''KMU_IRQHandler'', Reserved, Reserved, Reserved, Reserved, Reserved, Reserved,
      Reserved, Reserved, Reserved, Reserved, Handler ''CRYPTOCELL_IRQHandler'']"

section \<open>The network core\<close>

definition net_weak_handlers :: "string list" where
  "net_weak_handlers =
     [''exit'', ''NMI_Handler'', ''MemManage_Handler'', ''BusFault_Handler'',
      ''UsageFault_Handler'', ''SVC_Handler'', ''DebugMon_Handler'', ''PendSV_Handler'',
      ''SysTick_Handler'', ''CLOCK_POWER_IRQHandler'', ''RADIO_IRQHandler'', ''RNG_IRQHandler'',
      ''GPIOTE_IRQHandler'', ''WDT_IRQHandler'', ''TIMER0_IRQHandler'', ''ECB_IRQHandler'',
      ''AAR_CCM_IRQHandler'', ''TEMP_IRQHandler'', ''RTC0_IRQHandler'', ''IPC_IRQHandler'',
      ''SERIAL0_IRQHandler'', ''EGU0_IRQHandler'', ''RTC1_IRQHandler'', ''TIMER1_IRQHandler'',
      ''TIMER2_IRQHandler'', ''SWI0_IRQHandler'', ''SWI1_IRQHandler'', ''SWI2_IRQHandler'',
      ''SWI3_IRQHandler'']"

definition net_vectors :: "vector list" where
  "net_vectors = vector_table 496
     [Stack_End, Handler ''Reset_Handler'', Handler ''NMI_Handler'',
      Handler ''HardFault_Handler'', Handler ''MemManage_Handler'',
      Handler ''BusFault_Handler'', Handler ''UsageFault_Handler'', Reserved, Reserved,
      Reserved, Reserved, Handler ''SVC_Handler'', Handler ''DebugMon_Handler'', Reserved,
      Handler ''PendSV_Handler'', Handler ''SysTick_Handler'', Reserved, Reserved, Reserved,
      Reserved, Reserved, Handler ''CLOCK_POWER_IRQHandler'', Reserved, Reserved,
      Handler ''RADIO_IRQHandler'', Handler ''RNG_IRQHandler'', Handler ''GPIOTE_IRQHandler'',
      Handler ''WDT_IRQHandler'', Handler ''TIMER0_IRQHandler'', Handler ''ECB_IRQHandler'',
      Handler ''AAR_CCM_IRQHandler'', Reserved, Handler ''TEMP_IRQHandler'',
      Handler ''RTC0_IRQHandler'', Handler ''IPC_IRQHandler'', Handler ''SERIAL0_IRQHandler'',
      Handler ''EGU0_IRQHandler'', Reserved, Handler ''RTC1_IRQHandler'', Reserved,
      Handler ''TIMER1_IRQHandler'', Handler ''TIMER2_IRQHandler'', Handler ''SWI0_IRQHandler'',
      Handler ''SWI1_IRQHandler'', Handler ''SWI2_IRQHandler'', Handler ''SWI3_IRQHandler'']"

section \<open>The single-core bootloader\<close>

definition sc_weak_handlers :: "string list" where
  "sc_weak_handlers =
     [''exit'', ''NMI_Handler'', ''MemManage_Handler'', ''BusFault_Handler'',
      ''UsageFault_Handler'', ''SVC_Handler'', ''DebugMon_Handler'', ''PendSV_Handler'',
      ''SysTick_Handler'', ''POWER_CLOCK_IRQHandler'', ''RADIO_IRQHandler'',
      ''UARTE0_UART0_IRQHandler'', ''SPIM0_SPIS0_TWIM0_TWIS0_SPI0_TWI0_IRQHandler'',
      ''SPIM1_SPIS1_TWIM1_TWIS1_SPI1_TWI1_IRQHandler'', ''NFCT_IRQHandler'',
      ''GPIOTE_IRQHandler'', ''SAADC_IRQHandler'', ''TIMER0_IRQHandler'', ''TIMER1_IRQHandler'',
      ''TIMER2_IRQHandler'', ''RTC0_IRQHandler'', ''TEMP_IRQHandler'', ''RNG_IRQHandler'',
      ''ECB_IRQHandler'', ''CCM_AAR_IRQHandler'', ''WDT_IRQHandler'', ''RTC1_IRQHandler'',
      ''QDEC_IRQHandler'', ''COMP_LPCOMP_IRQHandler'', ''SWI0_EGU0_IRQHandler'',
      ''SWI1_EGU1_IRQHandler'', ''SWI2_EGU2_IRQHandler'', ''SWI3_EGU3_IRQHandler'',
      ''SWI4_EGU4_IRQHandler'', ''SWI5_EGU5_IRQHandler'', ''TIMER3_IRQHandler'',
      ''TIMER4_IRQHandler'', ''PWM0_IRQHandler'', ''PDM_IRQHandler'', ''MWU_IRQHandler'',
      ''PWM1_IRQHandler'', ''PWM2_IRQHandler'', ''SPIM2_SPIS2_SPI2_IRQHandler'',
      ''RTC2_IRQHandler'', ''I2S_IRQHandler'', ''FPU_IRQHandler'', ''USBD_IRQHandler'',
      ''UARTE1_IRQHandler'', ''QSPI_IRQHandler'', ''CRYPTOCELL_IRQHandler'',
      ''PWM3_IRQHandler'', ''SPIM3_IRQHandler'']"

definition sc_vectors :: "vector list" where
  "sc_vectors = vector_table 64
     [Stack_End, Handler ''Reset_Handler'', Handler ''NMI_Handler'',
      Handler ''HardFault_Handler'', Handler ''MemManage_Handler'',
      Handler ''BusFault_Handler'', Handler ''UsageFault_Handler'', Reserved, Reserved,
      Reserved, Reserved, Handler ''SVC_Handler'', Handler ''DebugMon_Handler'', Reserved,
      Handler ''PendSV_Handler'', Handler ''SysTick_Handler'',
      Handler ''POWER_CLOCK_IRQHandler'', Handler ''RADIO_IRQHandler'',
      Handler ''UARTE0_UART0_IRQHandler'',
      Handler ''SPIM0_SPIS0_TWIM0_TWIS0_SPI0_TWI0_IRQHandler'',
      Handler ''SPIM1_SPIS1_TWIM1_TWIS1_SPI1_TWI1_IRQHandler'', Handler ''NFCT_IRQHandler'',
      Handler ''GPIOTE_IRQHandler'', Handler ''SAADC_IRQHandler'',
      Handler ''TIMER0_IRQHandler'', Handler ''TIMER1_IRQHandler'',
      Handler ''TIMER2_IRQHandler'', Handler ''RTC0_IRQHandler'', Handler ''TEMP_IRQHandler'',
      Handler ''RNG_IRQHandler'', Handler ''ECB_IRQHandler'', Handler ''CCM_AAR_IRQHandler'',
      Handler ''WDT_IRQHandler'', Handler ''RTC1_IRQHandler'', Handler ''QDEC_IRQHandler'',
      Handler ''COMP_LPCOMP_IRQHandler'', Handler ''SWI0_EGU0_IRQHandler'',
      Handler ''SWI1_EGU1_IRQHandler'', Handler ''SWI2_EGU2_IRQHandler'',
      Handler ''SWI3_EGU3_IRQHandler'', Handler ''SWI4_EGU4_IRQHandler'',
      Handler ''SWI5_EGU5_IRQHandler'', Handler ''TIMER3_IRQHandler'',
      Handler ''TIMER4_IRQHandler'', Handler ''PWM0_IRQHandler'', Handler ''PDM_IRQHandler'',
      Reserved, Reserved, Handler ''MWU_IRQHandler'', Handler ''PWM1_IRQHandler'',
      Handler ''PWM2_IRQHandler'', Handler ''SPIM2_SPIS2_SPI2_IRQHandler'',
      Handler ''RTC2_IRQHandler'', Handler ''I2S_IRQHandler'', Handler ''FPU_IRQHandler'',
      Handler ''USBD_IRQHandler'', Handler ''UARTE1_IRQHandler'', Handler ''QSPI_IRQHandler'',
      Handler ''CRYPTOCELL_IRQHandler'', Reserved, Reserved, Handler ''PWM3_IRQHandler'',
      Reserved, Handler ''SPIM3_IRQHandler'']"

section \<open>The sample user image\<close>

definition sample_weak_handlers :: "string list" where
  "sample_weak_handlers =
     [''NMI_Handler'', ''MemManage_Handler'', ''BusFault_Handler'', ''UsageFault_Handler'',
      ''SVC_Handler'', ''DebugMon_Handler'', ''PendSV_Handler'', ''SysTick_Handler'',
      ''FPU_IRQHandler'', ''CACHE_IRQHandler'', ''SPU_IRQHandler'', ''CLOCK_POWER_IRQHandler'',
      ''SERIAL0_IRQHandler'', ''SERIAL1_IRQHandler'', ''SPIM4_IRQHandler'',
      ''SERIAL2_IRQHandler'', ''SERIAL3_IRQHandler'', ''GPIOTE0_IRQHandler'',
      ''SAADC_IRQHandler'', ''TIMER0_IRQHandler'', ''TIMER1_IRQHandler'', ''TIMER2_IRQHandler'',
      ''RTC0_IRQHandler'', ''RTC1_IRQHandler'', ''WDT0_IRQHandler'', ''WDT1_IRQHandler'',
      ''COMP_LPCOMP_IRQHandler'', ''EGU0_IRQHandler'', ''EGU1_IRQHandler'', ''EGU2_IRQHandler'',
      ''EGU3_IRQHandler'', ''EGU4_IRQHandler'', ''EGU5_IRQHandler'', ''PWM0_IRQHandler'',
      ''PWM1_IRQHandler'', ''PWM2_IRQHandler'', ''PWM3_IRQHandler'', ''PDM0_IRQHandler'',
      ''I2S0_IRQHandler'', ''IPC_IRQHandler'', ''QSPI_IRQHandler'', ''NFCT_IRQHandler'',
      ''GPIOTE1_IRQHandler'', ''QDEC0_IRQHandler'', ''QDEC1_IRQHandler'', ''USBD_IRQHandler'',
      ''USBREGULATOR_IRQHandler'', ''KMU_IRQHandler'', ''CRYPTOCELL_IRQHandler'']"

definition sample_vectors :: "vector list" where
  "sample_vectors = vector_table 496
     [Stack_End, Handler ''Reset_Handler'', Handler ''NMI_Handler'',
      Handler ''HardFault_Handler'', Handler ''MemManage_Handler'',
      Handler ''BusFault_Handler'', Handler ''UsageFault_Handler'', Reserved, Reserved,
      Reserved, Reserved, Handler ''SVC_Handler'', Handler ''DebugMon_Handler'', Reserved,
      Handler ''PendSV_Handler'', Handler ''SysTick_Handler'', Handler ''FPU_IRQHandler'',
      Handler ''CACHE_IRQHandler'', Reserved, Handler ''SPU_IRQHandler'', Reserved,
      Handler ''CLOCK_POWER_IRQHandler'', Reserved, Reserved, Handler ''SERIAL0_IRQHandler'',
      Handler ''SERIAL1_IRQHandler'', Handler ''SPIM4_IRQHandler'',
      Handler ''SERIAL2_IRQHandler'', Handler ''SERIAL3_IRQHandler'',
      Handler ''GPIOTE0_IRQHandler'', Handler ''SAADC_IRQHandler'',
      Handler ''TIMER0_IRQHandler'', Handler ''TIMER1_IRQHandler'',
      Handler ''TIMER2_IRQHandler'', Reserved, Reserved, Handler ''RTC0_IRQHandler'',
      Handler ''RTC1_IRQHandler'', Reserved, Reserved, Handler ''WDT0_IRQHandler'',
      Handler ''WDT1_IRQHandler'', Handler ''COMP_LPCOMP_IRQHandler'',
      Handler ''EGU0_IRQHandler'', Handler ''EGU1_IRQHandler'', Handler ''EGU2_IRQHandler'',
      Handler ''EGU3_IRQHandler'', Handler ''EGU4_IRQHandler'', Handler ''EGU5_IRQHandler'',
      Handler ''PWM0_IRQHandler'', Handler ''PWM1_IRQHandler'', Handler ''PWM2_IRQHandler'',
      Handler ''PWM3_IRQHandler'', Reserved, Handler ''PDM0_IRQHandler'', Reserved,
      Handler ''I2S0_IRQHandler'', Reserved, Handler ''IPC_IRQHandler'',
      Handler ''QSPI_IRQHandler'', Reserved, Handler ''NFCT_IRQHandler'', Reserved,
      Handler ''GPIOTE1_IRQHandler'', Reserved, Reserved, Reserved,
      Handler ''QDEC0_IRQHandler'', Handler ''QDEC1_IRQHandler'', Reserved,
      Handler ''USBD_IRQHandler'', Handler ''USBREGULATOR_IRQHandler'', Reserved,
      Handler ''KMU_IRQHandler'', Reserved, Reserved, Reserved, Reserved, Reserved, Reserved,
      Reserved, Reserved, Reserved, Reserved, Handler ''CRYPTOCELL_IRQHandler'']"

section \<open>Every vector links\<close>

lemma link_None_iff: "link strong weak h = None \<longleftrightarrow> h \<notin> set strong \<and> h \<notin> set weak"
  by (simp add: link_def)

lemma vector_links_more:
  "list_all (vector_links strong weak) vs \<Longrightarrow> list_all (vector_links (strong @ ext) weak) vs"
  by (auto simp: list_all_iff vector_links_def link_None_iff simp del: not_None_eq split: vector.splits)

lemma tables_link:
  "list_all (vector_links app_handlers app_weak_handlers) app_vectors"
  "list_all (vector_links net_handlers net_weak_handlers) net_vectors"
  "list_all (vector_links sc_handlers sc_weak_handlers) sc_vectors"
  "list_all (vector_links sample_handlers sample_weak_handlers) sample_vectors"
  by code_simp+

lemma ipc_entries:
  "exception_entry app_handlers app_weak_handlers app_vectors (16 + 42) = Some (Own ''IPC_IRQHandler'')"
  "exception_entry net_handlers net_weak_handlers net_vectors (16 + 18) = Some (Own ''IPC_IRQHandler'')"
  "exception_entry sample_handlers sample_weak_handlers sample_vectors (16 + 42)
     = Some (Own ''IPC_IRQHandler'')"
  "exception_entry sample_handlers sample_weak_handlers sample_vectors (16 + 15)
     = Some (Own ''TIMER0_IRQHandler'')"
  by code_simp+

end
