(* ===== verification/Faults.thy ===== *)
theory Faults
  imports Arm_Core
begin

text \<open>
  The fault handlers (\<open>System/fault_handlers.c\<close> and \<open>fault_handlers.h\<close> of the four images): the
  records a debug build keeps of a fault, the bit fields they are read with, and the handlers. The
  stack frame of the exception is eight words of memory at \<open>sp\<close>. A handler that does not return
  is \<open>Stuck\<close>.
\<close>

section \<open>The records\<close>

record fault_frame =
  f_r0 :: u32
  f_r1 :: u32
  f_r2 :: u32
  f_r3 :: u32
  f_r12 :: u32
  f_lr :: u32
  f_pc :: u32
  f_psr :: u32

record hardfault_regs =
  regs :: fault_frame
  shcsr :: u32
  mmfsr :: u8
  mmfar :: u32
  bfsr :: u8
  bfar :: u32
  ufsr :: u16
  hfsr :: u32
  dfsr :: u32
  afsr :: u32

text \<open>The core with the records; \<open>sfsr\<close> is \<open>securefault_reg\<close>, which only the bootloader of the
  application core has.\<close>

record fault_core =
  f_core :: core
  f_hard :: hardfault_regs
  f_sfsr :: u32

section \<open>The bit fields\<close>

text \<open>A struct of bit fields, from the least significant bit: the name and width of each, an unnamed
  one is empty. \<open>bit_positions\<close> is where the fields lie, \<open>field_value\<close> reads one.\<close>

type_synonym bit_fields = "(string \<times> nat) list"

primrec bit_positions :: "nat \<Rightarrow> bit_fields \<Rightarrow> (string \<times> nat) list" where
  "bit_positions k [] = []"
| "bit_positions k (f # fs) = (fst f, k) # bit_positions (k + snd f) fs"

definition fields_width :: "bit_fields \<Rightarrow> nat" where
  "fields_width fs = sum_list (map snd fs)"

primrec field_value :: "bit_fields \<Rightarrow> string \<Rightarrow> u32 \<Rightarrow> u32 option" where
  "field_value [] name w = None"
| "field_value (f # fs) name w =
     (if fst f = name then Some (take_bit (snd f) w) else field_value fs name (drop_bit (snd f) w))"

definition psr_fields :: bit_fields where
  "psr_fields = [(''IPSR'', 8), (''EPSR'', 19), (''APSR'', 5)]"

definition shcsr_fields :: bit_fields where
  "shcsr_fields =
     [(''MEMFAULTACT'', 1), (''BUSFAULTACT'', 1), (''HARDFAULTACT'', 1), (''USGFAULTACT'', 1),
      (''SECUREFAULTACT'', 1), (''NMIACT'', 1), ([], 1), (''SVCALLACT'', 1), (''MONITORACT'', 1),
      ([], 1), (''PENDSVACT'', 1), (''SYSTICKACT'', 1), (''USGFAULTPENDED'', 1),
      (''MEMFAULTPENDED'', 1), (''BUSFAULTPENDED'', 1), (''SVCALLPENDED'', 1), (''MEMFAULTENA'', 1),
      (''BUSFAULTENA'', 1), (''USGFAULTENA'', 1), (''SECUREFAULTENA'', 1), (''SECUREFAULTPENDED'', 1),
      (''HARDFAULTPENDED'', 1), ([], 10)]"

definition mmfsr_fields :: bit_fields where
  "mmfsr_fields =
     [(''IACCVIOL'', 1), (''DACCVIOL'', 1), ([], 1), (''MUNSTKERR'', 1), (''MSTKERR'', 1),
      (''MLSPERR'', 1), ([], 1), (''MMARVALID'', 1), ([], 24)]"

definition bfsr_fields :: bit_fields where
  "bfsr_fields =
     [(''IBUSERR'', 1), (''PRECISERR'', 1), (''IMPRECISERR'', 1), (''UNSTKERR'', 1), (''STKERR'', 1),
      (''LSPERR'', 1), ([], 1), (''BFARVALID'', 1), ([], 24)]"

definition ufsr_fields :: bit_fields where
  "ufsr_fields =
     [(''UNDEFINSTR'', 1), (''INVSTATE'', 1), (''INVPC'', 1), (''NOCP'', 1), (''STKOF'', 1), ([], 3),
      (''UNALIGNED'', 1), (''DIVBYZERO'', 1), ([], 22)]"

definition hfsr_fields :: bit_fields where
  "hfsr_fields = [([], 1), (''VECTTBL'', 1), ([], 28), (''FORCED'', 1), (''DEBUGEVT'', 1)]"

definition dfsr_fields :: bit_fields where
  "dfsr_fields =
     [(''HALTED'', 1), (''BKPT'', 1), (''DWTTRAP'', 1), (''VCATCH'', 1), (''EXTERNAL'', 1), (''PMU'', 1),
      ([], 26)]"

definition sfsr_fields :: bit_fields where
  "sfsr_fields =
     [(''LSERR'', 1), (''SFARVALID'', 1), (''LSPERR'', 1), (''INVTRAN'', 1), (''AUVIOL'', 1), (''INVER'', 1),
      (''INVIS'', 1), (''INVEP'', 1), ([], 24)]"

text \<open>The positions the comments of the header give the named fields.\<close>

definition documented_positions :: "(bit_fields \<times> nat list) list" where
  "documented_positions =
     [(shcsr_fields, [0, 1, 2, 3, 4, 5, 7, 8, 10, 11, 12, 13, 14, 15, 16, 17, 18, 19, 20, 21]),
      (mmfsr_fields, [0, 1, 3, 4, 5, 7]), (bfsr_fields, [0, 1, 2, 3, 4, 5, 7]),
      (ufsr_fields, [0, 1, 2, 3, 4, 8, 9]), (hfsr_fields, [1, 30, 31]),
      (dfsr_fields, [0, 1, 2, 3, 4, 5]), (sfsr_fields, [0, 1, 2, 3, 4, 5, 6, 7])]"

definition named_positions :: "bit_fields \<Rightarrow> nat list" where
  "named_positions fs = map snd (filter (\<lambda>p. fst p \<noteq> []) (bit_positions 0 fs))"

section \<open>The handlers\<close>

definition DEBUGEVT_Msk :: u32 where "DEBUGEVT_Msk = push_bit 31 1"

definition frame_at :: "u32 \<Rightarrow> core \<Rightarrow> fault_frame" where
  "frame_at sp c =
     \<lparr>f_r0 = c_mem c sp, f_r1 = c_mem c (sp + 4), f_r2 = c_mem c (sp + 8), f_r3 = c_mem c (sp + 12),
      f_r12 = c_mem c (sp + 16), f_lr = c_mem c (sp + 20), f_pc = c_mem c (sp + 24),
      f_psr = c_mem c (sp + 28)\<rparr>"

text \<open>What a debug build records. The three configurable fault status registers are bytes of CFSR;
  the code takes them from SHCSR.\<close>

definition record_hardfault :: "u32 \<Rightarrow> fault_core \<Rightarrow> fault_core" where
  "record_hardfault sp s =
     (let c = f_core s
      in s\<lparr>f_hard :=
           \<lparr>regs = frame_at sp c,
            shcsr = c_reg c SHCSR,
            mmfsr = ucast (c_reg c SHCSR AND 0xFF),
            mmfar = c_reg c MMFAR,
            bfsr = ucast (drop_bit 8 (c_reg c SHCSR AND 0xFF00)),
            bfar = c_reg c BFAR,
            ufsr = ucast (drop_bit 16 (c_reg c SHCSR)),
            hfsr = c_reg c HFSR,
            dfsr = c_reg c DFSR,
            afsr = c_reg c AFSR\<rparr>\<rparr>)"

definition HardFaultHandler :: "bool \<Rightarrow> u32 \<Rightarrow> fault_core \<Rightarrow> fault_core outcome" where
  "HardFaultHandler debug sp s =
     (let c = f_core s
      in if c_reg c HFSR AND DEBUGEVT_Msk \<noteq> 0
         then let c1 = wr HFSR (c_reg c HFSR OR DEBUGEVT_Msk) c
              in Continue (s\<lparr>f_core := st (sp + 4 * 6) (c_mem c1 (sp + 4 * 6) + 2) c1\<rparr>)
         else Stuck (only_if debug (record_hardfault sp) s))"

definition SecureFaultHandler :: "bool \<Rightarrow> u32 \<Rightarrow> fault_core \<Rightarrow> fault_core outcome" where
  "SecureFaultHandler debug sp s =
     Stuck (only_if debug
       (\<lambda>s. s\<lparr>f_sfsr := c_reg (f_core s) SFSR,
               f_hard := (f_hard s)\<lparr>regs := frame_at sp (f_core s)\<rparr>\<rparr>) s)"

section \<open>Facts\<close>

lemma field_widths:
  "fields_width psr_fields = 32" "fields_width shcsr_fields = 32" "fields_width mmfsr_fields = 32"
  "fields_width bfsr_fields = 32" "fields_width ufsr_fields = 32" "fields_width hfsr_fields = 32"
  "fields_width dfsr_fields = 32" "fields_width sfsr_fields = 32"
  by code_simp+

lemma positions_documented: "list_all (\<lambda>(fs, ps). named_positions fs = ps) documented_positions"
  by code_simp

lemma wr_hfsr:
  "c_reg (wr HFSR (c_reg c HFSR OR v) c) HFSR = 0"
proof -
  have "c_reg c HFSR AND NOT (c_reg c HFSR OR v) = 0"
    by (rule bit_word_eqI) (auto simp: bit_simps)
  then show ?thesis by (simp add: reg_after_def)
qed

lemma bit_DEBUGEVT: "(w :: u32) AND DEBUGEVT_Msk \<noteq> 0 \<longleftrightarrow> bit w 31"
  unfolding DEBUGEVT_Msk_def by (simp only: push_bit_of_1 and_exp_eq_0_iff_not_bit not_not)

end
