(* ===== verification/Images.thy ===== *)
theory Images
  imports Vectors Faults Startup Trustzone Ipc
begin

text \<open>
  What the images declare each for itself. The bootloader of the application core, the network core's
  firmware, the single-core bootloader and the sample image have their own copies of the protocol's
  header, of the IPC header and of the fault handlers, and the controller has a fourth description of
  the protocol in Python: nothing but these declarations makes them understand each other. Each copy
  is translated here from its own file, and compared.
\<close>

unbundle bit_operations_syntax

section \<open>Enumerations\<close>

text \<open>An enumerator without a value is one more than the one before.\<close>

type_synonym c_enum = "(string \<times> int option) list"

fun enumerators :: "int \<Rightarrow> c_enum \<Rightarrow> (string \<times> int) list" where
  "enumerators c [] = []"
| "enumerators c ((n, v) # es) = (let d = (case v of None \<Rightarrow> c | Some i \<Rightarrow> i) in (n, d) # enumerators (d + 1) es)"

text \<open>Two declarations of an enumeration agree when they give the enumerators they share the same
  values.\<close>

definition same_codes :: "c_enum \<Rightarrow> c_enum \<Rightarrow> bool" where
  "same_codes e1 e2 =
     list_all (\<lambda>(n, c). case map_of (enumerators 0 e2) n of None \<Rightarrow> True | Some d \<Rightarrow> c = d) (enumerators 0 e1)"

definition enums_agree :: "(string \<times> c_enum) list \<Rightarrow> (string \<times> c_enum) list \<Rightarrow> bool" where
  "enums_agree ds1 ds2 =
     list_all (\<lambda>(t, e). case map_of ds2 t of None \<Rightarrow> True | Some e' \<Rightarrow> same_codes e e') ds1"

definition enum_codes :: "(string \<times> c_enum) list \<Rightarrow> string \<Rightarrow> int list" where
  "enum_codes ds t = (case map_of ds t of None \<Rightarrow> [] | Some e \<Rightarrow> map snd (enumerators 0 e))"

text \<open>What the first declaration has and the second has not.\<close>

definition only_first :: "(string \<times> c_enum) list \<Rightarrow> (string \<times> c_enum) list \<Rightarrow> string \<Rightarrow> string list" where
  "only_first ds1 ds2 t =
     (case (map_of ds1 t, map_of ds2 t) of
        (Some e1, Some e2) \<Rightarrow> filter (\<lambda>n. n \<notin> set (map fst e2)) (map fst e1)
      | _ \<Rightarrow> [])"

definition net_enums :: "(string \<times> c_enum) list" where
  "net_enums =
     [(''swrmt_device_type_t'',
       [(''SWRMT_DEVICE_TYPE_UNKNOWN'', Some 0), (''SWRMT_DEVICE_TYPE_DOTBOTV3'', Some 1),
        (''SWRMT_DEVICE_TYPE_DOTBOTV2'', Some 2), (''SWRMT_DEVICE_TYPE_NRF5340DK'', Some 3)]),
      (''swrmt_application_status_t'',
       [(''SWRMT_APPLICATION_READY'', Some 0), (''SWRMT_APPLICATION_RUNNING'', None),
        (''SWRMT_APPLICATION_STOPPING'', None), (''SWRMT_APPLICATION_RESETTING'', None),
        (''SWRMT_APPLICATION_PROGRAMMING'', None)]),
      (''swrmt_message_type_t'',
       [(''SWRMT_MSG_STATUS'', Some 0x80), (''SWRMT_MSG_START'', Some 0x81),
        (''SWRMT_MSG_STOP'', Some 0x82), (''SWRMT_MSG_RESET'', Some 0x83),
        (''SWRMT_MSG_OTA_START'', Some 0x84), (''SWRMT_MSG_OTA_CHUNK'', Some 0x85),
        (''SWRMT_MSG_OTA_START_ACK'', Some 0x86), (''SWRMT_MSG_OTA_CHUNK_ACK'', Some 0x87),
        (''SWRMT_MSG_GPIO_EVENT'', Some 0x88), (''SWRMT_MSG_LOG_EVENT'', Some 0x89),
        (''SWRMT_MESSAGE'', Some 0xA0), (''SWRMT_MSG_LH2_CALIBRATION'', Some 0xA1),
        (''SWRMT_MSG_LH2_CAPTURE'', Some 0xA2)]),
      (''packet_type_t'',
       [(''PACKET_BEACON'', Some 1), (''PACKET_JOIN_REQUEST'', Some 2),
        (''PACKET_JOIN_RESPONSE'', Some 4), (''PACKET_KEEPALIVE'', Some 8),
        (''PACKET_DATA'', Some 16)]),
      (''protocol_data_type_t'',
       [(''PROTOCOL_LH2_RAW_DATA'', Some 2), (''PROTOCOL_LH2_LOCATION'', Some 3),
        (''PROTOCOL_DOTBOT_DATA'', Some 6), (''PROTOCOL_LH2_PROCESSED_DATA'', Some 12)])]"

definition app_enums :: "(string \<times> c_enum) list" where
  "app_enums =
     [(''swrmt_application_status_t'',
       [(''SWRMT_APPLICATION_READY'', Some 0), (''SWRMT_APPLICATION_RUNNING'', None),
        (''SWRMT_APPLICATION_STOPPING'', None), (''SWRMT_APPLICATION_RESETTING'', None),
        (''SWRMT_APPLICATION_PROGRAMMING'', None)]),
      (''swrmt_message_type_t'',
       [(''SWRMT_MSG_STATUS'', Some 0x80), (''SWRMT_MSG_START'', Some 0x81),
        (''SWRMT_MSG_STOP'', Some 0x82), (''SWRMT_MSG_RESET'', Some 0x83),
        (''SWRMT_MSG_OTA_START'', Some 0x84), (''SWRMT_MSG_OTA_CHUNK'', Some 0x85),
        (''SWRMT_MSG_OTA_START_ACK'', Some 0x86), (''SWRMT_MSG_OTA_CHUNK_ACK'', Some 0x87),
        (''SWRMT_MSG_GPIO_EVENT'', Some 0x88), (''SWRMT_MSG_LOG_EVENT'', Some 0x89)]),
      (''application_type_t'',
       [(''DotBot'', Some 0), (''SailBot'', Some 1), (''FreeBot'', Some 2), (''XGO'', Some 3),
        (''LH2_mini_mote'', Some 4)]),
      (''swrmt_device_type_t'',
       [(''SWRMT_DEVICE_TYPE_UNKNOWN'', Some 0), (''SWRMT_DEVICE_TYPE_DOTBOTV3'', Some 1),
        (''SWRMT_DEVICE_TYPE_DOTBOTV2'', Some 2), (''SWRMT_DEVICE_TYPE_NRF5340DK'', Some 3),
        (''SWRMT_DEVICE_TYPE_NRF52840DK'', Some 4)]),
      (''packet_type_t'',
       [(''PACKET_BEACON'', Some 1), (''PACKET_JOIN_REQUEST'', Some 2),
        (''PACKET_JOIN_RESPONSE'', Some 4), (''PACKET_KEEPALIVE'', Some 8),
        (''PACKET_DATA'', Some 16)]),
      (''protocol_data_type_t'',
       [(''PROTOCOL_LH2_RAW_DATA'', Some 2), (''PROTOCOL_LH2_LOCATION'', Some 3),
        (''PROTOCOL_ADVERTISEMENT'', Some 4), (''PROTOCOL_DOTBOT_DATA'', Some 6),
        (''PROTOCOL_LH2_PROCESSED_DATA'', Some 12)])]"

definition sc_enums :: "(string \<times> c_enum) list" where
  "sc_enums =
     [(''swrmt_application_status_t'',
       [(''SWRMT_APPLICATION_READY'', Some 0), (''SWRMT_APPLICATION_RUNNING'', None),
        (''SWRMT_APPLICATION_STOPPING'', None), (''SWRMT_APPLICATION_RESETTING'', None),
        (''SWRMT_APPLICATION_PROGRAMMING'', None)]),
      (''swrmt_message_type_t'',
       [(''SWRMT_MSG_STATUS'', Some 0x80), (''SWRMT_MSG_START'', Some 0x81),
        (''SWRMT_MSG_STOP'', Some 0x82), (''SWRMT_MSG_RESET'', Some 0x83),
        (''SWRMT_MSG_OTA_START'', Some 0x84), (''SWRMT_MSG_OTA_CHUNK'', Some 0x85),
        (''SWRMT_MSG_OTA_START_ACK'', Some 0x86), (''SWRMT_MSG_OTA_CHUNK_ACK'', Some 0x87),
        (''SWRMT_MSG_GPIO_EVENT'', Some 0x88), (''SWRMT_MSG_LOG_EVENT'', Some 0x89)]),
      (''application_type_t'',
       [(''DotBot'', Some 0), (''SailBot'', Some 1), (''FreeBot'', Some 2), (''XGO'', Some 3),
        (''LH2_mini_mote'', Some 4)]),
      (''swrmt_device_type_t'',
       [(''SWRMT_DEVICE_TYPE_UNKNOWN'', Some 0), (''SWRMT_DEVICE_TYPE_DOTBOTV3'', Some 1),
        (''SWRMT_DEVICE_TYPE_DOTBOTV2'', Some 2), (''SWRMT_DEVICE_TYPE_NRF5340DK'', Some 3),
        (''SWRMT_DEVICE_TYPE_NRF52840DK'', Some 4)])]"

definition net_ipc_enums :: "(string \<times> c_enum) list" where
  "net_ipc_enums =
     [(''ipc_req_t'',
       [(''IPC_REQ_NONE'', None), (''IPC_MARI_INIT_REQ'', None), (''IPC_MARI_NODE_TX_REQ'', None),
        (''IPC_RNG_INIT_REQ'', None), (''IPC_RNG_READ_REQ'', None)]),
      (''ipc_channels_t'',
       [(''IPC_CHAN_REQ'', Some 0), (''IPC_CHAN_RADIO_RX'', Some 1),
        (''IPC_CHAN_APPLICATION_START'', Some 2), (''IPC_CHAN_APPLICATION_STOP'', Some 3),
        (''IPC_CHAN_SOC_RESET'', Some 4), (''IPC_CHAN_LOG_EVENT'', Some 5),
        (''IPC_CHAN_OTA_START'', Some 6), (''IPC_CHAN_OTA_CHUNK'', Some 7),
        (''IPC_CHAN_CALIBRATION_DATA'', Some 8), (''IPC_CHAN_LH2_CAPTURE'', Some 9)])]"

definition app_ipc_enums :: "(string \<times> c_enum) list" where
  "app_ipc_enums =
     [(''ipc_req_t'',
       [(''IPC_REQ_NONE'', None), (''IPC_MARI_INIT_REQ'', None), (''IPC_MARI_NODE_TX_REQ'', None),
        (''IPC_RNG_INIT_REQ'', None), (''IPC_RNG_READ_REQ'', None)]),
      (''ipc_channels_t'',
       [(''IPC_CHAN_REQ'', Some 0), (''IPC_CHAN_RADIO_RX'', Some 1),
        (''IPC_CHAN_APPLICATION_START'', Some 2), (''IPC_CHAN_APPLICATION_STOP'', Some 3),
        (''IPC_CHAN_SOC_RESET'', Some 4), (''IPC_CHAN_LOG_EVENT'', Some 5),
        (''IPC_CHAN_OTA_START'', Some 6), (''IPC_CHAN_OTA_CHUNK'', Some 7),
        (''IPC_CHAN_CALIBRATION_DATA'', Some 8), (''IPC_CHAN_LH2_CAPTURE'', Some 9)])]"

section \<open>Structs\<close>

definition gpio_data_t :: ctype where
  "gpio_data_t = Struct [(''port'', U8), (''pin'', U8), (''value'', U8)]"

definition swrmt_gpio_event_t :: ctype where
  "swrmt_gpio_event_t = Struct [(''timestamp'', U32), (''data'', gpio_data_t)]"

definition net_protocol_tdma_table_t :: ctype where
  "net_protocol_tdma_table_t =
     Struct [(''frame_period'', U32), (''rx_start'', U32), (''rx_duration'', U16), (''tx_start'', U32),
             (''tx_duration'', U16), (''next_period_start'', U32)]"

definition net_protocol_sync_frame_t :: ctype where
  "net_protocol_sync_frame_t = Struct [(''frame_period'', U32)]"

definition app_protocol_header_t :: ctype where
  "app_protocol_header_t =
     Struct [(''version'', U8), (''packet_type'', CEnum), (''dst'', U64), (''src'', U64)]"

definition app_protocol_tdma_table_t :: ctype where
  "app_protocol_tdma_table_t =
     Struct [(''frame_period'', U32), (''rx_start'', U32), (''rx_duration'', U16), (''tx_start'', U32),
             (''tx_duration'', U16), (''next_period_start'', U32)]"

definition app_protocol_sync_frame_t :: ctype where
  "app_protocol_sync_frame_t = Struct [(''frame_period'', U32)]"

definition protocol_lh2_location_t :: ctype where
  "protocol_lh2_location_t = Struct [(''x'', U32), (''y'', U32)]"

definition localization_homography_t :: ctype where
  "localization_homography_t =
     Struct [(''basestation_index'', U8), (''homography_matrix'', Arr 3 (Arr 3 I32))]"

definition sc_swrmt_ota_start_pkt_t :: ctype where
  "sc_swrmt_ota_start_pkt_t = Struct [(''image_size'', U32), (''chunk_count'', U32)]"

definition sc_swrmt_request_t :: ctype where
  "sc_swrmt_request_t = Struct [(''type'', CEnum), (''data'', Arr 255 U8)]"

text \<open>The structs of the three protocol headers, and those that two headers declare differently.\<close>

definition net_structs :: "(string \<times> ctype) list" where
  "net_structs =
     [(''protocol_header_t'', protocol_header_t), (''swrmt_request_t'', swrmt_request_t),
      (''swrmt_ota_start_pkt_t'', swrmt_ota_start_pkt_t), (''swrmt_ota_chunk_pkt_t'', net_swrmt_ota_chunk_pkt_t),
      (''swrmt_lh2_calibration_data_t'', swrmt_lh2_calibration_data_t), (''gpio_data_t'', gpio_data_t),
      (''swrmt_gpio_event_t'', swrmt_gpio_event_t), (''protocol_tdma_table_t'', net_protocol_tdma_table_t),
      (''protocol_sync_frame_t'', net_protocol_sync_frame_t)]"

definition app_structs :: "(string \<times> ctype) list" where
  "app_structs =
     [(''swrmt_ota_chunk_pkt_t'', app_swrmt_ota_chunk_pkt_t), (''protocol_header_t'', app_protocol_header_t),
      (''protocol_tdma_table_t'', app_protocol_tdma_table_t), (''protocol_sync_frame_t'', app_protocol_sync_frame_t),
      (''protocol_lh2_location_t'', protocol_lh2_location_t)]"

definition sc_structs :: "(string \<times> ctype) list" where
  "sc_structs =
     [(''swrmt_ota_start_pkt_t'', sc_swrmt_ota_start_pkt_t), (''swrmt_ota_chunk_pkt_t'', sc_swrmt_ota_chunk_pkt_t),
      (''swrmt_request_t'', sc_swrmt_request_t)]"

definition structs_differ :: "(string \<times> ctype) list \<Rightarrow> (string \<times> ctype) list \<Rightarrow> string list" where
  "structs_differ ds1 ds2 =
     map fst (filter (\<lambda>(n, t). case map_of ds2 n of None \<Rightarrow> False | Some t' \<Rightarrow> t \<noteq> t') ds1)"

lemmas struct_defs =
  gpio_data_t_def swrmt_gpio_event_t_def net_protocol_tdma_table_t_def net_protocol_sync_frame_t_def
  app_protocol_header_t_def app_protocol_tdma_table_t_def app_protocol_sync_frame_t_def
  protocol_lh2_location_t_def sc_swrmt_ota_start_pkt_t_def sc_swrmt_request_t_def
  net_structs_def app_structs_def sc_structs_def structs_differ_def

section \<open>The controller's description\<close>

text \<open>The fields of a payload in order with their lengths in bytes; 0 is the rest of the packet, and a
  field without a length has one byte.\<close>

definition host_status_types :: "(string \<times> int) list" where
  "host_status_types =
     [(''Bootloader'', 0), (''Running'', 1), (''Stopping'', 2), (''Resetting'', 3), (''Programming'', 4)]"

definition host_device_types :: "(string \<times> int) list" where
  "host_device_types =
     [(''Unknown'', 0), (''DotBotV3'', 1), (''DotBotV2'', 2), (''nRF5340DK'', 3), (''nRF52840DK'', 4)]"

definition host_payload_types :: "(string \<times> int) list" where
  "host_payload_types =
     [(''SWARMIT_STATUS'', 0x80), (''SWARMIT_START'', 0x81), (''SWARMIT_STOP'', 0x82),
      (''SWARMIT_RESET'', 0x83), (''SWARMIT_OTA_START'', 0x84), (''SWARMIT_OTA_CHUNK'', 0x85),
      (''SWARMIT_OTA_START_ACK'', 0x86), (''SWARMIT_OTA_CHUNK_ACK'', 0x87), (''SWARMIT_EVENT_GPIO'', 0x88),
      (''SWARMIT_EVENT_LOG'', 0x89), (''SWARMIT_MESSAGE'', 0xA0), (''SWARMIT_LH2_CALIBRATION'', 0xA1),
      (''SWARMIT_LH2_CAPTURE'', 0xA2)]"

definition host_PayloadStatus :: "(string \<times> nat) list" where
  "host_PayloadStatus = [(''device'', 1), (''status'', 1), (''battery'', 2), (''pos_x'', 4), (''pos_y'', 4)]"

definition host_PayloadReset :: "(string \<times> nat) list" where
  "host_PayloadReset = [(''pos_x'', 4), (''pos_y'', 4)]"

definition host_PayloadOTAStart :: "(string \<times> nat) list" where
  "host_PayloadOTAStart = [(''fw_length'', 4), (''fw_chunk_counts'', 4)]"

definition host_PayloadOTAChunk :: "(string \<times> nat) list" where
  "host_PayloadOTAChunk = [(''index'', 4), (''count'', 1), (''sha'', 8), (''chunk'', 0)]"

definition host_PayloadCalibrationData :: "(string \<times> nat) list" where
  "host_PayloadCalibrationData =
     [(''homography_count'', 4), (''homography_index'', 4), (''homography'', 3 * 3 * 4)]"

definition host_PayloadOTAChunkAck :: "(string \<times> nat) list" where
  "host_PayloadOTAChunkAck = [(''index'', 4)]"

definition host_PayloadEvent :: "(string \<times> nat) list" where
  "host_PayloadEvent = [(''timestamp'', 4), (''count'', 1), (''data'', 0)]"

text \<open>The widths of a struct's fields.\<close>

definition widths :: "ctype \<Rightarrow> nat list" where
  "widths t = map (\<lambda>(n, off, t'). sizeof t') (Layout.fields t)"

section \<open>Peripherals\<close>

text \<open>The identifiers of \<open>tz.h\<close>, the peripherals that \<open>setup_ns_user\<close> opens by name, and the handler of
  a peripheral in the startup files, which number the serial interfaces.\<close>

definition NRF_APPLICATION_PERIPH_ID :: "(string \<times> u8) list" where
  "NRF_APPLICATION_PERIPH_ID =
     [(''DCNF_FPU'', 0), (''OSCILLATORS_REGULATORS'', 4), (''CLOCK_POWER_RESET'', 5),
      (''CTRLAP'', 6), (''SPIM0_SPIS0_TWIM0_TWIS0_UARTE0'', 8),
      (''SPIM1_SPIS1_TWIM1_TWIS1_UARTE1'', 9), (''SPIM4'', 10),
      (''SPIM2_SPIS2_TWIM2_TWIS2_UARTE2'', 11), (''SPIM3_SPIS3_TWIM3_TWIS3_UARTE3'', 12),
      (''SAADC'', 14), (''TIMER0'', 15), (''TIMER1'', 16), (''TIMER2'', 17), (''RTC0'', 20),
      (''RTC1'', 21), (''DPPIC'', 23), (''WDT0'', 24), (''WDT1'', 25), (''COMP_LPCOMP'', 26),
      (''EGU0'', 27), (''EGU1'', 28), (''EGU2'', 29), (''EGU3'', 30), (''EGU4'', 31),
      (''EGU5'', 32), (''PWM0'', 33), (''PWM1'', 34), (''PWM2'', 35), (''PWM3'', 36),
      (''PDM0'', 38), (''I2S0'', 40), (''IPC'', 42), (''QSPI'', 43), (''NFCT'', 45),
      (''MUTEX'', 48), (''QDEC0'', 51), (''QDEC1'', 52), (''USBD'', 54), (''USBREGULATOR'', 55),
      (''NVMC'', 57), (''P0_P1'', 66), (''VMC'', 129)]"

definition ns_periph_names :: "(string \<times> bool) list" where
  "ns_periph_names =
     [(''I2S0'', True), (''P0_P1'', False), (''PDM0'', True), (''COMP_LPCOMP'', False),
      (''EGU0'', False), (''EGU1'', False), (''EGU2'', False), (''EGU3'', False),
      (''EGU4'', False), (''EGU5'', False), (''PWM0'', True), (''PWM1'', True), (''PWM2'', True),
      (''PWM3'', True), (''QDEC0'', False), (''QDEC1'', False), (''QSPI'', True),
      (''RTC0'', False), (''RTC1'', False), (''SPIM0_SPIS0_TWIM0_TWIS0_UARTE0'', True),
      (''SPIM1_SPIS1_TWIM1_TWIS1_UARTE1'', True), (''SPIM2_SPIS2_TWIM2_TWIS2_UARTE2'', True),
      (''SPIM3_SPIS3_TWIM3_TWIS3_UARTE3'', True), (''TIMER0'', False), (''TIMER1'', False),
      (''USBD'', True), (''USBREGULATOR'', False)]"

fun irq_handler :: "string \<Rightarrow> string" where
  "irq_handler p =
     (if p = ''SPIM0_SPIS0_TWIM0_TWIS0_UARTE0'' then ''SERIAL0''
      else if p = ''SPIM1_SPIS1_TWIM1_TWIS1_UARTE1'' then ''SERIAL1''
      else if p = ''SPIM2_SPIS2_TWIM2_TWIS2_UARTE2'' then ''SERIAL2''
      else if p = ''SPIM3_SPIS3_TWIM3_TWIS3_UARTE3'' then ''SERIAL3''
      else p) @ ''_IRQHandler''"

definition own_vector :: "vector list \<Rightarrow> string \<Rightarrow> bool" where
  "own_vector vs p =
     (case map_of NRF_APPLICATION_PERIPH_ID p of
        None \<Rightarrow> False
      | Some i \<Rightarrow> vs ! (16 + unat i) = Handler (irq_handler p))"

lemma ns_periphs_named:
  "map (\<lambda>(n, d). (map_of NRF_APPLICATION_PERIPH_ID n, d)) ns_periph_names = map (\<lambda>(i, d). (Some i, d)) ns_periphs"
  by code_simp

lemma periphs_own_vectors: "filter (\<lambda>p. \<not> own_vector sample_vectors p) (map fst ns_periph_names) = [''P0_P1'']"
  by code_simp

section \<open>The fault records\<close>

text \<open>A member of the record is a word, or a union of a scalar of so many bytes with bit fields.\<close>

datatype fault_member = Plain string | Bits string nat bit_fields

definition app_hardfault_regs :: "fault_member list" where
  "app_hardfault_regs =
     [Plain ''r0'', Plain ''r1'', Plain ''r2'', Plain ''r3'', Plain ''r12'', Plain ''lr'', Plain ''pc'',
      Bits ''psr'' 4 psr_fields, Bits ''shcsr'' 4 shcsr_fields, Bits ''mmfsr'' 1 mmfsr_fields,
      Plain ''mmfar'', Bits ''bfsr'' 1 bfsr_fields, Plain ''bfar'', Bits ''ufsr'' 2 ufsr_fields,
      Bits ''hfsr'' 4 hfsr_fields, Bits ''dfsr'' 4 dfsr_fields, Plain ''afsr'']"

definition app_securefault_reg :: "fault_member list" where
  "app_securefault_reg = [Bits ''sfsr'' 4 sfsr_fields]"

definition net_hardfault_regs :: "fault_member list" where
  "net_hardfault_regs =
     [Plain ''r0'', Plain ''r1'', Plain ''r2'', Plain ''r3'', Plain ''r12'', Plain ''lr'',
       Plain ''pc'',
      Bits ''psr'' 4
       [(''IPSR'', 8), (''EPSR'', 19), (''APSR'', 5)],
      Bits ''shcsr'' 4
       [(''MEMFAULTACT'', 1), (''BUSFAULTACT'', 1), (''HARDFAULTACT'', 1), (''USGFAULTACT'', 1),
        (''SECUREFAULTACT'', 1), (''NMIACT'', 1), ([], 1), (''SVCALLACT'', 1),
        (''MONITORACT'', 1), ([], 1), (''PENDSVACT'', 1), (''SYSTICKACT'', 1),
        (''USGFAULTPENDED'', 1), (''MEMFAULTPENDED'', 1), (''BUSFAULTPENDED'', 1),
        (''SVCALLPENDED'', 1), (''MEMFAULTENA'', 1), (''BUSFAULTENA'', 1), (''USGFAULTENA'', 1),
        (''SECUREFAULTENA'', 1), (''SECUREFAULTPENDED'', 1), (''HARDFAULTPENDED'', 1), ([], 10)],
      Bits ''mmfsr'' 1
       [(''IACCVIOL'', 1), (''DACCVIOL'', 1), ([], 1), (''MUNSTKERR'', 1), (''MSTKERR'', 1),
        (''MLSPERR'', 1), ([], 1), (''MMARVALID'', 1), ([], 24)],
      Plain ''mmfar'',
      Bits ''bfsr'' 1
       [(''IBUSERR'', 1), (''PRECISERR'', 1), (''IMPRECISERR'', 1), (''UNSTKERR'', 1),
        (''STKERR'', 1), (''LSPERR'', 1), ([], 1), (''BFARVALID'', 1), ([], 24)],
      Plain ''bfar'',
      Bits ''ufsr'' 2
       [(''UNDEFINSTR'', 1), (''INVSTATE'', 1), (''INVPC'', 1), (''NOCP'', 1), (''STKOF'', 1),
        ([], 3), (''UNALIGNED'', 1), (''DIVBYZERO'', 1), ([], 22)],
      Bits ''hfsr'' 4
       [([], 1), (''VECTTBL'', 1), ([], 28), (''FORCED'', 1), (''DEBUGEVT'', 1)],
      Bits ''dfsr'' 4
       [(''HALTED'', 1), (''BKPT'', 1), (''DWTTRAP'', 1), (''VCATCH'', 1), (''EXTERNAL'', 1),
        (''PMU'', 1), ([], 26)],
      Plain ''afsr'']"

definition net_securefault_reg :: "fault_member list" where
  "net_securefault_reg =
     [Bits ''sfsr'' 4
       [(''LSERR'', 1), (''SFARVALID'', 1), (''LSPERR'', 1), (''INVTRAN'', 1), (''AUVIOL'', 1),
        (''INVER'', 1), (''INVIS'', 1), (''INVEP'', 1), ([], 24)]]"

definition sc_hardfault_regs :: "fault_member list" where
  "sc_hardfault_regs =
     [Plain ''r0'', Plain ''r1'', Plain ''r2'', Plain ''r3'', Plain ''r12'', Plain ''lr'',
       Plain ''pc'',
      Bits ''psr'' 4
       [(''IPSR'', 8), (''EPSR'', 19), (''APSR'', 5)],
      Bits ''shcsr'' 4
       [(''MEMFAULTACT'', 1), (''BUSFAULTACT'', 1), (''HARDFAULTACT'', 1), (''USGFAULTACT'', 1),
        (''SECUREFAULTACT'', 1), (''NMIACT'', 1), ([], 1), (''SVCALLACT'', 1),
        (''MONITORACT'', 1), ([], 1), (''PENDSVACT'', 1), (''SYSTICKACT'', 1),
        (''USGFAULTPENDED'', 1), (''MEMFAULTPENDED'', 1), (''BUSFAULTPENDED'', 1),
        (''SVCALLPENDED'', 1), (''MEMFAULTENA'', 1), (''BUSFAULTENA'', 1), (''USGFAULTENA'', 1),
        (''SECUREFAULTENA'', 1), (''SECUREFAULTPENDED'', 1), (''HARDFAULTPENDED'', 1), ([], 10)],
      Bits ''mmfsr'' 1
       [(''IACCVIOL'', 1), (''DACCVIOL'', 1), ([], 1), (''MUNSTKERR'', 1), (''MSTKERR'', 1),
        (''MLSPERR'', 1), ([], 1), (''MMARVALID'', 1), ([], 24)],
      Plain ''mmfar'',
      Bits ''bfsr'' 1
       [(''IBUSERR'', 1), (''PRECISERR'', 1), (''IMPRECISERR'', 1), (''UNSTKERR'', 1),
        (''STKERR'', 1), (''LSPERR'', 1), ([], 1), (''BFARVALID'', 1), ([], 24)],
      Plain ''bfar'',
      Bits ''ufsr'' 2
       [(''UNDEFINSTR'', 1), (''INVSTATE'', 1), (''INVPC'', 1), (''NOCP'', 1), (''STKOF'', 1),
        ([], 3), (''UNALIGNED'', 1), (''DIVBYZERO'', 1), ([], 22)],
      Bits ''hfsr'' 4
       [([], 1), (''VECTTBL'', 1), ([], 28), (''FORCED'', 1), (''DEBUGEVT'', 1)],
      Bits ''dfsr'' 4
       [(''HALTED'', 1), (''BKPT'', 1), (''DWTTRAP'', 1), (''VCATCH'', 1), (''EXTERNAL'', 1),
        (''PMU'', 1), ([], 26)],
      Plain ''afsr'']"

definition sc_securefault_reg :: "fault_member list" where
  "sc_securefault_reg =
     [Bits ''sfsr'' 4
       [(''LSERR'', 1), (''SFARVALID'', 1), (''LSPERR'', 1), (''INVTRAN'', 1), (''AUVIOL'', 1),
        (''INVER'', 1), (''INVIS'', 1), (''INVEP'', 1), ([], 24)]]"

definition sample_hardfault_regs :: "fault_member list" where
  "sample_hardfault_regs =
     [Plain ''r0'', Plain ''r1'', Plain ''r2'', Plain ''r3'', Plain ''r12'', Plain ''lr'',
       Plain ''pc'',
      Bits ''psr'' 4
       [(''IPSR'', 8), (''EPSR'', 19), (''APSR'', 5)],
      Bits ''shcsr'' 4
       [(''MEMFAULTACT'', 1), (''BUSFAULTACT'', 1), (''HARDFAULTACT'', 1), (''USGFAULTACT'', 1),
        (''SECUREFAULTACT'', 1), (''NMIACT'', 1), ([], 1), (''SVCALLACT'', 1),
        (''MONITORACT'', 1), ([], 1), (''PENDSVACT'', 1), (''SYSTICKACT'', 1),
        (''USGFAULTPENDED'', 1), (''MEMFAULTPENDED'', 1), (''BUSFAULTPENDED'', 1),
        (''SVCALLPENDED'', 1), (''MEMFAULTENA'', 1), (''BUSFAULTENA'', 1), (''USGFAULTENA'', 1),
        (''SECUREFAULTENA'', 1), (''SECUREFAULTPENDED'', 1), (''HARDFAULTPENDED'', 1), ([], 10)],
      Bits ''mmfsr'' 1
       [(''IACCVIOL'', 1), (''DACCVIOL'', 1), ([], 1), (''MUNSTKERR'', 1), (''MSTKERR'', 1),
        (''MLSPERR'', 1), ([], 1), (''MMARVALID'', 1), ([], 24)],
      Plain ''mmfar'',
      Bits ''bfsr'' 1
       [(''IBUSERR'', 1), (''PRECISERR'', 1), (''IMPRECISERR'', 1), (''UNSTKERR'', 1),
        (''STKERR'', 1), (''LSPERR'', 1), ([], 1), (''BFARVALID'', 1), ([], 24)],
      Plain ''bfar'',
      Bits ''ufsr'' 2
       [(''UNDEFINSTR'', 1), (''INVSTATE'', 1), (''INVPC'', 1), (''NOCP'', 1), (''STKOF'', 1),
        ([], 3), (''UNALIGNED'', 1), (''DIVBYZERO'', 1), ([], 22)],
      Bits ''hfsr'' 4
       [([], 1), (''VECTTBL'', 1), ([], 28), (''FORCED'', 1), (''DEBUGEVT'', 1)],
      Bits ''dfsr'' 4
       [(''HALTED'', 1), (''BKPT'', 1), (''DWTTRAP'', 1), (''VCATCH'', 1), (''EXTERNAL'', 1),
        (''PMU'', 1), ([], 26)],
      Plain ''afsr'']"

text \<open>The bytes of a member: bit fields of \<open>uint32_t\<close> take whole words. The scalar shows all the named
  fields of its union when they lie in its bytes.\<close>

fun member_bytes :: "fault_member \<Rightarrow> nat" where
  "member_bytes (Plain n) = 4"
| "member_bytes (Bits n b fs) = max b (4 * ((fields_width fs + 31) div 32))"

fun view_fits :: "fault_member \<Rightarrow> bool" where
  "view_fits (Plain n) = True"
| "view_fits (Bits n b fs) = list_all (\<lambda>p. p < 8 * b) (named_positions fs)"

lemmas fault_record_defs =
  app_hardfault_regs_def app_securefault_reg_def net_hardfault_regs_def net_securefault_reg_def
  sc_hardfault_regs_def sc_securefault_reg_def sample_hardfault_regs_def psr_fields_def shcsr_fields_def
  mmfsr_fields_def bfsr_fields_def ufsr_fields_def hfsr_fields_def dfsr_fields_def sfsr_fields_def

lemma fault_records_alike:
  "net_hardfault_regs = app_hardfault_regs" "sc_hardfault_regs = app_hardfault_regs"
  "sample_hardfault_regs = app_hardfault_regs" "net_securefault_reg = app_securefault_reg"
  "sc_securefault_reg = app_securefault_reg"
  by (simp_all only: fault_record_defs)

lemma fault_record_layout:
  "list_all (\<lambda>m. member_bytes m = 4) (app_hardfault_regs @ app_securefault_reg)"
  "list_all view_fits (app_hardfault_regs @ app_securefault_reg)"
  by code_simp+

section \<open>The fault handlers\<close>

text \<open>\<open>HardFaultHandler\<close> of \<open>Faults\<close> is the bootloader's.\<close>

definition net_HardFaultHandler :: "bool \<Rightarrow> u32 \<Rightarrow> fault_core \<Rightarrow> fault_core outcome" where
  "net_HardFaultHandler debug sp s =
     (let c = f_core s
      in if c_reg c HFSR AND DEBUGEVT_Msk \<noteq> 0
         then let c1 = wr HFSR (c_reg c HFSR OR DEBUGEVT_Msk) c
              in Continue (s\<lparr>f_core := st (sp + 4 * 6) (c_mem c1 (sp + 4 * 6) + 2) c1\<rparr>)
         else Stuck (only_if debug (record_hardfault sp) s))"

definition sc_HardFaultHandler :: "bool \<Rightarrow> u32 \<Rightarrow> fault_core \<Rightarrow> fault_core outcome" where
  "sc_HardFaultHandler debug sp s =
     (let c = f_core s
      in if c_reg c HFSR AND DEBUGEVT_Msk \<noteq> 0
         then let c1 = wr HFSR (c_reg c HFSR OR DEBUGEVT_Msk) c
              in Continue (s\<lparr>f_core := st (sp + 4 * 6) (c_mem c1 (sp + 4 * 6) + 2) c1\<rparr>)
         else Stuck (only_if debug (record_hardfault sp) s))"

definition sample_HardFaultHandler :: "bool \<Rightarrow> u32 \<Rightarrow> fault_core \<Rightarrow> fault_core outcome" where
  "sample_HardFaultHandler debug sp s =
     (let c = f_core s
      in if c_reg c HFSR AND DEBUGEVT_Msk \<noteq> 0
         then let c1 = wr HFSR (c_reg c HFSR OR DEBUGEVT_Msk) c
              in Continue (s\<lparr>f_core := st (sp + 4 * 6) (c_mem c1 (sp + 4 * 6) + 2) c1\<rparr>)
         else Stuck (only_if debug (record_hardfault sp) s))"

text \<open>The exception handlers give them the stack pointer the frame was stacked with; \<open>lr\<close> is the link
  register of the exception.\<close>

definition app_HardFault_Handler :: "bool \<Rightarrow> u32 \<Rightarrow> fault_core \<Rightarrow> fault_core outcome" where
  "app_HardFault_Handler debug lr s = HardFaultHandler debug (fault_stack lr (f_core s)) s"

definition app_SecureFault_Handler :: "bool \<Rightarrow> u32 \<Rightarrow> fault_core \<Rightarrow> fault_core outcome" where
  "app_SecureFault_Handler debug lr s = SecureFaultHandler debug (fault_stack lr (f_core s)) s"

definition net_HardFault_Handler :: "bool \<Rightarrow> u32 \<Rightarrow> fault_core \<Rightarrow> fault_core outcome" where
  "net_HardFault_Handler debug lr s = net_HardFaultHandler debug (fault_stack lr (f_core s)) s"

definition sc_HardFault_Handler :: "bool \<Rightarrow> u32 \<Rightarrow> fault_core \<Rightarrow> fault_core outcome" where
  "sc_HardFault_Handler debug lr s = sc_HardFaultHandler debug (fault_stack lr (f_core s)) s"

definition sample_HardFault_Handler :: "bool \<Rightarrow> u32 \<Rightarrow> fault_core \<Rightarrow> fault_core outcome" where
  "sample_HardFault_Handler debug lr s = sample_HardFaultHandler debug (fault_stack lr (f_core s)) s"

datatype image = Bootloader | Network_Core | Single_Core_Bootloader | Sample_Image

fun hard_fault :: "image \<Rightarrow> bool \<Rightarrow> u32 \<Rightarrow> fault_core \<Rightarrow> fault_core outcome" where
  "hard_fault Bootloader = app_HardFault_Handler"
| "hard_fault Network_Core = net_HardFault_Handler"
| "hard_fault Single_Core_Bootloader = sc_HardFault_Handler"
| "hard_fault Sample_Image = sample_HardFault_Handler"

lemma hard_fault_alike: "hard_fault im debug lr s = HardFaultHandler debug (fault_stack lr (f_core s)) s"
  by (cases im)
     (simp_all add: app_HardFault_Handler_def net_HardFault_Handler_def sc_HardFault_Handler_def
        sample_HardFault_Handler_def net_HardFaultHandler_def sc_HardFaultHandler_def
        sample_HardFaultHandler_def HardFaultHandler_def)

lemma fault_stack_bit: "fault_stack lr c = (if bit lr 2 then c_psp c else c_msp c)"
proof -
  have "lr AND 4 = 0 \<longleftrightarrow> \<not> bit lr 2"
    using and_exp_eq_0_iff_not_bit [of lr 2] by simp
  then show ?thesis by (simp add: fault_stack_def)
qed

text \<open>The dummy handlers of the other images.\<close>

definition net_Dummy_Handler :: "core \<Rightarrow> core outcome" where
  "net_Dummy_Handler c = Stuck c"

definition sc_dummy_handler :: "core \<Rightarrow> core outcome" where
  "sc_dummy_handler c = Stuck c"

definition sample_Dummy_Handler :: "core \<Rightarrow> core outcome" where
  "sample_Dummy_Handler c = Stuck c"

end
