(* ===== verification/System_Properties.thy ===== *)
theory System_Properties
  imports System_Facts System_Init52 Images Examples
begin

text \<open>
  The properties of what runs before and beside the firmwares: the reset handlers, the system
  initialisation, the clock driver, the vector tables and the fault handlers, with the concrete
  link map and register constants of the witnesses.
\<close>

section \<open>Concrete parameters\<close>

definition ex_clock_mdk :: clock_mdk where
  "ex_clock_mdk =
     \<lparr>slope_msk = 0x1F, slope_pos = 0, offset_msk = 0x3E0, offset_pos = 5, xosc32mcaps_enabled = 0x100,
      hfclksrc_hfxo = 1, hclk_div1 = 0, hclk_div2 = 1, mcusel_peripheral = 0x30000000, intcap_c7pf = 2,
      intcap_c9pf = 3, lfclksrc_lfxo = 2, lfclksrc_lfrc = 1, lfclksrc_xtal = 1\<rparr>"

definition ex_sys_mdk :: "u32 \<Rightarrow> sys_mdk" where
  "ex_sys_mdk ficr =
     \<lparr>sau_ctrl_allns_pos = 1, ficr_s = 0x00FF0000, ficr_ns = ficr, trimcnf_offset = 0x300,
      resetpin_msk = 1, spu_ramregion_size = 0x2000, perm_secattr_pos = 4, perm_write_pos = 1,
      perm_execute_pos = 0, perm_lock_pos = 8, nfcpins_protect_msk = 1, nfcpins_protect_nfc = 1,
      wen_pos = 0, wen_wen = 1, wen_ren = 0, psel_connect_msk = 0x80000000, psel_connected = 0,
      tad_enable_msk = 1, tad_clockstart_msk = 1, traceportspeed_64mhz = 0, trace_pin_cnf = 0,
      traceclk_pin = 12, tracedata_pin = (\<lambda>i. 11 - i), demcr_trcena_msk = 0x1000000,
      tracemux_serial = 0x10000, tracemux_parallel = 0x20000, pin_cnf_trace52 = 0x301\<rparr>"

definition ex_build :: build_flags where
  "ex_build =
     \<lparr>bf_cmse = True, bf_debug = True, bf_fpu_used = True, bf_skip_ficr_ns_copy = False,
      bf_nfct_pins_as_gpios = False, bf_enable_swo = False, bf_enable_trace = False,
      bf_gpio_as_pinreset = True\<rparr>"

definition ex_sys_env :: sys_env where
  "ex_sys_env =
     \<lparr>errata = (\<lambda>_. True), configuration_249 = False, approtect = (\<lambda>c. c),
      nvmc_ready = (\<lambda>_ k. k = 2), clock_mdk_of = ex_clock_mdk,
      clock_polls_of = \<lparr>poll_hf_cleared = (\<lambda>_. 0), poll_hf_started = (\<lambda>k. if k = 3 then 1 else 0),
        poll_lf_started = (\<lambda>k. if k = 5 then 1 else 0)\<rparr>\<rparr>"

definition sec :: "u32 \<Rightarrow> u32 \<Rightarrow> nat \<Rightarrow> mem_section" where
  "sec load start n = \<lparr>sec_load = load, sec_start = start, sec_end = start + 4 * of_nat n\<rparr>"

text \<open>The order of \<open>flash_placement.xml\<close>: code in flash, data and \<open>.bss\<close> in RAM, the shared data
  at \<open>0x20006000\<close>, the stacks at the end.\<close>

definition ex_link :: link_map where
  "ex_link =
     \<lparr>l_data = sec 0x8000 0x20000100 2, l_text = sec 0x200 0x200 4, l_fast = sec 0x8008 0x20000108 1,
      l_ctors = sec 0x7000 0x7000 1, l_dtors = sec 0x7004 0x7004 0, l_rodata = sec 0x7100 0x7100 2,
      l_tdata = sec 0x8010 0x20000200 0, l_bss = sec 0 0x2000010C 3, l_tbss = sec 0 0x20000118 0,
      l_shared_data = sec 0 0x20006000 300, l_stack_end = 0x20008000,
      l_stack_process_end = 0x20007000, l_stacksize = 0x800, l_stacksize_process = 0x400,
      l_func_addr = 0x20007FF0\<rparr>"

definition ex_core :: core where
  "ex_core =
     \<lparr>c_mem = (\<lambda>a. if a = 0x00FF0300 then 0x50001000 else if a < 0x10000 then a else 0xFFFFFFFF),
      c_reg = (\<lambda>r. case r of RESETREAS \<Rightarrow> 8 | _ \<Rightarrow> 0), c_msp = 0, c_psp = 0, c_control = 0,
      c_msplim = 0, c_psplim = 0, c_clock = \<lparr>hf_enabled = True, lf_enabled = True\<rparr>, c_out = []\<rparr>"

lemma run_ok_sec:
  "unat start + 4 * n < 2 ^ 32 \<Longrightarrow> run_ok (sec load start n) \<and> words_of (sec load start n) = n"
proof -
  assume a: "unat start + 4 * n < 2 ^ 32"
  then have "unat (4 * of_nat n :: u32) = 4 * n" by (intro unat_off) simp
  then show ?thesis
    using a by (simp add: run_ok_def words_of_def sec_def block_fits_def)
qed

lemma ex_link_ok: "link_ok ex_link"
  by (simp add: link_ok_def load_ok_def ex_link_def run_ok_sec)
    (simp add: no_clobber_def sec_def)

lemma ex_trim_mem:
  "a \<in> {0x00FF0300, 0x00FF0308} \<Longrightarrow>
   section_clear (l_shared_data ex_link) (init_image ex_build ex_link mm) a = mm a"
  by (subst section_clear_frame, (auto simp: in_section_def in_block_def ex_link_def run_ok_sec sec_def
        words_of_def)[1])
     (rule init_image_frame, auto simp: written_sections_def in_section_def in_block_def ex_link_def
        run_ok_sec sec_def words_of_def)

lemma ex_reset_ok_mem:
  assumes mem: "c_mem c 0x00FF0300 = 0x50001000" "c_mem c 0x00FF0308 = 0xFFFFFFFF"
  shows "reset_ok (ex_sys_mdk 0x01FF0000) ex_build ex_sys_env ex_link c"
proof -
  let ?c = "c\<lparr>c_mem :=
    section_clear (l_shared_data ex_link) (init_image ex_build ex_link (c_mem c))\<rparr>"
  have "trim_entries 0x00FF0300 ?c = [0]"
    using ex_trim_mem [of "0x00FF0300"] ex_trim_mem [of "0x00FF0308"] mem
    by (simp add: trim_entries_def trim_addr_def upt_conv_Cons)
  then have "trims_peripherals 0x00FF0300 ?c"
    using ex_trim_mem [of "0x00FF0300"] mem by (simp add: trims_peripherals_def trim_addr_def)
  then show ?thesis
    using ex_link_ok
    by (simp add: reset_ok_def system_init_ok_def table_of_def ex_sys_mdk_def approtect_ok_def quiet_def
          ex_sys_env_def clocks_start_def ficr_ns_in_ram_def RAM_BASE_def RAM_END_def FICR_SIZE_def
          ex_build_def in_place_def)
      (auto simp: ex_link_def run_ok_sec sec_def words_of_def)
qed

lemma ex_reset_ok: "reset_ok (ex_sys_mdk 0x01FF0000) ex_build ex_sys_env ex_link ex_core"
  by (rule ex_reset_ok_mem) (simp_all add: ex_core_def)

section \<open>The reset handler of the application core\<close>

text \<open>C21: On a link map that makes sense the reset handler reaches \<open>main\<close>, with the main stack pointer
  at the end of the stack, both clocks running and the core at full speed, and the memory below
  the peripherals as the linker wants it: every loaded section copied, \<open>.bss\<close>, \<open>.tbss\<close> and the
  RAM shared with the network core zero, everything else untouched. The stack limit, though, is
  not a limit of the stack: it is the word of memory at the address that is the stack's size.\<close>

theorem reset_reaches_main:
  assumes "reset_ok m b e l c"
  shows "\<exists>c'. app_Reset_Handler m b e dotbot_v2 run_code l c = Continue c' \<and>
    c_out c' = c_out c @ [CE_Main] \<and> c_msp c' = l_stack_end l \<and> c_control c' = 0 \<and>
    c_clock c' = \<lparr>hf_enabled = True, lf_enabled = True\<rparr> \<and>
    c_reg c' HFCLKCTRL = hclk_div1 (clock_mdk_of e) \<and>
    (bf_cmse b \<longrightarrow> c_msplim c' = c_mem c (l_stacksize l)) \<and>
    (\<forall>a < 0x40000000.
       c_mem c' a = section_clear (l_shared_data l) (init_image b l (c_mem c)) a)"
  using app_reset_result [OF assms, of dotbot_v2 run_code] by metis

theorem reset_reaches_main_witness:
  "\<exists>c'. app_Reset_Handler (ex_sys_mdk 0x01FF0000) ex_build ex_sys_env False (\<lambda>_ c. Undefined) ex_link ex_core
      = Continue c' \<and> c_mem c' 0x20006004 = 0 \<and> c_msplim c' = 0x800"
proof -
  have "section_clear (l_shared_data ex_link) mm 0x20006004 = 0" for mm
    by (simp add: section_clear_def block_zero_def in_block_def ex_link_def run_ok_sec) (simp add: sec_def)
  then show ?thesis
    using reset_reaches_main [OF ex_reset_ok, of False "\<lambda>_ c. Undefined"]
    by (auto simp: ex_build_def ex_link_def ex_core_def)
qed

text \<open>C22: The boot decision of the bootloader across a reset: the boot intent, in a section the start-up
  does not write, is what it was before, and the reset reason is what the hardware set unless
  erratum 55 applies, in which case a pin reset hides a software reset. So the user image is booted
  exactly when the intent asks for it, the software-reset bit was set, and no pin reset is hiding
  it.\<close>

theorem reset_boot_decision:
  assumes ok: "reset_ok m b e l c" and low: "intent < 0x40000000"
    and out: "list_all (\<lambda>s. \<not> in_section s intent) (l_shared_data l # written_sections l)"
    and sreq: "ae_sreq ae AND resetpin_msk m = 0"
  shows "\<exists>c'. app_Reset_Handler m b e dotbot_v2 run_code l c = Continue c' \<and>
    (\<forall>s. a_boot_intent s = c_mem c' intent \<longrightarrow> a_resetreas s = c_reg c' RESETREAS \<longrightarrow>
       boots_user_image ae s =
         (c_mem c intent = SWRMT_BOOT_INTENT_USER_IMAGE \<and> c_reg c RESETREAS AND ae_sreq ae \<noteq> 0 \<and>
          \<not> (errata e 55 \<and> c_reg c RESETREAS AND resetpin_msk m \<noteq> 0)))"
proof -
  obtain c' where c': "app_Reset_Handler m b e dotbot_v2 run_code l c = Continue c'"
    "\<And>a. a < 0x40000000 \<Longrightarrow> c_mem c' a = section_clear (l_shared_data l) (init_image b l (c_mem c)) a"
    "c_reg c' RESETREAS = reason_after m e (c_reg c RESETREAS)"
    using app_reset_result [OF ok, of dotbot_v2 run_code] by metis
  have intent: "c_mem c' intent = c_mem c intent"
    using c'(2) [OF low] out init_image_frame [of intent l b "c_mem c"] by (simp add: section_clear_frame)
  have "(r AND resetpin_msk m) AND ae_sreq ae = 0" for r
    using sreq by (simp add: and.assoc and.commute and.left_commute)
  then have "reason_after m e r AND ae_sreq ae \<noteq> 0 \<longleftrightarrow>
      r AND ae_sreq ae \<noteq> 0 \<and> \<not> (errata e 55 \<and> r AND resetpin_msk m \<noteq> 0)" for r
    by (simp add: reason_after_def)
  then show ?thesis
    using c'(1,3) intent by (auto simp: boots_user_image_def)
qed

theorem reset_boot_decision_witness:
  "\<exists>c'. app_Reset_Handler (ex_sys_mdk 0x01FF0000) ex_build ex_sys_env False (\<lambda>_ c. Undefined) ex_link
        (ex_core\<lparr>c_reg := (\<lambda>_. 9)\<rparr>) = Continue c' \<and>
     \<not> boots_user_image ex_app_env
         (app_reset (c_reg c' RESETREAS) (c_mem c' 0x20000300) ex_flash)"
proof -
  have ok: "reset_ok (ex_sys_mdk 0x01FF0000) ex_build ex_sys_env ex_link (ex_core\<lparr>c_reg := (\<lambda>_. 9)\<rparr>)"
    by (rule ex_reset_ok_mem) (simp_all add: ex_core_def)
  have "list_all (\<lambda>s. \<not> in_section s 0x20000300) (l_shared_data ex_link # written_sections ex_link)"
    by (simp add: written_sections_def in_section_def in_block_def ex_link_def run_ok_sec) (simp add: sec_def)
  moreover have "ae_sreq ex_app_env AND resetpin_msk (ex_sys_mdk 0x01FF0000) = 0"
    by (simp add: ex_app_env_def ex_sys_mdk_def)
  ultimately obtain c' where c': "app_Reset_Handler (ex_sys_mdk 0x01FF0000) ex_build ex_sys_env False
        (\<lambda>_ c. Undefined) ex_link (ex_core\<lparr>c_reg := (\<lambda>_. 9)\<rparr>) = Continue c'"
    "\<And>s. a_boot_intent s = c_mem c' 0x20000300 \<Longrightarrow> a_resetreas s = c_reg c' RESETREAS \<Longrightarrow>
       boots_user_image ex_app_env s =
         (c_mem ex_core 0x20000300 = SWRMT_BOOT_INTENT_USER_IMAGE \<and> 9 AND ae_sreq ex_app_env \<noteq> 0 \<and>
          \<not> (errata ex_sys_env 55 \<and> 9 AND resetpin_msk (ex_sys_mdk 0x01FF0000) \<noteq> 0))"
    using reset_boot_decision [OF ok, of "0x20000300" ex_app_env False "\<lambda>_ c. Undefined"] by auto
  then show ?thesis
    by (intro exI [of _ c'] conjI) (simp_all add: app_reset_def ex_sys_env_def ex_sys_mdk_def)
qed

section \<open>Loops of the reset handlers\<close>

text \<open>C23: The loop over \<open>.tdata\<close> has its test inside: with anything in the section, and its place in RAM
  different from its load address (as the linker script has it), the loop never ends and none of
  the four images reaches \<open>main\<close>.\<close>

theorem tdata_section_hangs:
  assumes "link_ok l" and "\<not> in_place (l_tdata l)"
  shows "(\<exists>s. app_Reset_Handler m b e dotbot_v2 run_code l c = Stuck s \<and> CE_Main \<notin> set (drop (length (c_out c)) (c_out s))) \<and>
    (\<exists>s. net_Reset_Handler m b e run_code l c = Stuck s) \<and>
    (\<exists>s. sc_Reset_Handler m b e t hf lf run_code l c = Stuck s) \<and>
    (\<exists>s. sample_Reset_Handler b run_code l c = Stuck s)"
  using assms
  by (simp add: app_Reset_Handler_def net_Reset_Handler_def sc_Reset_Handler_def
        sample_Reset_Handler_def run_stages_append init_sections_result set_stack_limits_def
        set_stacks_def full_fpu_access_def only_if_def)

theorem tdata_section_hangs_witness:
  "\<exists>s. sample_Reset_Handler ex_build (\<lambda>_ c. Continue c)
        (ex_link\<lparr>l_tdata := sec 0x8010 0x20000200 1\<rparr>) ex_core = Stuck s"
proof -
  have "link_ok (ex_link\<lparr>l_tdata := sec 0x8010 0x20000200 1\<rparr>)"
    using ex_link_ok by (simp add: link_ok_def run_ok_sec)
  moreover have "\<not> in_place (l_tdata (ex_link\<lparr>l_tdata := sec 0x8010 0x20000200 1\<rparr>))"
    by (simp add: in_place_def run_ok_sec) (simp add: sec_def)
  ultimately show ?thesis
    using tdata_section_hangs by blast
qed

text \<open>The constructor loop compares the address of its local variable with the end of the table.
  It ends only when that address is not below, and then it has called nothing: no constructor of
  the table is ever run. Otherwise it calls the table itself as code and never gets past it.\<close>

lemma constructors_never_called:
  "call_constructors run_code l c = Continue c' \<longleftrightarrow> sec_end (l_ctors l) \<le> l_func_addr l \<and> c' = c"
  using call_constructors_Continue [of run_code l c c'] call_constructors_result [of l run_code c]
  by blast

section \<open>The system initialisation\<close>

text \<open>The trimming loop applies exactly the entries of the table before the first unused one, at most
  32, in order, when none of them is meant for the table itself.\<close>

lemma trim_table_applied:
  assumes "table_stable table c"
  shows "trim_from table 0 c =
    fold (\<lambda>i. st (trim_addr table i c) (trim_data table i c))
      (takeWhile (\<lambda>i. trim_addr table i c \<noteq> 0xFFFFFFFF) [0..<32]) c"
  using trim_from_fold [OF assms] by (simp add: trim_entries_def trim_apply_def [abs_def])

text \<open>With the non-secure copy of FICR placed in RAM, the backwards copy leaves it equal to FICR, word
  for word, and nothing else changed; the RAM region becomes non-secure, and locking it takes the
  right to write and to execute away until the next reset.\<close>

lemma ficr_copied:
  assumes ram: "ficr_ns_in_ram m" and apart: "no_clobber_down (ficr_s m) (ficr_ns m) 1024"
    and fits: "block_fits (ficr_s m) 1024" and base: "4 \<le> unat (ficr_s m)"
    and pos: "perm_secattr_pos m < 32" "perm_write_pos m < 32" "perm_execute_pos m < 32"
      "perm_lock_pos m < 32" "perm_lock_pos m \<noteq> perm_write_pos m"
      "perm_lock_pos m \<noteq> perm_execute_pos m"
  shows "\<exists>c'. SystemStoreFICRNS m c = Continue c' \<and>
    c_mem c' = block_copy (ficr_s m) (ficr_ns m) 1024 (c_mem c) \<and>
    \<not> bit (c_reg c' (RAMREGION_PERM (ficr_ram_region m))) (perm_secattr_pos m) \<and>
    (let p = c_reg (SystemLockFICRNS m c') (RAMREGION_PERM (ficr_ram_region m))
     in \<not> bit p (perm_write_pos m) \<and> \<not> bit p (perm_execute_pos m) \<and> bit p (perm_lock_pos m))"
proof -
  have "copy_words_down (ficr_s m + (FICR_SIZE - 4)) (ficr_ns m + (FICR_SIZE - 4)) (ficr_s m) (c_mem c)
      = Some (block_copy (ficr_s m) (ficr_ns m) 1024 (c_mem c))"
    using copy_words_down_block [OF fits apart base, of "c_mem c"] by (simp add: FICR_SIZE_def algebra_simps)
  then show ?thesis
    using ram pos
    by (auto simp: SystemStoreFICRNS_def SystemLockFICRNS_def with_mem_def reg_after_def Let_def
          bit_simps)
qed

text \<open>On an nRF52 the pin-reset option is set once: with both words configured the initialisation goes
  on; otherwise it writes the chip's reset pin into the words of UICR and resets the system, after
  which the words are configured, so the next start-up does not reset again. An erased word then
  holds exactly the pin.\<close>

lemma pin_reset_once:
  assumes "wen_pos m = 0" and "wen_wen m = 1" and "psel_connected m = 0"
    and "psel_connect_msk m = 0x80000000" and "\<And>w. \<exists>k. nvmc_ready e w k"
  shows "if pin_reset_configured m c then gpio_as_pinreset m e t c = Continue c
    else \<exists>c'. gpio_as_pinreset m e t c = Stuck c' \<and> c_out c' = c_out c @ [CE_SystemReset] \<and>
      pin_reset_configured m c' \<and>
      c_reg c' (PSELRESET 0) = c_reg c (PSELRESET 0) AND RESET_PIN t \<and>
      c_reg c' (PSELRESET 1) = c_reg c (PSELRESET 1) AND RESET_PIN t"
proof -
  have "RESET_PIN t AND 0x80000000 = 0"
    by (simp add: RESET_PIN_def split: option.splits)
  then have low: "(w AND RESET_PIN t) AND 0x80000000 = 0" for w
    by (simp add: and.assoc)
  show ?thesis
    using assms low
    by (auto simp: gpio_as_pinreset_def nvmc_config_def nvmc_wait_def spin_cases reg_after_def
          NVIC_SystemReset_def pin_reset_configured_def)
qed

section \<open>The clock driver\<close>

text \<open>The load capacitance computed from the factory trim: with the slope read as a signed five-bit
  number, the register value is the exact quotient and fits below the enable bit, with one
  exception. For the crystal of the development kit, an offset of zero with a slope below -8 makes
  the unsigned sum wrap to \<open>2^32 - 16\<close> or above, and every bit of the register but the top six is
  set.\<close>

lemma crystal_capacitance:
  assumes "trim_fields m"
  shows "let v = cap_sum dotbot_v2 (signed5 (uint (trim AND 0x1F))) (uint (drop_bit 5 trim AND 0x1F))
    in if 0 \<le> v
       then uint (cap_value m dotbot_v2 trim) = v div 64 \<and> v div 64 \<le> 15
       else \<not> dotbot_v2 \<and> drop_bit 5 trim AND 0x1F = 0 \<and> signed5 (uint (trim AND 0x1F)) < -8 \<and>
            cap_value m dotbot_v2 trim = 0x3FFFFFF"
proof -
  define a q where "a = uint (trim AND 0x1F)" and "q = uint (drop_bit 5 trim AND 0x1F)"
  have r: "0 \<le> a" "a < 32" "0 \<le> q" "q < 32"
    using and_31_less by (simp_all add: a_def q_def)
  have s: "-16 \<le> signed5 a" "signed5 a < 16"
    using r by (simp_all add: signed5_def)
  define v where "v = cap_sum dotbot_v2 (signed5 a) q"
  have u: "uint (cap_value m dotbot_v2 trim) = v mod 2 ^ 32 div 64"
    using cap_value_sum [OF assms] by (simp add: v_def a_def q_def)
  show ?thesis
  proof (cases "0 \<le> v")
    case True
    have "v < 1024"
      using s r by (cases dotbot_v2) (simp_all add: v_def cap_sum_def algebra_simps)
    then have "v mod 2 ^ 32 = v" "v div 64 \<le> 15" using True by (simp_all add: div_le_mono)
    then show ?thesis using True u by (simp add: v_def a_def q_def)
  next
    case False
    then have neg: "\<not> dotbot_v2" "q = 0" "signed5 a < -8"
      using s r by (cases dotbot_v2; simp add: v_def cap_sum_def algebra_simps)+
    have lo: "-16 \<le> v" using neg s by (simp add: v_def cap_sum_def)
    have "v mod 2 ^ 32 = v + 2 ^ 32"
      using lo False by (intro int_mod_pos_eq [of _ _ "-1"]) simp_all
    moreover have "(v + 2 ^ 32) div 64 = 0x3FFFFFF"
      using lo False by simp
    ultimately have "uint (cap_value m dotbot_v2 trim) = uint (0x3FFFFFF :: u32)"
      using u by simp
    then have "cap_value m dotbot_v2 trim = 0x3FFFFFF" by (simp only: word_uint_eq_iff)
    moreover have "drop_bit 5 trim AND 0x1F = 0"
      using neg(2) unfolding q_def by (simp only: uint_0_iff)
    ultimately show ?thesis using False neg by (simp add: v_def a_def q_def)
  qed
qed

section \<open>Vector tables\<close>


section \<open>Faults\<close>

text \<open>C27: A hard fault of any of the four images returns to the interrupted code in one case: a debug
  event, for which the program counter on the stack that bit 2 of the link register names is moved
  past the break instruction and every hard fault flag is cleared, not only the debug one. Any other
  hard fault, and every secure fault, ends in an endless loop, in a debug build with the stack frame
  recorded; the records of the four images are alike.\<close>

theorem hard_fault_handled:
  "let sp = (if bit lr 2 then c_psp (f_core s) else c_msp (f_core s))
   in (if bit (c_reg (f_core s) HFSR) 31
       then \<exists>s'. hard_fault im debug lr s = Continue s' \<and> f_hard s' = f_hard s \<and>
         c_mem (f_core s') = (c_mem (f_core s))(sp + 24 := c_mem (f_core s) (sp + 24) + 2) \<and>
         c_reg (f_core s') = (c_reg (f_core s))(HFSR := 0)
       else \<exists>s'. hard_fault im debug lr s = Stuck s' \<and> f_core s' = f_core s \<and>
         regs (f_hard s') = (if debug then frame_at sp (f_core s) else regs (f_hard s))) \<and>
      (\<exists>s'. app_SecureFault_Handler debug lr s = Stuck s' \<and> f_core s' = f_core s \<and>
         regs (f_hard s') = (if debug then frame_at sp (f_core s) else regs (f_hard s))) \<and>
      net_hardfault_regs = app_hardfault_regs \<and> sc_hardfault_regs = app_hardfault_regs \<and>
      sample_hardfault_regs = app_hardfault_regs"
proof -
  let ?c = "f_core s"
  have "c_reg (wr HFSR (c_reg ?c HFSR OR DEBUGEVT_Msk) ?c) = (c_reg ?c)(HFSR := 0)"
    using wr_hfsr [of ?c DEBUGEVT_Msk] by simp
  then show ?thesis
    unfolding hard_fault_alike app_SecureFault_Handler_def fault_stack_bit
    by (cases debug)
      (simp_all add: HardFaultHandler_def SecureFaultHandler_def record_hardfault_def bit_DEBUGEVT
        fault_records_alike Let_def)
qed

lemma valid_fields:
  "field_value mmfsr_fields ''MMARVALID'' w = Some (take_bit 1 (drop_bit 7 w))"
  "field_value bfsr_fields ''BFARVALID'' w = Some (take_bit 1 (drop_bit 7 w))"
  "field_value shcsr_fields ''SVCALLACT'' w = Some (take_bit 1 (drop_bit 7 w))"
  "field_value shcsr_fields ''SVCALLPENDED'' w = Some (take_bit 1 (drop_bit 15 w))"
  by (simp_all add: mmfsr_fields_def bfsr_fields_def shcsr_fields_def drop_bit_drop_bit eval_nat_numeral
        del: take_bit_of_Suc_0)

text \<open>The record of a hard fault does not hold its cause: it is the same whatever the configurable
  fault status register says, because the three bytes of that register are read from the handler
  control register. What the record shows as a valid fault address, for instance, is whether a
  supervisor call was active.\<close>

lemma fault_cause_lost:
  "let s1 = record_hardfault sp s;
       s2 = record_hardfault sp (s\<lparr>f_core := (f_core s)\<lparr>c_reg := (c_reg (f_core s))(CFSR := v)\<rparr>\<rparr>)
   in f_hard s1 = f_hard s2 \<and>
      field_value mmfsr_fields ''MMARVALID'' (ucast (mmfsr (f_hard s1)))
        = field_value shcsr_fields ''SVCALLACT'' (shcsr (f_hard s1)) \<and>
      field_value bfsr_fields ''BFARVALID'' (ucast (bfsr (f_hard s1)))
        = field_value shcsr_fields ''SVCALLPENDED'' (shcsr (f_hard s1))"
proof -
  have b: "take_bit 1 (drop_bit 7 (ucast (ucast (w AND 0xFF :: u32) :: u8) :: u32)) = take_bit 1 (drop_bit 7 w)"
    "take_bit 1 (drop_bit 7 (ucast (ucast (drop_bit 8 (w AND 0xFF00) :: u32) :: u8) :: u32))
      = take_bit 1 (drop_bit 15 w)" for w
  proof -
    have eq: "take_bit 1 (drop_bit j x) = take_bit 1 (drop_bit k y) \<longleftrightarrow> bit x j = bit y k" for j k and x y :: u32
      by (simp add: bit_iff_odd_drop_bit take_bit_eq_mod mod_2_eq_odd)
    show "take_bit 1 (drop_bit 7 (ucast (ucast (w AND 0xFF :: u32) :: u8) :: u32)) = take_bit 1 (drop_bit 7 w)"
      unfolding eq by (simp add: bit_simps)
    show "take_bit 1 (drop_bit 7 (ucast (ucast (drop_bit 8 (w AND 0xFF00) :: u32) :: u8) :: u32))
      = take_bit 1 (drop_bit 15 w)"
      unfolding eq by (simp add: bit_simps)
  qed
  then show ?thesis
    by (simp only: record_hardfault_def frame_at_def Let_def valid_fields) (use b in simp)
qed

end
