(* ===== verification/Sample_App.thy ===== *)
theory Sample_App
  imports Gateway Layout
begin

text \<open>
  The sample user image (\<open>sample/Source/main.c\<close>): a non-secure application that waits half a second
  on its timer, feeds the watchdog, sends a packet and a log line and toggles a LED, through the
  gateway functions of \<open>Gateway\<close>. The state is the device as the gateway sees it, the timer and
  the LED port.

  The compare event of the timer comes from outside: \<open>fires k\<close> tells whether it has come by wake-up
  \<open>k\<close>. What \<open>printf\<close> prints of a received message is the result of the callback.
\<close>

definition GPIO_P0_PIN :: nat where "GPIO_P0_PIN = 28"

record timer0 =
  tm_prescaler :: u32
  tm_bitmode :: u32
  tm_inten :: u32
  tm_running :: bool
  tm_cc0 :: u32
  tm_compare0 :: bool

record sample =
  sm_app :: appcore
  sm_timer :: timer0
  sm_timer_running :: bool
  sm_dirset :: u32
  sm_out :: u32

section \<open>Receiving\<close>

text \<open>The struct the callback lays over the received bytes: a type, a length and the content.\<close>

definition msg_packet_t :: ctype where
  "msg_packet_t = Struct [(''type'', U8), (''length'', U8), (''content'', Arr 255 U8)]"

text \<open>The text a \<open>%s\<close> prints: the bytes up to the first zero. Fuel: the content read is 256 bytes.\<close>

fun c_string :: "nat \<Rightarrow> (u32 \<Rightarrow> u8) \<Rightarrow> u32 \<Rightarrow> bytes" where
  "c_string 0 mem a = []"
| "c_string (Suc n) mem a = (if mem a = 0 then [] else mem a # c_string n mem (a + 1))"

definition rx_data_callback ::
    "u32 \<Rightarrow> u32 \<Rightarrow> (u32 \<Rightarrow> u8) \<Rightarrow> (u32 \<Rightarrow> u8) \<times> (u8 \<times> u8 \<times> bytes)" where
  "rx_data_callback data received mem =
     (let content = data + 2;
          mem1 = mem(content + ucast (mem (data + 1)) := 0)
      in (mem1, (mem1 data, mem1 (data + 1), c_string 256 mem1 content)))"

section \<open>The timer\<close>

definition TIMER0_IRQHandler :: "sample \<Rightarrow> sample" where
  "TIMER0_IRQHandler s =
     (if tm_compare0 (sm_timer s)
      then s\<lparr>sm_timer := (sm_timer s)\<lparr>tm_compare0 := False\<rparr>, sm_timer_running := False\<rparr>
      else s)"

text \<open>\<open>while (_timer_running) { __WFE(); }\<close> with the interrupt handler run at each wake-up.\<close>

partial_function (option) wait_timer :: "(nat \<Rightarrow> bool) \<Rightarrow> nat \<Rightarrow> sample \<Rightarrow> sample option" where
  "wait_timer fires k s =
     (if sm_timer_running s
      then wait_timer fires (Suc k) (TIMER0_IRQHandler
             (s\<lparr>sm_timer := (sm_timer s)\<lparr>tm_compare0 := tm_compare0 (sm_timer s) \<or> fires k\<rparr>\<rparr>))
      else Some s)"

text \<open>The capture copies the counter to CC[0].\<close>

definition delay_ms :: "u32 \<Rightarrow> (nat \<Rightarrow> bool) \<Rightarrow> u32 \<Rightarrow> sample \<Rightarrow> sample outcome" where
  "delay_ms counter fires ms s =
     (let s1 = s\<lparr>sm_timer := (sm_timer s)\<lparr>tm_cc0 := counter + ms * 1000\<rparr>, sm_timer_running := True\<rparr>
      in case wait_timer fires 0 s1 of None \<Rightarrow> Stuck s1 | Some s2 \<Rightarrow> Continue s2)"

section \<open>main\<close>

definition on_app :: "(appcore \<Rightarrow> appcore outcome) \<Rightarrow> sample \<Rightarrow> sample outcome" where
  "on_app f s =
     (case f (sm_app s) of
        Continue a \<Rightarrow> Continue (s\<lparr>sm_app := a\<rparr>)
      | Stuck a \<Rightarrow> Stuck (s\<lparr>sm_app := a\<rparr>)
      | Undefined \<Rightarrow> Undefined)"

definition sample_main_init :: "u32 \<Rightarrow> u32 \<Rightarrow> sample \<Rightarrow> sample" where
  "sample_main_init bitmode_32bit inten_compare0 s =
     s\<lparr>sm_dirset := push_bit GPIO_P0_PIN 1,
       sm_timer := (sm_timer s)\<lparr>tm_prescaler := 4, tm_bitmode := bitmode_32bit,
                                 tm_inten := inten_compare0, tm_running := True\<rparr>\<rparr>"

text \<open>One pass of the loop. \<open>hello\<close> and \<open>logging\<close> are the addresses of the two literals, \<open>stack\<close> the
  secure stack beyond the parameter that \<open>swarmit_send_data_packet\<close> copies from.\<close>

record sample_env =
  se_app_env :: app_env
  se_hello :: u32
  se_logging :: u32

record sample_input =
  si_counter :: u32
  si_fires :: "nat \<Rightarrow> bool"
  si_app_input :: app_input
  si_stack :: bytes

definition toggle_led :: "sample \<Rightarrow> sample" where
  "toggle_led s = s\<lparr>sm_out := sm_out s XOR push_bit GPIO_P0_PIN 1\<rparr>"

definition sample_iteration :: "sample_env \<Rightarrow> sample_input \<Rightarrow> sample \<Rightarrow> sample outcome" where
  "sample_iteration e i = run_stages
     [delay_ms (si_counter i) (si_fires i) 500,
      on_app (swarmit_keep_alive (se_app_env e) (si_app_input i)),
      on_app (swarmit_send_data_packet (se_app_env e) (si_app_input i) (si_stack i) (se_hello e) 5),
      on_app (\<lambda>a. Continue (swarmit_log_data (se_logging e) 7 a)),
      \<lambda>s. Continue (toggle_led s)]"

text \<open>The IPC handler gives the callback to the gateway: the event \<open>AE_RxCallback\<close>.\<close>

definition sample_IPC_IRQHandler :: "sample \<Rightarrow> sample" where
  "sample_IPC_IRQHandler s = s\<lparr>sm_app := swarmit_ipc_isr (sm_app s)\<rparr>"

section \<open>Facts\<close>

lemma wait_timer_None:
  assumes "\<And>j. k \<le> j \<Longrightarrow> \<not> fires j" and "\<not> tm_compare0 (sm_timer s)" and "sm_timer_running s"
  shows "wait_timer fires k s = None"
proof (rule ccontr)
  assume "wait_timer fires k s \<noteq> None"
  then obtain r where r: "wait_timer fires k s = Some r" by auto
  have "\<not> ((\<forall>j\<ge>k. \<not> fires j) \<and> \<not> tm_compare0 (sm_timer s) \<and> sm_timer_running s)"
  proof (rule wait_timer.raw_induct [where P = "\<lambda>fires k s r.
      \<not> ((\<forall>j\<ge>k. \<not> fires j) \<and> \<not> tm_compare0 (sm_timer s) \<and> sm_timer_running s)", OF _ r])
    fix f and fires :: "nat \<Rightarrow> bool" and k and s r :: sample
    let ?s = "TIMER0_IRQHandler
      (s\<lparr>sm_timer := (sm_timer s)\<lparr>tm_compare0 := tm_compare0 (sm_timer s) \<or> fires k\<rparr>\<rparr>)"
    assume IH: "\<And>fires k s r. f fires k s = Some r \<Longrightarrow>
        \<not> ((\<forall>j\<ge>k. \<not> fires j) \<and> \<not> tm_compare0 (sm_timer s) \<and> sm_timer_running s)"
      and eq: "(if sm_timer_running s then f fires (Suc k) ?s else Some s) = Some r"
    show "\<not> ((\<forall>j\<ge>k. \<not> fires j) \<and> \<not> tm_compare0 (sm_timer s) \<and> sm_timer_running s)"
    proof
      assume a: "(\<forall>j\<ge>k. \<not> fires j) \<and> \<not> tm_compare0 (sm_timer s) \<and> sm_timer_running s"
      then have "f fires (Suc k) ?s = Some r" using eq by simp
      then have "\<not> ((\<forall>j\<ge>Suc k. \<not> fires j) \<and> \<not> tm_compare0 (sm_timer ?s) \<and> sm_timer_running ?s)"
        by (rule IH)
      then show False using a by (simp add: TIMER0_IRQHandler_def)
    qed
  qed
  then show False using assms by blast
qed

lemma wait_timer_fired:
  "fires n \<Longrightarrow> k \<le> n \<Longrightarrow> \<exists>s'. wait_timer fires k s = Some s' \<and> sm_app s' = sm_app s \<and>
     sm_out s' = sm_out s \<and> \<not> sm_timer_running s' \<and> tm_cc0 (sm_timer s') = tm_cc0 (sm_timer s)"
proof (induction "n - k" arbitrary: k s)
  case 0
  then have "k = n" by simp
  then show ?case
    using 0 by (cases "sm_timer_running s")
      (simp_all add: wait_timer.simps [of fires n] wait_timer.simps [of fires "Suc n"]
         TIMER0_IRQHandler_def)
next
  case (Suc d)
  let ?s = "TIMER0_IRQHandler
      (s\<lparr>sm_timer := (sm_timer s)\<lparr>tm_compare0 := tm_compare0 (sm_timer s) \<or> fires k\<rparr>\<rparr>)"
  show ?case
  proof (cases "sm_timer_running s")
    case True
    have "d = n - Suc k" "Suc k \<le> n" using Suc.hyps(2) Suc.prems by simp_all
    then obtain s' where "wait_timer fires (Suc k) ?s = Some s'" "sm_app s' = sm_app ?s"
        "sm_out s' = sm_out ?s" "\<not> sm_timer_running s'" "tm_cc0 (sm_timer s') = tm_cc0 (sm_timer ?s)"
      using Suc.hyps(1) [of "Suc k" ?s] Suc.prems(1) by auto
    then show ?thesis
      using True by (simp add: wait_timer.simps [of fires k s]) (simp add: TIMER0_IRQHandler_def split: if_splits)
  qed (simp add: wait_timer.simps [of fires k])
qed

lemma delay_ms_result:
  "(if \<exists>n. fires n
    then \<exists>s'. delay_ms counter fires ms s = Continue s' \<and> sm_app s' = sm_app s \<and>
           sm_out s' = sm_out s \<and> tm_cc0 (sm_timer s') = counter + ms * 1000
    else \<not> tm_compare0 (sm_timer s) \<longrightarrow>
      (\<exists>s'. delay_ms counter fires ms s = Stuck s' \<and> sm_app s' = sm_app s))"
proof (cases "\<exists>n. fires n")
  case True
  then obtain n where "fires n" by blast
  then show ?thesis
    using wait_timer_fired [of fires n 0 "s\<lparr>sm_timer := (sm_timer s)\<lparr>tm_cc0 := counter + ms * 1000\<rparr>,
      sm_timer_running := True\<rparr>"] True by (auto simp: delay_ms_def Let_def)
next
  case False
  then show ?thesis
    using wait_timer_None [of 0 fires "s\<lparr>sm_timer := (sm_timer s)\<lparr>tm_cc0 := counter + ms * 1000\<rparr>,
      sm_timer_running := True\<rparr>"] by (auto simp: delay_ms_def Let_def)
qed

end
