(* ===== verification/Sample_Properties.thy ===== *)
theory Sample_Properties
  imports Sample_App Examples
begin

text \<open>
  The properties of the sample user image: what its receive callback writes and prints, and that its
  loop feeds the watchdog the bootloader has started.
\<close>

section \<open>The receive callback\<close>

text \<open>The field of a struct that holds the byte at an offset.\<close>

definition field_at :: "ctype \<Rightarrow> nat \<Rightarrow> string option" where
  "field_at t off = map_option fst
     (find (\<lambda>(n, o', ft). o' \<le> off \<and> off < o' + sizeof ft) (Layout.fields t))"

lemma c_string_terminated:
  "mem (a + of_nat n) = 0 \<Longrightarrow> n < fuel \<Longrightarrow>
   c_string fuel mem a = takeWhile (\<lambda>b. b \<noteq> 0) (map (\<lambda>k. mem (a + of_nat k)) [0..<n])"
proof (induction n arbitrary: a fuel)
  case 0
  then show ?case by (cases fuel) simp_all
next
  case (Suc n)
  then obtain f where f: "fuel = Suc f" "n < f" by (cases fuel) simp_all
  have "c_string f mem (a + 1) = takeWhile (\<lambda>b. b \<noteq> 0) (map (\<lambda>k. mem (a + 1 + of_nat k)) [0..<n])"
    using Suc.prems f(2) by (intro Suc.IH) (simp_all add: algebra_simps)
  then show ?case
    using f(1) by (simp add: upt_conv_Cons map_Suc_upt [symmetric] algebra_simps comp_def del: upt_Suc)
qed

lemma rx_pdu_field:
  "n \<le> 257 \<Longrightarrow> field_at app_ipc_shared_data_t (the (offsetof app_ipc_shared_data_t ''rx_pdu'') + 1 + n)
     = Some (if n < 255 then ''rx_pdu'' else ''lh2_calibration'')"
  by (simp add: field_at_def offsetof_def shared_layouts)


text \<open>C38: The callback trusts the length inside the message and ignores the one it is given. It prints the
  bytes before the first zero of the announced content, and writes one zero after that content: the
  write is outside the received bytes exactly when fewer were received than announced, and for an
  announced length of 253 or more it is outside the receive buffer of the shared RAM, in the
  calibration that follows it.\<close>

theorem received_message_overrun:
  "let len = unat (mem (data + 1)); (mem', ty, len', text) = rx_data_callback data received mem;
       a = data + 2 + of_nat len
   in ty = mem data \<and> unat len' = len \<and> mem' = mem(a := 0) \<and>
      text = takeWhile (\<lambda>b. b \<noteq> 0) (map (\<lambda>k. mem (data + 2 + of_nat k)) [0..<len]) \<and>
      (unat received \<le> unat (a - data) \<longleftrightarrow> unat received \<le> 2 + len) \<and>
      field_at app_ipc_shared_data_t
          (the (offsetof app_ipc_shared_data_t ''rx_pdu'') + 1 + unat (a - data))
        = Some (if len < 253 then ''rx_pdu'' else ''lh2_calibration'')"
proof -
  define len where "len = unat (mem (data + 1))"
  have len: "len < 256" using unsigned_less [of "mem (data + 1)"] by (simp add: len_def)
  define a where "a = data + 2 + of_nat len"
  have off: "unat (a - data) = 2 + len"
  proof -
    have "a - data = of_nat (2 + len)" by (simp add: a_def)
    then show ?thesis using len by (simp only: unat_of_nat) simp
  qed
  have "a \<noteq> data" "a \<noteq> data + 1"
    using off by auto
  then have mem': "rx_data_callback data received mem
      = (mem(a := 0), (mem data, mem (data + 1), c_string 256 (mem(a := 0)) (data + 2)))"
    by (simp add: rx_data_callback_def a_def len_def Let_def)
  have "c_string 256 (mem(a := 0)) (data + 2)
      = takeWhile (\<lambda>b. b \<noteq> 0) (map (\<lambda>k. (mem(a := 0)) (data + 2 + of_nat k)) [0..<len])"
    using len by (intro c_string_terminated) (simp_all add: a_def)
  also have "map (\<lambda>k. (mem(a := 0)) (data + 2 + of_nat k)) [0..<len]
      = map (\<lambda>k. mem (data + 2 + of_nat k)) [0..<len]"
  proof (rule map_cong [OF refl])
    fix k assume "k \<in> set [0..<len]"
    then have "unat (of_nat k :: u32) \<noteq> unat (of_nat len :: u32)"
      using len by (simp only: unat_of_nat) simp
    then have "data + 2 + of_nat k \<noteq> a" by (auto simp: a_def)
    then show "(mem(a := 0)) (data + 2 + of_nat k) = mem (data + 2 + of_nat k)" by simp
  qed
  finally have "rx_data_callback data received mem = (mem(a := 0), (mem data, mem (data + 1),
      takeWhile (\<lambda>b. b \<noteq> 0) (map (\<lambda>k. mem (data + 2 + of_nat k)) [0..<len])))"
    by (simp only: mem')
  then show ?thesis
    using off rx_pdu_field [of "2 + len"] len
    by (simp add: a_def len_def Let_def)
qed

section \<open>The loop\<close>

lemma send_hello:
  assumes "app_env_ok e" and "app_inv s" and "\<And>sh. \<exists>k. net_ack (ae_net e (ai_time i) sh k)"
  shows "\<exists>s'. swarmit_send_data_packet e i stack p 5 s = Continue s' \<and> app_inv s' \<and> a_wdt0 s' = a_wdt0 s"
proof -
  define s1 where "s1 = s\<lparr>a_tx_data_buffer :=
      blit 0 (packet_type_code PACKET_DATA # 5 # take 5 (le32 p @ stack)) (a_tx_data_buffer s)\<rparr>"
  define m where "m = take 7 (a_tx_data_buffer s1)"
  have s1: "app_inv s1" "a_wdt0 s1 = a_wdt0 s" using assms(2) by (simp_all add: s1_def app_inv_def)
  have call: "swarmit_send_data_packet e i stack p 5 s = mari_node_tx e (ai_time i) m s1"
    by (simp add: swarmit_send_data_packet_def Let_def s1_def m_def)
  obtain s' where s': "mari_node_tx e (ai_time i) m s1 = Continue s'"
    using ipc_call_returns [OF assms(3)] unfolding mari_node_tx_def by blast
  moreover have "app_inv s'"
    using app_inv_mari_node_tx [OF assms(1) s1(1), of m "ai_time i"] s' by (simp add: m_def)
  moreover have "a_wdt0 s' = a_wdt0 s1"
    using ipc_call_frame(4) [OF s' [unfolded mari_node_tx_def]] by (simp add: app_shared_def)
  ultimately show ?thesis using call s1(2) by auto
qed

lemma log_frame:
  assumes "app_inv s"
  shows "app_inv (swarmit_log_data p 7 s) \<and> a_wdt0 (swarmit_log_data p 7 s) = a_wdt0 s"
  using assms
  by (simp add: swarmit_log_data_def app_inv_def app_upd_defs app_shared_ok_def shared_ok_def mem_bytes_def)

lemma sample_iteration_result:
  assumes "app_env_ok (se_app_env e)" and "app_inv (sm_app s)" and "\<exists>n. si_fires i n"
    and acks: "\<And>sh. \<exists>k. net_ack (ae_net (se_app_env e) (ai_time (si_app_input i)) sh k)"
  shows "\<exists>s'. sample_iteration e i s = Continue s' \<and> app_inv (sm_app s') \<and>
    wd_reloads (a_wdt0 (sm_app s')) = wd_reloads (a_wdt0 (sm_app s)) + 1 \<and>
    sm_out s' = sm_out s XOR push_bit GPIO_P0_PIN 1 \<and>
    tm_cc0 (sm_timer s') = si_counter i + 500000"
proof -
  let ?e = "se_app_env e" and ?i = "si_app_input i"
  obtain s1 where s1: "delay_ms (si_counter i) (si_fires i) 500 s = Continue s1"
    "sm_app s1 = sm_app s" "sm_out s1 = sm_out s" "tm_cc0 (sm_timer s1) = si_counter i + 500000"
    using delay_ms_result [of "si_fires i" "si_counter i" 500 s] assms(3) by auto
  obtain a2 where a2: "swarmit_keep_alive ?e ?i (sm_app s1) = Continue a2" "app_inv a2"
    "wd_reloads (a_wdt0 a2) = wd_reloads (a_wdt0 (sm_app s)) + 1"
    using keep_alive_reloads [OF assms(1,2)] s1(2) by metis
  obtain a3 where a3: "swarmit_send_data_packet ?e ?i (si_stack i) (se_hello e) 5 a2 = Continue a3"
    "app_inv a3" "a_wdt0 a3 = a_wdt0 a2"
    using send_hello [OF assms(1) a2(2) acks] by blast
  show ?thesis
    using s1 a2 a3 log_frame [OF a3(2), of "se_logging e"]
    by (simp add: sample_iteration_def on_app_def toggle_led_def)
qed

lemma on_app_timer: "on_app f s = Continue s' \<Longrightarrow> sm_timer s' = sm_timer s"
  by (auto simp: on_app_def split: outcome.splits)

lemma sample_iteration_time:
  assumes "sample_iteration e i s = Continue s'" and "\<exists>n. si_fires i n"
  shows "tm_cc0 (sm_timer s') = si_counter i + 500000"
proof -
  obtain s1 where s1: "delay_ms (si_counter i) (si_fires i) 500 s = Continue s1"
    "tm_cc0 (sm_timer s1) = si_counter i + 500000"
    using delay_ms_result [of "si_fires i" "si_counter i" 500 s] assms(2) by auto
  then show ?thesis
    using assms(1)
    by (auto simp: sample_iteration_def and_then_Continue_iff toggle_led_def dest!: on_app_timer)
qed

text \<open>What a pass does to the number of reloads and the LED.\<close>

definition pass :: "sample_input \<Rightarrow> nat \<times> bool \<Rightarrow> nat \<times> bool" where
  "pass i u = (fst u + 1, \<not> snd u)"

lemma fold_pass: "fold pass is (n, b) = (n + length is, b \<noteq> odd (length is))"
  by (induction "is" arbitrary: n b) (auto simp: pass_def)

definition reloads_led :: "sample \<Rightarrow> nat \<times> bool" where
  "reloads_led s = (wd_reloads (a_wdt0 (sm_app s)), bit (sm_out s) GPIO_P0_PIN)"

definition pass_answered :: "sample_env \<Rightarrow> sample_input \<Rightarrow> bool" where
  "pass_answered e i \<longleftrightarrow> (\<exists>n. si_fires i n) \<and>
     (\<forall>sh. \<exists>k. net_ack (ae_net (se_app_env e) (ai_time (si_app_input i)) sh k))"

interpretation sample_loop: refinement "app_env_ok (se_app_env e)" "pass_answered e"
    "\<lambda>s. app_inv (sm_app s)" "sample_iteration e" pass reloads_led
  for e
proof unfold_locales
  fix i :: sample_input and s :: sample
  assume "app_env_ok (se_app_env e)" "pass_answered e i" "app_inv (sm_app s)"
  then obtain s' where s': "sample_iteration e i s = Continue s'" "app_inv (sm_app s')"
    "wd_reloads (a_wdt0 (sm_app s')) = wd_reloads (a_wdt0 (sm_app s)) + 1"
    "sm_out s' = sm_out s XOR push_bit GPIO_P0_PIN 1"
    using sample_iteration_result [of e s i] by (auto simp: pass_answered_def)
  moreover have "bit (sm_out s') GPIO_P0_PIN = (\<not> bit (sm_out s) GPIO_P0_PIN)"
    by (simp add: s'(4) bit_simps GPIO_P0_PIN_def)
  ultimately show "\<exists>s'. sample_iteration e i s = Continue s' \<and> app_inv (sm_app s') \<and>
      reloads_led s' = pass i (reloads_led s)"
    by (simp add: reloads_led_def pass_def)
qed


definition ex_sample :: sample where
  "ex_sample =
     \<lparr>sm_app = ex_app, sm_timer = \<lparr>tm_prescaler = 4, tm_bitmode = 3, tm_inten = 0x10000, tm_running = True,
        tm_cc0 = 0, tm_compare0 = False\<rparr>, sm_timer_running = False, sm_dirset = 0x10000000, sm_out = 0\<rparr>"

definition ex_sample_env :: sample_env where
  "ex_sample_env = \<lparr>se_app_env = ex_app_env, se_hello = 0x10200, se_logging = 0x10208\<rparr>"

definition ex_sample_input :: "u32 \<Rightarrow> sample_input" where
  "ex_sample_input t =
     \<lparr>si_counter = t, si_fires = (\<lambda>n. n = 3), si_app_input = ex_app_input, si_stack = replicate 8 0\<rparr>"


end
