(* ===== verification/Mutex.thy ===== *)
theory Mutex
  imports Netcore Gateway
begin

text \<open>
  The shared RAM at the grain of its accesses: the hardware mutex (\<open>mutex_lock\<close> and \<open>mutex_unlock\<close>
  of \<open>bootloader/Source/ipc.c\<close> and \<open>network_core/Source/ipc.h\<close>), what each stage and handler does
  to the shared RAM in the order of the code, and the interleavings of the two cores and their
  interrupt handlers. The other theories take a stage or handler as one step; \<open>alone\<close> is a
  program run without interference, and the lemmas at the end show that it does what they say.

  A \<open>memcpy\<close> moves a word at a time where a property is about what comes between, and is one
  access elsewhere; a coarser access has fewer interleavings.
\<close>

section \<open>The mutex\<close>

text \<open>Reading the register of a free mutex takes it: the value read is whether it was taken, and it is
  taken afterwards. \<open>mutex_lock\<close> is one poll, with whether the loop ends.\<close>

definition mutex_read :: "bool \<Rightarrow> bool \<times> bool" where
  "mutex_read taken = (taken, True)"

definition mutex_lock :: "bool \<Rightarrow> bool \<times> bool" where
  "mutex_lock taken = (let (v, taken') = mutex_read taken in (\<not> v, taken'))"

definition mutex_unlock :: "bool \<Rightarrow> bool" where
  "mutex_unlock taken = False"

section \<open>Programs\<close>

text \<open>What a thread keeps besides the shared RAM: the buffer it assembles a message in, and the
  message's length.\<close>

record scratch =
  l_buf :: bytes
  l_len :: nat

datatype access = Lock | Unlock | Act "scratch \<times> ipc_shared \<Rightarrow> scratch \<times> ipc_shared"

type_synonym program = "access list"

definition change :: "(ipc_shared \<Rightarrow> ipc_shared) \<Rightarrow> access" where
  "change g = Act (\<lambda>(l, sh). (l, g sh))"

text \<open>\<open>store\<close> writes bytes at the end of the message without moving it, \<open>put\<close> moves it too.\<close>

definition store :: "(ipc_shared \<Rightarrow> bytes) \<Rightarrow> access" where
  "store f = Act (\<lambda>(l, sh). (l\<lparr>l_buf := blit (l_len l) (f sh) (l_buf l)\<rparr>, sh))"

definition advance :: "(ipc_shared \<Rightarrow> nat) \<Rightarrow> access" where
  "advance n = Act (\<lambda>(l, sh). (l\<lparr>l_len := l_len l + n sh\<rparr>, sh))"

definition put :: "(ipc_shared \<Rightarrow> bytes) \<Rightarrow> access" where
  "put f = Act (\<lambda>(l, sh).
     (l\<lparr>l_buf := blit (l_len l) (f sh) (l_buf l), l_len := l_len l + length (f sh)\<rparr>, sh))"

fun alone :: "program \<Rightarrow> scratch \<times> ipc_shared \<Rightarrow> scratch \<times> ipc_shared" where
  "alone [] x = x"
| "alone (Act f # p) x = alone p (f x)"
| "alone (_ # p) x = alone p x"

text \<open>Every lock is followed by its unlock; \<open>b\<close> tells whether the mutex is held.\<close>

fun bracketed :: "bool \<Rightarrow> program \<Rightarrow> bool" where
  "bracketed b [] \<longleftrightarrow> \<not> b"
| "bracketed b (Lock # p) \<longleftrightarrow> \<not> b \<and> bracketed True p"
| "bracketed b (Unlock # p) \<longleftrightarrow> b \<and> bracketed False p"
| "bracketed b (Act f # p) \<longleftrightarrow> bracketed b p"

section \<open>What the firmwares do to the shared RAM\<close>

text \<open>Network core, main loop: the status message, without the mutex.\<close>

definition status_prog :: program where
  "status_prog =
     [put (\<lambda>sh. [msg_code SWRMT_MSG_STATUS]),
      put (\<lambda>sh. [device_code (device_type sh)]),
      put (\<lambda>sh. [status_code (sh_status sh)]),
      put (\<lambda>sh. le16 (battery_level sh)),
      put (\<lambda>sh. le32 (pos_x (current_position sh))),
      put (\<lambda>sh. le32 (pos_y (current_position sh)))]"

definition ota_start_prog :: "ota_start_pkt \<Rightarrow> program" where
  "ota_start_prog pkt =
     [change (\<lambda>sh. sh\<lparr>ota := (ota sh)\<lparr>ota_last_chunk_acked := - 1\<rparr>\<rparr>),
      change (\<lambda>sh. sh\<lparr>sh_status := SWRMT_APPLICATION_PROGRAMMING\<rparr>),
      Lock,
      change (\<lambda>sh. sh\<lparr>ota := (ota sh)\<lparr>ota_image_size := os_image_size pkt\<rparr>\<rparr>),
      change (\<lambda>sh. sh\<lparr>ota := (ota sh)\<lparr>ota_chunk_count := os_chunk_count pkt\<rparr>\<rparr>),
      Unlock]"

text \<open>A chunk that is to be verified: the copy, and the digest of what was copied.\<close>

definition chunk_prog :: "net_env \<Rightarrow> u8 \<Rightarrow> bytes \<Rightarrow> program" where
  "chunk_prog e sz src =
     [change (\<lambda>sh. sh\<lparr>ota := (ota sh)\<lparr>ota_chunk_size := ucast sz\<rparr>\<rparr>),
      Lock,
      change (memcpy_ota_chunk src),
      Unlock,
      Lock,
      put (\<lambda>sh. env_sha256 e (ota_chunk_bytes_read sh)),
      Unlock]"

definition log_prog :: "u32 \<Rightarrow> program" where
  "log_prog now =
     [put (\<lambda>sh. [msg_code SWRMT_MSG_LOG_EVENT]),
      put (\<lambda>sh. le32 now),
      Lock,
      store (\<lambda>sh. log_length (sh_log sh) # take (unat (log_length (sh_log sh))) (log_data (sh_log sh))),
      Unlock,
      advance (\<lambda>sh. unat (log_length (sh_log sh)) + 1)]"

text \<open>Network core, radio interrupt: what \<open>_handle_packet\<close> does after its branches, which the packet
  and the status at that moment decide.\<close>

definition packet_prog :: "net_env \<Rightarrow> u64 \<Rightarrow> (nat \<Rightarrow> u8) \<Rightarrow> u8 \<Rightarrow> netcore \<Rightarrow> program" where
  "packet_prog e dst packet len s =
     (let data = packet_bytes packet len;
          packet_type = blit 0 data (n_req_buffer s) ! 0
      in if unat len = env_metrics_size e \<and> packet_type = env_metrics_probe e \<or>
            is_request packet_type \<or> n_status s \<noteq> SWRMT_APPLICATION_RUNNING \<or>
            dst \<noteq> env_broadcast e \<and> dst \<noteq> n_device_id s
         then []
         else [Lock,
               change (\<lambda>sh. sh\<lparr>rx_pdu := (rx_pdu sh)\<lparr>pdu_length := len\<rparr>\<rparr>),
               change (\<lambda>sh. sh\<lparr>rx_pdu := (rx_pdu sh)\<lparr>pdu_buffer := blit 0 data (pdu_buffer (rx_pdu sh))\<rparr>\<rparr>),
               Unlock])"

text \<open>Application core: a new position, in the bootloader's loop and in \<open>swarmit_keep_alive\<close>; the log
  of a raw capture and of the user image; the position the user image reads.\<close>

definition position_prog :: "position \<Rightarrow> program" where
  "position_prog p =
     [Lock,
      change (\<lambda>sh. sh\<lparr>current_position := (current_position sh)\<lparr>pos_x := pos_x p\<rparr>\<rparr>),
      change (\<lambda>sh. sh\<lparr>current_position := (current_position sh)\<lparr>pos_y := pos_y p\<rparr>\<rparr>),
      Unlock]"

definition capture_prog :: "bytes \<Rightarrow> program" where
  "capture_prog m =
     [Lock,
      change (\<lambda>sh. sh\<lparr>sh_log := (sh_log sh)\<lparr>log_data := blit 0 m (log_data (sh_log sh))\<rparr>\<rparr>),
      change (\<lambda>sh. sh\<lparr>sh_log := (sh_log sh)\<lparr>log_length := of_nat (length m)\<rparr>\<rparr>),
      Unlock]"

definition log_data_prog :: "u32 \<Rightarrow> bytes \<Rightarrow> program" where
  "log_data_prog len data =
     [Lock,
      change (\<lambda>sh. sh\<lparr>sh_log := (sh_log sh)\<lparr>log_length := ucast len\<rparr>\<rparr>),
      change (\<lambda>sh. sh\<lparr>sh_log := (sh_log sh)\<lparr>log_data := blit 0 data (log_data (sh_log sh))\<rparr>\<rparr>),
      Unlock]"

definition get_position_prog :: program where
  "get_position_prog =
     [Lock,
      put (\<lambda>sh. le32 (pos_x (current_position sh))),
      put (\<lambda>sh. le32 (pos_y (current_position sh))),
      Unlock]"

lemmas prog_defs =
  status_prog_def ota_start_prog_def chunk_prog_def log_prog_def packet_prog_def position_prog_def
  capture_prog_def log_data_prog_def get_position_prog_def

lemmas access_defs = change_def store_def advance_def put_def

lemma progs_bracketed:
  "bracketed False status_prog" "bracketed False (ota_start_prog pkt)"
  "bracketed False (chunk_prog e sz src)" "bracketed False (log_prog now)"
  "bracketed False (packet_prog e dst packet len s)" "bracketed False (position_prog p)"
  "bracketed False (capture_prog m)" "bracketed False (log_data_prog n data)"
  "bracketed False get_position_prog"
  by (simp_all add: prog_defs access_defs Let_def)

section \<open>Interleavings\<close>

text \<open>Four contexts: the main loop and the interrupt handler of each core. A handler preempts the
  loop of its own core.\<close>

datatype core_id = App_Core | Net_Core

datatype ctx = Loop core_id | Isr core_id

record thread =
  prog :: program
  lcl :: scratch

record conc =
  co_taken :: bool
  co_shared :: ipc_shared
  co_thread :: "ctx \<Rightarrow> thread"

abbreviation prog_of :: "conc \<Rightarrow> ctx \<Rightarrow> program" where
  "prog_of s x \<equiv> prog (co_thread s x)"

fun runnable :: "conc \<Rightarrow> ctx \<Rightarrow> bool" where
  "runnable s (Isr c) = True"
| "runnable s (Loop c) \<longleftrightarrow> prog_of s (Isr c) = []"

definition set_thread :: "ctx \<Rightarrow> thread \<Rightarrow> conc \<Rightarrow> conc" where
  "set_thread x t s = s\<lparr>co_thread := (co_thread s)(x := t)\<rparr>"

text \<open>The next access of a context. A lock that is not got stays.\<close>

definition exec :: "ctx \<Rightarrow> conc \<Rightarrow> conc" where
  "exec x s =
     (let t = co_thread s x
      in case prog t of
           [] \<Rightarrow> s
         | Lock # p \<Rightarrow>
             (let (got, taken) = mutex_lock (co_taken s); s1 = s\<lparr>co_taken := taken\<rparr>
              in if got then set_thread x (t\<lparr>prog := p\<rparr>) s1 else s1)
         | Unlock # p \<Rightarrow>
             set_thread x (t\<lparr>prog := p\<rparr>) (s\<lparr>co_taken := mutex_unlock (co_taken s)\<rparr>)
         | Act f # p \<Rightarrow>
             (let (l, sh) = f (lcl t, co_shared s)
              in set_thread x \<lparr>prog = p, lcl = l\<rparr> (s\<lparr>co_shared := sh\<rparr>)))"

text \<open>\<open>loops c\<close> are the programs of a core's loop; \<open>handlers c sh\<close> those of its interrupts when the
  shared RAM is \<open>sh\<close>.\<close>

inductive conc_step :: "(core_id \<Rightarrow> program set) \<Rightarrow> (core_id \<Rightarrow> ipc_shared \<Rightarrow> program set)
    \<Rightarrow> conc \<Rightarrow> conc \<Rightarrow> bool"
  for loops handlers
where
  access: "runnable s x \<Longrightarrow> conc_step loops handlers s (exec x s)"
| interrupt: "prog_of s (Isr c) = [] \<Longrightarrow> p \<in> handlers c (co_shared s) \<Longrightarrow>
     conc_step loops handlers s (set_thread (Isr c) \<lparr>prog = p, lcl = l\<rparr> s)"
| next_stage: "prog_of s (Loop c) = [] \<Longrightarrow> prog_of s (Isr c) = [] \<Longrightarrow> p \<in> loops c \<Longrightarrow>
     conc_step loops handlers s (set_thread (Loop c) \<lparr>prog = p, lcl = l\<rparr> s)"

text \<open>A schedule: the contexts that make the next accesses.\<close>

fun run_schedule :: "ctx list \<Rightarrow> conc \<Rightarrow> conc option" where
  "run_schedule [] s = Some s"
| "run_schedule (x # xs) s = (if runnable s x then run_schedule xs (exec x s) else None)"

lemma run_schedule_steps: "run_schedule xs s = Some s' \<Longrightarrow> (conc_step L H)\<^sup>*\<^sup>* s s'"
proof (induction xs arbitrary: s)
  case (Cons x xs)
  then have "conc_step L H s (exec x s)" "(conc_step L H)\<^sup>*\<^sup>* (exec x s) s'"
    by (auto intro: conc_step.access split: if_splits)
  then show ?case by (rule converse_rtranclp_into_rtranclp)
qed simp

lemma set_thread_simps [simp]:
  "co_taken (set_thread x t s) = co_taken s" "co_shared (set_thread x t s) = co_shared s"
  "co_thread (set_thread x t s) = (co_thread s)(x := t)"
  by (simp_all add: set_thread_def)

section \<open>Run alone, a program does what its stage does\<close>

lemma status_alone:
  "take (l_len l) (l_buf l) = [] \<Longrightarrow> l_len l = 0 \<Longrightarrow>
   \<exists>l'. alone status_prog (l, sh) = (l', sh) \<and> take (l_len l') (l_buf l') = status_message sh"
  by (simp add: status_prog_def put_def status_message_def position_bytes_def blit_def)

lemma ota_start_alone:
  "n_status s = SWRMT_APPLICATION_READY \<or> n_status s = SWRMT_APPLICATION_PROGRAMMING \<Longrightarrow>
   net_req_ota_start s = Continue s' \<Longrightarrow>
   alone (ota_start_prog (ota_start_of (n_req_buffer s))) (l, n_shared s) = (l, n_shared s')"
  by (auto simp: ota_start_prog_def change_def net_req_ota_start_def net_upd_defs Let_def)

lemma chunk_alone:
  "l_len l = 0 \<Longrightarrow>
   \<exists>l'. alone (chunk_prog e (oc_chunk_size pkt) (chunk_source s (oc_chunk_size pkt))) (l, n_shared s)
       = (l', n_shared (ota_store_chunk e pkt s)) \<and>
     take (l_len l') (l_buf l') = n_computed_hash (ota_store_chunk e pkt s)"
  by (simp add: chunk_prog_def access_defs ota_store_chunk_def net_upd_defs chunk_source_def Let_def
        blit_def)

lemma log_alone:
  assumes "l_len l = 0" and "shared_ok sh"
  shows "\<exists>l'. alone (log_prog now) (l, sh) = (l', sh) \<and>
    take (l_len l') (l_buf l') = log_message now (sh_log sh)"
  using assms
  by (simp add: log_prog_def access_defs log_message_def blit_def shared_ok_def min_def le32_def)

lemma packet_alone:
  "alone (packet_prog e dst packet len s) (l, n_shared s) = (l, n_shared (handle_packet e dst packet len s))"
  by (auto simp: packet_prog_def handle_packet_def change_def Let_def on_shared_def)

lemma position_alone:
  "alone (position_prog p) (l, a_shared s) = (l, a_shared (app_shared (\<lambda>sh. sh\<lparr>current_position := p\<rparr>) s))"
  by (simp add: position_prog_def change_def app_shared_def)

lemma log_data_alone:
  "\<not> 127 < len \<Longrightarrow> \<not> log_address_refused data \<Longrightarrow>
   alone (log_data_prog len (mem_bytes s data (unat len))) (l, a_shared s)
     = (l, a_shared (swarmit_log_data data len s))"
  by (simp add: log_data_prog_def change_def swarmit_log_data_def app_shared_def app_emit_def)

lemma capture_alone:
  "localization_get_raw_counts (ae_lh2 e) (min max_samples LH2_BASESTATION_COUNT_MAX) (a_loc s) = (rs, loc) \<Longrightarrow>
   rs \<noteq> [] \<Longrightarrow>
   alone (capture_prog (raw_log rs)) (l, a_shared s) = (l, a_shared (capture_samples e s))"
  by (simp add: capture_prog_def change_def capture_samples_def app_upd_defs Let_def)

lemma get_position_alone:
  "l_len l = 0 \<Longrightarrow>
   \<exists>l'. alone get_position_prog (l, sh) = (l', sh) \<and>
     take (l_len l') (l_buf l') = position_bytes (current_position sh)"
  by (simp add: get_position_prog_def put_def position_bytes_def blit_def le32_def)

section \<open>Who holds the mutex\<close>

definition holds :: "conc \<Rightarrow> ctx \<Rightarrow> bool" where
  "holds s x \<longleftrightarrow> bracketed True (prog_of s x)"

text \<open>Every context is inside or outside a bracket, at most one is inside, and the mutex is taken
  exactly when one is.\<close>

definition conc_inv :: "conc \<Rightarrow> bool" where
  "conc_inv s \<longleftrightarrow>
     (\<forall>x. bracketed False (prog_of s x) \<or> holds s x) \<and>
     (\<forall>x y. holds s x \<longrightarrow> holds s y \<longrightarrow> x = y) \<and>
     (co_taken s \<longleftrightarrow> (\<exists>x. holds s x))"

definition bracketed_programs ::
    "(core_id \<Rightarrow> program set) \<Rightarrow> (core_id \<Rightarrow> ipc_shared \<Rightarrow> program set) \<Rightarrow> bool" where
  "bracketed_programs loops handlers \<longleftrightarrow>
     (\<forall>c. Ball (loops c) (bracketed False)) \<and> (\<forall>c sh. Ball (handlers c sh) (bracketed False))"

lemma bracketed_exclusive: "bracketed True p \<Longrightarrow> \<not> bracketed False p"
  by (induction "True" p rule: bracketed.induct) auto

lemma conc_inv_set:
  assumes inv: "conc_inv s" and t: "bracketed False (prog t)" and out: "\<not> holds s x"
  shows "conc_inv (set_thread x t s)"
proof -
  have h: "holds (set_thread x t s) y = holds s y" for y
    using t out bracketed_exclusive by (cases "y = x") (auto simp: holds_def)
  show ?thesis
    using inv t unfolding conc_inv_def h by auto
qed

text \<open>The three things an access can be.\<close>

lemma exec_cases:
  obtains (idle) "prog_of s x = []" "exec x s = s"
  | (waits) p where "prog_of s x = Lock # p" "co_taken s" "exec x s = s"
  | (takes) p where "prog_of s x = Lock # p" "\<not> co_taken s"
      "exec x s = set_thread x ((co_thread s x)\<lparr>prog := p\<rparr>) (s\<lparr>co_taken := True\<rparr>)"
  | (gives) p where "prog_of s x = Unlock # p"
      "exec x s = set_thread x ((co_thread s x)\<lparr>prog := p\<rparr>) (s\<lparr>co_taken := False\<rparr>)"
  | (acts) f p l sh where "prog_of s x = Act f # p"
      "exec x s = set_thread x \<lparr>prog = p, lcl = l\<rparr> (s\<lparr>co_shared := sh\<rparr>)"
proof (cases "prog_of s x")
  case Nil
  then show ?thesis using that(1) by (simp add: exec_def)
next
  case (Cons i p)
  show ?thesis
  proof (cases i)
    case Lock
    then show ?thesis
      using that(2,3) Cons by (cases "co_taken s")
        (simp_all add: exec_def mutex_lock_def mutex_read_def set_thread_def Let_def)
  next
    case Unlock
    then show ?thesis using that(4) Cons by (simp add: exec_def mutex_unlock_def)
  next
    case (Act f)
    then show ?thesis
      using that(5) Cons by (cases "f (lcl (co_thread s x), co_shared s)") (simp add: exec_def)
  qed
qed

lemma conc_inv_exec:
  assumes inv: "conc_inv s"
  shows "conc_inv (exec x s)"
proof (rule exec_cases [of s x])
  fix p
  assume p: "prog_of s x = Lock # p" "\<not> co_taken s"
    and e: "exec x s = set_thread x ((co_thread s x)\<lparr>prog := p\<rparr>) (s\<lparr>co_taken := True\<rparr>)"
  have none: "\<not> holds s y" for y using inv p(2) by (auto simp: conc_inv_def)
  then have "bracketed False (prog_of s x)" using inv by (auto simp: conc_inv_def)
  then have "holds (exec x s) y = (y = x)" for y
    using p(1) none [of y] e by (cases "y = x") (auto simp: holds_def)
  then show ?thesis
    using inv e none unfolding conc_inv_def by (auto simp: holds_def)
next
  fix p
  assume p: "prog_of s x = Unlock # p"
    and e: "exec x s = set_thread x ((co_thread s x)\<lparr>prog := p\<rparr>) (s\<lparr>co_taken := False\<rparr>)"
  have "bracketed False (prog_of s x) \<or> holds s x" using inv unfolding conc_inv_def by blast
  then have x: "holds s x" "bracketed False p" using p by (simp_all add: holds_def)
  have others: "\<not> holds s y" "bracketed False (prog_of s y)" if "y \<noteq> x" for y
    using inv x(1) that unfolding conc_inv_def by blast+
  have "\<not> holds (exec x s) y" "bracketed False (prog_of (exec x s) y)" for y
    using e others x(2) bracketed_exclusive [of p] by (cases "y = x"; auto simp: holds_def)+
  then show ?thesis
    using e unfolding conc_inv_def by simp
next
  fix f p l sh
  assume p: "prog_of s x = Act f # p"
    and e: "exec x s = set_thread x \<lparr>prog = p, lcl = l\<rparr> (s\<lparr>co_shared := sh\<rparr>)"
  then have h: "holds (exec x s) y = holds s y"
    "bracketed False (prog_of (exec x s) y) = bracketed False (prog_of s y)" for y
    by (simp_all add: holds_def)
  show ?thesis using inv unfolding conc_inv_def h by (simp add: e)
qed (use inv in simp_all)

lemma conc_inv_step:
  "conc_step L H s s' \<Longrightarrow> bracketed_programs L H \<Longrightarrow> conc_inv s \<Longrightarrow> conc_inv s'"
proof (induction rule: conc_step.induct)
  case (access s x)
  then show ?case by (simp add: conc_inv_exec)
next
  case (interrupt s c p l)
  then show ?case
    by (intro conc_inv_set) (auto simp: bracketed_programs_def holds_def)
next
  case (next_stage s c p l)
  then show ?case
    by (intro conc_inv_set) (auto simp: bracketed_programs_def holds_def)
qed

lemma conc_inv_steps:
  "(conc_step L H)\<^sup>*\<^sup>* s s' \<Longrightarrow> bracketed_programs L H \<Longrightarrow> conc_inv s \<Longrightarrow> conc_inv s'"
  by (induction rule: rtranclp_induct) (auto intro: conc_inv_step)

text \<open>A handler that wants the mutex its own loop holds waits for ever, and so does its core.\<close>

lemma handler_waits_step:
  "conc_step L H s s' \<Longrightarrow> co_taken s \<Longrightarrow> prog_of s (Isr c) = Lock # p \<Longrightarrow>
   co_thread s' (Isr c) = co_thread s (Isr c) \<and> co_thread s' (Loop c) = co_thread s (Loop c)"
proof (induction rule: conc_step.induct)
  case (access s x)
  then have "x \<noteq> Loop c" by auto
  with access show ?case
    by (cases rule: exec_cases [of s x]) auto
qed auto

lemma handler_waits:
  "(conc_step L H)\<^sup>*\<^sup>* s s' \<Longrightarrow> bracketed_programs L H \<Longrightarrow> conc_inv s \<Longrightarrow> holds s (Loop c) \<Longrightarrow>
   prog_of s (Isr c) = Lock # p \<Longrightarrow>
   co_thread s' (Isr c) = co_thread s (Isr c) \<and> co_thread s' (Loop c) = co_thread s (Loop c) \<and>
   conc_inv s' \<and> holds s' (Loop c)"
proof (induction rule: rtranclp_induct)
  case (step s1 s2)
  then have s1: "co_thread s1 (Isr c) = co_thread s (Isr c)" "co_thread s1 (Loop c) = co_thread s (Loop c)"
    "conc_inv s1" "holds s1 (Loop c)" by simp_all
  then have "co_taken s1" by (auto simp: conc_inv_def)
  then show ?case
    using handler_waits_step [OF step.hyps(2), of c p] conc_inv_step [OF step.hyps(2)] s1 step.prems
    by (simp add: holds_def)
qed simp

section \<open>Progress\<close>

fun lock_free :: "program \<Rightarrow> bool" where
  "lock_free [] = True"
| "lock_free (Act f # p) = lock_free p"
| "lock_free (_ # p) = False"

definition work :: "conc \<Rightarrow> nat" where
  "work s = length (prog_of s (Loop App_Core)) + length (prog_of s (Loop Net_Core)) +
     length (prog_of s (Isr App_Core)) + length (prog_of s (Isr Net_Core))"

definition idle :: "conc \<Rightarrow> bool" where
  "idle s \<longleftrightarrow> (\<forall>x. prog_of s x = [])"

lemma all_ctx: "(\<forall>x. P x) \<longleftrightarrow> P (Loop App_Core) \<and> P (Loop Net_Core) \<and> P (Isr App_Core) \<and> P (Isr Net_Core)"
  by (metis core_id.exhaust ctx.exhaust)

lemma work_idle: "work s = 0 \<Longrightarrow> idle s"
  unfolding idle_def all_ctx by (simp add: work_def)

lemma work_set_thread:
  "length (prog t) < length (prog_of s x) \<Longrightarrow> work (set_thread x t s) < work s"
  by (cases x; rename_tac c; case_tac c) (simp_all add: work_def)

lemma work_taken [simp]: "work (s\<lparr>co_taken := b\<rparr>) = work s" "work (s\<lparr>co_shared := sh\<rparr>) = work s"
  by (simp_all add: work_def)

lemma exec_works:
  assumes "prog_of s x \<noteq> []" and "\<not> (co_taken s \<and> (\<exists>p. prog_of s x = Lock # p))"
  shows "work (exec x s) < work s"
proof (rule exec_cases [of s x])
  fix p assume "prog_of s x = Lock # p"
    "exec x s = set_thread x ((co_thread s x)\<lparr>prog := p\<rparr>) (s\<lparr>co_taken := True\<rparr>)"
  then show ?thesis using work_set_thread [of _ "s\<lparr>co_taken := True\<rparr>" x] by simp
next
  fix p assume "prog_of s x = Unlock # p"
    "exec x s = set_thread x ((co_thread s x)\<lparr>prog := p\<rparr>) (s\<lparr>co_taken := False\<rparr>)"
  then show ?thesis using work_set_thread [of _ "s\<lparr>co_taken := False\<rparr>" x] by simp
next
  fix f p l sh assume "prog_of s x = Act f # p"
    "exec x s = set_thread x \<lparr>prog = p, lcl = l\<rparr> (s\<lparr>co_shared := sh\<rparr>)"
  then show ?thesis using work_set_thread [of _ "s\<lparr>co_shared := sh\<rparr>" x] by simp
qed (use assms in auto)

text \<open>A context that can work: a handler with something to do, else the loop that holds the mutex, else
  any loop.\<close>

lemma some_context_works:
  assumes inv: "conc_inv s" and free: "\<And>c. lock_free (prog_of s (Isr c))" and busy: "\<not> idle s"
  shows "\<exists>x. runnable s x \<and> work (exec x s) < work s"
proof (cases "\<exists>c. prog_of s (Isr c) \<noteq> []")
  case True
  then obtain c where "prog_of s (Isr c) \<noteq> []" by blast
  moreover have "prog_of s (Isr c) \<noteq> Lock # p" for p using free [of c] by auto
  ultimately have "work (exec (Isr c) s) < work s" using exec_works by blast
  then show ?thesis by (intro exI [of _ "Isr c"]) simp
next
  case False
  then have run: "runnable s x" for x by (cases x) simp_all
  show ?thesis
  proof (cases "co_taken s")
    case True
    then obtain x where x: "bracketed True (prog_of s x)" using inv by (auto simp: conc_inv_def holds_def)
    then have "prog_of s x \<noteq> []" "\<And>p. prog_of s x \<noteq> Lock # p" by auto
    then show ?thesis using exec_works [of s x] run by auto
  next
    case False
    obtain x where "prog_of s x \<noteq> []" using busy by (auto simp: idle_def)
    then show ?thesis using exec_works [of s x] False run by auto
  qed
qed

lemma exec_lock_free: "lock_free (prog_of s y) \<Longrightarrow> lock_free (prog_of (exec x s) y)"
  by (cases rule: exec_cases [of s x]; cases "y = x") auto

lemma work_gets_done:
  "conc_inv s \<Longrightarrow> (\<And>c. lock_free (prog_of s (Isr c))) \<Longrightarrow> \<exists>s'. (conc_step L H)\<^sup>*\<^sup>* s s' \<and> idle s'"
proof (induction "work s" arbitrary: s rule: less_induct)
  case less
  show ?case
  proof (cases "idle s")
    case False
    then obtain x where x: "runnable s x" "work (exec x s) < work s"
      using some_context_works [OF less.prems] by blast
    obtain s' where "(conc_step L H)\<^sup>*\<^sup>* (exec x s) s'" "idle s'"
      using less.hyps [OF x(2) conc_inv_exec [OF less.prems(1)]] exec_lock_free [OF less.prems(2)] by blast
    then show ?thesis
      using conc_step.access [OF x(1), of L H] by (meson converse_rtranclp_into_rtranclp)
  qed blast
qed

lemma handlers_lock_free_steps:
  "(conc_step L H)\<^sup>*\<^sup>* s s' \<Longrightarrow> (\<And>c sh p. p \<in> H c sh \<Longrightarrow> lock_free p) \<Longrightarrow>
   (\<And>c. lock_free (prog_of s (Isr c))) \<Longrightarrow> lock_free (prog_of s' (Isr c))"
proof (induction arbitrary: c rule: rtranclp_induct)
  case (step s1 s2)
  then have free: "lock_free (prog_of s1 (Isr c))" for c by blast
  show ?case
    using step.hyps(2) free step.prems(1)
    by cases (auto simp: exec_lock_free)
qed simp

lemma idle_inv: "idle s \<Longrightarrow> \<not> co_taken s \<Longrightarrow> conc_inv s"
  by (simp add: idle_def conc_inv_def holds_def)

end
