(* ===== verification/Mutex_Properties.thy ===== *)
theory Mutex_Properties
  imports Mutex Examples
begin

text \<open>
  The properties of the shared RAM under interleaving: what the mutex excludes, when the two cores
  cannot block each other, the deadlock of the radio interrupt with its own loop, and the status
  message that mixes two positions.
\<close>

section \<open>The firmwares' programs\<close>

definition net_programs :: "net_env \<Rightarrow> program set" where
  "net_programs e = {status_prog} \<union> range ota_start_prog \<union> {chunk_prog e sz src | sz src. True} \<union> range log_prog"

definition app_programs :: "program set" where
  "app_programs = range position_prog \<union> range capture_prog \<union> {log_data_prog n m | n m. True} \<union> {get_position_prog}"

fun firmware_loops :: "net_env \<Rightarrow> core_id \<Rightarrow> program set" where
  "firmware_loops e App_Core = app_programs"
| "firmware_loops e Net_Core = net_programs e"

fun radio :: "net_env \<Rightarrow> core_id \<Rightarrow> ipc_shared \<Rightarrow> program set" where
  "radio e App_Core sh = {}"
| "radio e Net_Core sh = {packet_prog e dst packet len n | dst packet len n. n_shared n = sh}"

lemma loops_bracketed: "Ball (firmware_loops e c) (bracketed False)"
  using progs_bracketed by (cases c) (auto simp: net_programs_def app_programs_def)

lemma firmware_bracketed: "bracketed_programs (firmware_loops e) (radio e)"
proof -
  have "Ball (radio e c sh) (bracketed False)" for c sh
    using progs_bracketed(5) by (cases c) auto
  then show ?thesis using loops_bracketed by (simp add: bracketed_programs_def)
qed

definition ex_conc :: conc where
  "ex_conc =
     \<lparr>co_taken = False, co_shared = shared_zero\<lparr>sh_status := SWRMT_APPLICATION_RUNNING\<rparr>,
      co_thread = (\<lambda>_. \<lparr>prog = [], lcl = \<lparr>l_buf = [], l_len = 0\<rparr>\<rparr>)\<rparr>"

text \<open>The application core has begun to publish a position.\<close>

definition ex_publishing :: conc where
  "ex_publishing = exec (Loop App_Core) (set_thread (Loop App_Core)
     \<lparr>prog = position_prog \<lparr>pos_x = 7, pos_y = 9\<rparr>, lcl = \<lparr>l_buf = [], l_len = 0\<rparr>\<rparr> ex_conc)"

lemma ex_conc_start: "idle ex_conc" "\<not> co_taken ex_conc"
  by (simp_all add: idle_def ex_conc_def)

lemma ex_publishing_reached: "(conc_step (firmware_loops e) H)\<^sup>*\<^sup>* ex_conc ex_publishing"
proof -
  let ?s = "set_thread (Loop App_Core)
     \<lparr>prog = position_prog \<lparr>pos_x = 7, pos_y = 9\<rparr>, lcl = \<lparr>l_buf = [], l_len = 0\<rparr>\<rparr> ex_conc"
  have "conc_step (firmware_loops e) H ex_conc ?s"
    by (intro conc_step.next_stage) (auto simp: ex_conc_def app_programs_def)
  moreover have "conc_step (firmware_loops e) H ?s ex_publishing"
    unfolding ex_publishing_def by (rule conc_step.access) (simp add: ex_conc_def)
  ultimately show ?thesis by simp
qed

text \<open>C20: However the two cores' loops and the radio interrupt interleave, at most one of them is between
  a lock and its unlock, and the mutex is taken exactly then.\<close>

theorem mutex_excludes:
  assumes "idle s" and "\<not> co_taken s" and "(conc_step (firmware_loops e) (radio e))\<^sup>*\<^sup>* s s'"
  shows "(\<forall>x y. holds s' x \<and> holds s' y \<longrightarrow> x = y) \<and> (co_taken s' \<longleftrightarrow> (\<exists>x. holds s' x))"
  using conc_inv_steps [OF assms(3) firmware_bracketed idle_inv [OF assms(1,2)]]
  unfolding conc_inv_def by blast

theorem mutex_excludes_witness:
  "co_taken ex_publishing \<and> holds ex_publishing (Loop App_Core) \<and> \<not> holds ex_publishing (Isr Net_Core)"
proof -
  have "holds ex_publishing (Loop App_Core)"
    by (simp add: holds_def ex_publishing_def exec_def mutex_lock_def mutex_read_def ex_conc_def
          position_prog_def change_def)
  then show ?thesis
    using mutex_excludes [OF ex_conc_start ex_publishing_reached [of ex_net_env]] by blast
qed

text \<open>C33: As long as no interrupt handler takes the mutex, which is the case while no user image runs,
  no interleaving of the loops blocks: from wherever it gets to, all of them can finish what they
  have begun.\<close>

theorem loops_never_deadlock:
  assumes "idle s" and "\<not> co_taken s" and "(conc_step (firmware_loops e) handlers)\<^sup>*\<^sup>* s s'"
    and free: "\<And>c sh p. p \<in> handlers c sh \<Longrightarrow> lock_free p"
  shows "(\<exists>s''. (conc_step (firmware_loops e) handlers)\<^sup>*\<^sup>* s' s'' \<and> idle s'') \<and>
    (n_status n \<noteq> SWRMT_APPLICATION_RUNNING \<longrightarrow> lock_free (packet_prog e dst packet len n))"
proof -
  have "bracketed False p" if "p \<in> handlers c sh" for c sh p
  proof -
    have "lock_free p \<Longrightarrow> bracketed False p" by (induction p rule: lock_free.induct) simp_all
    then show ?thesis using free that by blast
  qed
  then have "bracketed_programs (firmware_loops e) handlers"
    using loops_bracketed by (simp add: bracketed_programs_def)
  then have "conc_inv s'"
    using conc_inv_steps [OF assms(3)] idle_inv [OF assms(1,2)] by blast
  moreover have "lock_free (prog_of s (Isr c))" for c using assms(1) by (simp add: idle_def)
  ultimately show ?thesis
    using work_gets_done handlers_lock_free_steps [OF assms(3) free]
    by (auto simp: packet_prog_def Let_def)
qed

theorem loops_never_deadlock_witness:
  "\<exists>s. (conc_step (firmware_loops ex_net_env) (\<lambda>_ _. {}))\<^sup>*\<^sup>* ex_publishing s \<and> idle s"
  using loops_never_deadlock [OF ex_conc_start ex_publishing_reached, of "\<lambda>_ _. {}"] by blast

text \<open>The radio interrupts the loop three accesses into the log program, just after the lock.\<close>

lemma log_preempted:
  assumes "idle s" and "\<not> co_taken s" and n: "n_shared n = co_shared s"
  shows "\<exists>s1. (conc_step (firmware_loops e) (radio e))\<^sup>*\<^sup>* s s1 \<and> conc_inv s1 \<and>
    holds s1 (Loop Net_Core) \<and> prog_of s1 (Loop Net_Core) = drop 3 (log_prog 0) \<and>
    prog_of s1 (Isr Net_Core) = packet_prog e dst packet len n"
proof -
  let ?L = "firmware_loops e" and ?H = "radio e" and ?q = "packet_prog e dst packet len n"
  define l where "l = \<lparr>l_buf = replicate 255 0, l_len = 0\<rparr>"
  define s0 where "s0 = set_thread (Loop Net_Core) \<lparr>prog = log_prog 0, lcl = l\<rparr> s"
  obtain sm where sm: "run_schedule (replicate 3 (Loop Net_Core)) s0 = Some sm"
    "co_taken sm" "co_shared sm = co_shared s" "prog_of sm (Loop Net_Core) = drop 3 (log_prog 0)"
    "prog_of sm (Isr Net_Core) = []"
    using assms(1,2)
    by (simp add: s0_def idle_def log_prog_def access_defs exec_def mutex_lock_def mutex_read_def
          numeral_3_eq_3 set_thread_def)
  define s1 where "s1 = set_thread (Isr Net_Core) \<lparr>prog = ?q, lcl = l\<rparr> sm"
  have "conc_step ?L ?H s s0"
    unfolding s0_def using assms(1) by (intro conc_step.next_stage) (auto simp: idle_def net_programs_def)
  moreover have "(conc_step ?L ?H)\<^sup>*\<^sup>* s0 sm" by (rule run_schedule_steps [OF sm(1)])
  moreover have "conc_step ?L ?H sm s1"
    unfolding s1_def using sm(3,5) n by (intro conc_step.interrupt) auto
  ultimately have steps: "(conc_step ?L ?H)\<^sup>*\<^sup>* s s1" by auto
  moreover have "conc_inv s1"
    by (rule conc_inv_steps [OF steps firmware_bracketed idle_inv [OF assms(1,2)]])
  ultimately show ?thesis
    using sm(4) by (intro exI [of _ s1]) (simp add: s1_def holds_def log_prog_def access_defs)
qed

text \<open>C19: While a user image runs, a packet for it that arrives while the network core's loop copies a log
  under the mutex stops that core for good: the interrupt handler waits for the mutex its own loop
  holds. No other context ever gets it again, so the application core is stopped at its next lock
  too.\<close>

theorem packet_deadlocks_log:
  assumes "idle s" and "\<not> co_taken s" and "n_shared n = co_shared s"
    and p: "packet_prog e dst packet len n \<noteq> []"
  shows "\<exists>s1. (conc_step (firmware_loops e) (radio e))\<^sup>*\<^sup>* s s1 \<and>
    (\<forall>s2. (conc_step (firmware_loops e) (radio e))\<^sup>*\<^sup>* s1 s2 \<longrightarrow>
       prog_of s2 (Isr Net_Core) = packet_prog e dst packet len n \<and>
       prog_of s2 (Loop Net_Core) = drop 3 (log_prog 0) \<and>
       (\<forall>x. holds s2 x \<longrightarrow> x = Loop Net_Core))"
proof -
  obtain s1 where s1: "(conc_step (firmware_loops e) (radio e))\<^sup>*\<^sup>* s s1" "conc_inv s1"
    "holds s1 (Loop Net_Core)" "prog_of s1 (Loop Net_Core) = drop 3 (log_prog 0)"
    "prog_of s1 (Isr Net_Core) = packet_prog e dst packet len n"
    using log_preempted [OF assms(1-3)] by blast
  obtain p' where q: "packet_prog e dst packet len n = Lock # p'"
    using p by (auto simp: packet_prog_def Let_def split: if_splits)
  have "prog_of s2 (Isr Net_Core) = packet_prog e dst packet len n \<and>
      prog_of s2 (Loop Net_Core) = drop 3 (log_prog 0) \<and> (\<forall>x. holds s2 x \<longrightarrow> x = Loop Net_Core)"
    if "(conc_step (firmware_loops e) (radio e))\<^sup>*\<^sup>* s1 s2" for s2
    using handler_waits [OF that firmware_bracketed s1(2,3), of p'] s1(4,5) q
    unfolding conc_inv_def by auto
  then show ?thesis using s1(1) by blast
qed

theorem packet_deadlocks_log_witness:
  "\<exists>s. (conc_step (firmware_loops ex_net_env) (radio ex_net_env))\<^sup>*\<^sup>* ex_conc s \<and>
     (\<forall>s2. (conc_step (firmware_loops ex_net_env) (radio ex_net_env))\<^sup>*\<^sup>* s s2 \<longrightarrow>
        prog_of s2 (Isr Net_Core) \<noteq> [])"
proof -
  define n where "n = ex_net\<lparr>n_shared := co_shared ex_conc\<rparr>"
  have "packet_bytes (\<lambda>_. 2) 3 = [2, 2, 2]"
    by (simp add: packet_bytes_def upt_conv_Cons)
  then have p: "packet_prog ex_net_env (env_broadcast ex_net_env) (\<lambda>_. 2) 3 n \<noteq> []"
    by (simp add: packet_prog_def Let_def n_def ex_conc_def ex_net_env_def is_request_def blit_0)
  have "n_shared n = co_shared ex_conc" by (simp add: n_def)
  then show ?thesis
    using packet_deadlocks_log [OF ex_conc_start _ p] p by metis
qed

text \<open>The status message is read without the mutex, so it can hold a position the robot never had: the
  old one's first coordinate with the new one's second.\<close>

lemma status_torn:
  assumes "idle s" and "\<not> co_taken s"
  shows "\<exists>s'. (conc_step (firmware_loops e) handlers)\<^sup>*\<^sup>* s s' \<and> idle s' \<and>
    co_shared s' = (co_shared s)\<lparr>current_position := p\<rparr> \<and>
    take (l_len (lcl (co_thread s' (Loop Net_Core)))) (l_buf (lcl (co_thread s' (Loop Net_Core))))
      = status_message ((co_shared s)\<lparr>current_position := (current_position (co_shared s))\<lparr>pos_y := pos_y p\<rparr>\<rparr>)"
proof -
  let ?L = "firmware_loops e"
  define l where "l = \<lparr>l_buf = replicate 255 0, l_len = 0\<rparr>"
  define s0 where "s0 = set_thread (Loop Net_Core) \<lparr>prog = status_prog, lcl = l\<rparr> s"
  define s1 where "s1 = set_thread (Loop App_Core) \<lparr>prog = position_prog p, lcl = l\<rparr> s0"
  have "conc_step ?L handlers s s0"
    unfolding s0_def using assms(1) by (intro conc_step.next_stage) (auto simp: idle_def net_programs_def)
  moreover have "conc_step ?L handlers s0 s1"
    unfolding s1_def using assms(1)
    by (intro conc_step.next_stage) (auto simp: idle_def app_programs_def s0_def)
  moreover obtain s2 where s2: "run_schedule
      [Loop Net_Core, Loop Net_Core, Loop Net_Core, Loop Net_Core, Loop Net_Core,
       Loop App_Core, Loop App_Core, Loop App_Core, Loop App_Core, Loop Net_Core] s1 = Some s2"
    "idle s2" "co_shared s2 = (co_shared s)\<lparr>current_position := p\<rparr>"
    "take (l_len (lcl (co_thread s2 (Loop Net_Core)))) (l_buf (lcl (co_thread s2 (Loop Net_Core))))
      = status_message ((co_shared s)\<lparr>current_position := (current_position (co_shared s))\<lparr>pos_y := pos_y p\<rparr>\<rparr>)"
    using assms
    by (simp add: s1_def s0_def l_def idle_def all_ctx status_prog_def position_prog_def access_defs
          exec_def mutex_lock_def mutex_read_def mutex_unlock_def set_thread_def)
      (simp add: status_message_def position_bytes_def blit_def)
  ultimately show ?thesis
    using run_schedule_steps [OF s2(1)] s2(2-) by (meson converse_rtranclp_into_rtranclp)
qed

end
