(* ===== verification/Handshake.thy ===== *)
theory Handshake
  imports Net_Service
begin

text \<open>
  The request handshake of the two cores, access by access: \<open>ipc_network_call\<close> of
  \<open>bootloader/Source/ipc.c\<close> on the application core against the request branch of \<open>IPC_IRQHandler\<close>
  and the request stage of the main loop on the network core (\<open>network_core/Source/main.c\<close>).

  \<open>Appcore\<close> and \<open>Netcore\<close> take the call, the handler and the stage as one step each. Here each
  read or write of \<open>req\<close>, \<open>net_ack\<close>, the event register and \<open>_app_vars.ipc_req\<close> is a step of its own,
  the program counters say which access comes next, and the handler preempts the loop. The rest of
  the two firmwares leaves those four alone (\<open>aloof\<close>), and may do anything else at any time.
\<close>

section \<open>The step relation\<close>

text \<open>The accesses of \<open>ipc_network_call(req)\<close>, of the loop's stage and of the handler.\<close>

datatype call_pc =
    Outside
  | Posting ipc_req_t | Sending ipc_req_t | Polling ipc_req_t | Clearing ipc_req_t

datatype stage_pc = Testing | Taking | Serving | Acking | Resetting

datatype handler_pc = No_Handler | Event_Clearing | Req_Loading

record handshake =
  h_node :: netcore
  h_call :: call_pc
  h_stage :: stage_pc
  h_handler :: handler_pc
  h_served :: "ipc_req_t list"
  h_returned :: "ipc_req_t list"

abbreviation h_event :: "handshake \<Rightarrow> bool" where
  "h_event s \<equiv> n_events (h_node s) IPC_CHAN_REQ"

abbreviation h_req :: "handshake \<Rightarrow> ipc_req_t" where
  "h_req s \<equiv> n_ipc_req (h_node s)"

abbreviation h_ack :: "handshake \<Rightarrow> bool" where
  "h_ack s \<equiv> net_ack (n_shared (h_node s))"

abbreviation h_posted :: "handshake \<Rightarrow> ipc_req_t" where
  "h_posted s \<equiv> sh_req (n_shared (h_node s))"

definition on_node :: "(netcore \<Rightarrow> netcore) \<Rightarrow> handshake \<Rightarrow> handshake" where
  "on_node f s = s\<lparr>h_node := f (h_node s)\<rparr>"

text \<open>\<open>h_served\<close> and \<open>h_returned\<close> record, in order, the requests served and the calls returned.\<close>

definition post_req :: "ipc_req_t \<Rightarrow> netcore \<Rightarrow> netcore" where
  "post_req r = on_shared (\<lambda>sh. sh\<lparr>sh_req := r\<rparr>)"

definition put_ack :: "bool \<Rightarrow> netcore \<Rightarrow> netcore" where
  "put_ack b = on_shared (\<lambda>sh. sh\<lparr>net_ack := b\<rparr>)"

definition put_event :: "bool \<Rightarrow> netcore \<Rightarrow> netcore" where
  "put_event b n = n\<lparr>n_events := (n_events n)(IPC_CHAN_REQ := b)\<rparr>"

definition aloof :: "netcore \<Rightarrow> netcore \<Rightarrow> bool" where
  "aloof n n' \<longleftrightarrow>
     n_ipc_req n' = n_ipc_req n \<and> n_events n' IPC_CHAN_REQ = n_events n IPC_CHAN_REQ \<and>
     net_ack (n_shared n') = net_ack (n_shared n) \<and> sh_req (n_shared n') = sh_req (n_shared n)"

inductive hs_step :: "handshake \<Rightarrow> handshake \<Rightarrow> bool"
where
  call: "h_call s = Outside \<Longrightarrow> r \<noteq> IPC_REQ_NONE \<Longrightarrow> hs_step s (s\<lparr>h_call := Posting r\<rparr>)"
| post: "h_call s = Posting r \<Longrightarrow> hs_step s (on_node (post_req r) (s\<lparr>h_call := Sending r\<rparr>))"
| send: "h_call s = Sending r \<Longrightarrow> hs_step s (on_node (put_event True) (s\<lparr>h_call := Polling r\<rparr>))"
| poll: "h_call s = Polling r \<Longrightarrow>
     hs_step s (s\<lparr>h_call := if h_ack s then Clearing r else Polling r\<rparr>)"
| clear: "h_call s = Clearing r \<Longrightarrow>
     hs_step s (on_node (put_ack False) (s\<lparr>h_call := Outside, h_returned := h_returned s @ [r]\<rparr>))"
| enter: "h_event s \<Longrightarrow> h_handler s = No_Handler \<Longrightarrow> hs_step s (s\<lparr>h_handler := Event_Clearing\<rparr>)"
| clear_event: "h_handler s = Event_Clearing \<Longrightarrow>
     hs_step s (on_node (put_event False) (s\<lparr>h_handler := Req_Loading\<rparr>))"
| load_req: "h_handler s = Req_Loading \<Longrightarrow>
     hs_step s (on_node (\<lambda>n. n\<lparr>n_ipc_req := sh_req (n_shared n)\<rparr>) (s\<lparr>h_handler := No_Handler\<rparr>))"
| test: "h_handler s = No_Handler \<Longrightarrow> h_stage s = Testing \<Longrightarrow>
     hs_step s (s\<lparr>h_stage := if h_req s \<noteq> IPC_REQ_NONE then Taking else Testing\<rparr>)"
| take_req: "h_handler s = No_Handler \<Longrightarrow> h_stage s = Taking \<Longrightarrow>
     hs_step s (on_node (put_ack False) (s\<lparr>h_stage := Serving\<rparr>))"
| serve: "h_handler s = No_Handler \<Longrightarrow> h_stage s = Serving \<Longrightarrow> net_ipc_serve i (h_node s) = Continue n \<Longrightarrow>
     hs_step s (s\<lparr>h_node := n, h_stage := Acking, h_served := h_served s @ [h_req s]\<rparr>)"
| ack: "h_handler s = No_Handler \<Longrightarrow> h_stage s = Acking \<Longrightarrow>
     hs_step s (on_node (put_ack True) (s\<lparr>h_stage := Resetting\<rparr>))"
| reset_req: "h_handler s = No_Handler \<Longrightarrow> h_stage s = Resetting \<Longrightarrow>
     hs_step s (on_node (\<lambda>n. n\<lparr>n_ipc_req := IPC_REQ_NONE\<rparr>) (s\<lparr>h_stage := Testing\<rparr>))"
| elsewhere: "aloof (h_node s) n \<Longrightarrow> hs_step s (s\<lparr>h_node := n\<rparr>)"

abbreviation hs_steps :: "handshake \<Rightarrow> handshake \<Rightarrow> bool" where
  "hs_steps \<equiv> hs_step\<^sup>*\<^sup>*"

lemma on_node_simps [simp]:
  "h_node (on_node f s) = f (h_node s)" "h_call (on_node f s) = h_call s"
  "h_stage (on_node f s) = h_stage s" "h_handler (on_node f s) = h_handler s"
  "h_served (on_node f s) = h_served s" "h_returned (on_node f s) = h_returned s"
  by (simp_all add: on_node_def)

lemma node_simps [simp]:
  "n_shared (post_req r n) = (n_shared n)\<lparr>sh_req := r\<rparr>" "n_ipc_req (post_req r n) = n_ipc_req n"
  "n_events (post_req r n) = n_events n"
  "n_shared (put_ack b n) = (n_shared n)\<lparr>net_ack := b\<rparr>" "n_ipc_req (put_ack b n) = n_ipc_req n"
  "n_events (put_ack b n) = n_events n"
  "n_shared (put_event b n) = n_shared n" "n_ipc_req (put_event b n) = n_ipc_req n"
  "n_events (put_event b n) = (n_events n)(IPC_CHAN_REQ := b)"
  by (simp_all add: post_req_def put_ack_def put_event_def on_shared_def)

section \<open>The rest of the firmware aloof out of it\<close>

lemma aloof_serve: "net_ipc_serve i n = Continue n' \<Longrightarrow> aloof n n'"
  by (auto simp: net_ipc_serve_def aloof_def spin_cases net_upd_defs split: ipc_req_t.splits if_splits)


lemma serve_possible:
  obtains i n' where "net_ipc_serve i n = Continue n'"
proof -
  define i :: net_input where "i = undefined\<lparr>in_connected := \<lambda>_. True\<rparr>"
  have "\<exists>k. in_connected i k" by (simp add: i_def)
  then have "\<exists>n'. net_ipc_serve i n = Continue n'"
    by (cases "n_ipc_req n") (simp_all add: net_ipc_serve_def spin_cases)
  then show ?thesis using that by blast
qed

lemma aloofI:
  "n_ipc_req n' = n_ipc_req n \<Longrightarrow> n_events n' = n_events n \<Longrightarrow>
   net_ack (n_shared n') = net_ack (n_shared n) \<Longrightarrow> sh_req (n_shared n') = sh_req (n_shared n) \<Longrightarrow>
   aloof n n'"
  by (simp add: aloof_def)

lemma aloof_store_chunk: "aloof n (ota_store_chunk e pkt n)"
  by (rule aloofI) (simp_all add: ota_store_chunk_def Let_def net_upd_defs)

lemma aloof_trans: "aloof n n1 \<Longrightarrow> aloof n1 n' \<Longrightarrow> aloof n n'"
  by (simp add: aloof_def)

lemma aloof_req_ota_chunk:
  assumes "net_req_ota_chunk e n = Continue n'"
  shows "aloof n n'"
proof -
  define pkt where "pkt = ota_chunk_of (n_req_buffer n)"
  define n1 where "n1 = on_ota (\<lambda>o1. o1\<lparr>ota_chunk_index := oc_index pkt\<rparr>) n"
  have 1: "aloof n n1" by (rule aloofI) (simp_all add: n1_def net_upd_defs)
  have em: "aloof m (emit x m)" for m x by (rule aloofI) (simp_all add: emit_def)
  have "n' \<in> {n, n1, emit (NE_IpcSend IPC_CHAN_OTA_CHUNK) n1, ota_store_chunk e pkt n1,
      emit (NE_IpcSend IPC_CHAN_OTA_CHUNK) (ota_store_chunk e pkt n1)}"
    using assms
    by (simp add: net_req_ota_chunk_def Let_def pkt_def [symmetric] n1_def [symmetric] split: if_splits)
  moreover have "aloof n n" by (simp add: aloof_def)
  ultimately show ?thesis
    using 1 em aloof_store_chunk aloof_trans by blast
qed

text \<open>Of the interrupts, only the IPC handler and the arrival of an IPC event do not keep out of it;
  of the stages, only the one of requests between the cores.\<close>

lemma aloof_dispatch: "net_dispatch e n = Continue n' \<Longrightarrow> aloof n n'"
  by (auto simp: net_dispatch_def net_req_start_def net_req_stop_def net_req_reset_def
      net_req_ota_start_def net_req_lh2_capture_def net_req_lh2_calibration_def
      commit_config_and_reboot_def Let_def net_upd_defs aloof_req_ota_chunk
      intro!: aloofI split: option.splits swrmt_message_type_t.splits if_splits)

lemma aloof_stages:
  assumes "f \<in> set (net_stages e i)" and "f \<noteq> net_stage_ipc i" and "f n = Continue n'"
  shows "aloof n n'"
proof -
  have "aloof n n'" if "net_stage_request e n = Continue n'"
  proof (cases "n_req_received n")
    case True
    then have "aloof (n\<lparr>n_req_received := False\<rparr>) n'"
      using that aloof_dispatch by (simp add: net_stage_request_def)
    then show ?thesis by (simp add: aloof_def)
  qed (use that in \<open>simp add: net_stage_request_def aloof_def\<close>)
  then have "f = net_stage_request e \<Longrightarrow> ?thesis" using assms(3) by simp
  then show ?thesis
    using assms
    by (auto simp: net_stages_def net_stage_calibration_def net_stage_status_def net_stage_data_def
        net_stage_metrics_def net_stage_log_def notify_def Let_def emit_def aloof_def split: if_splits)
qed

lemma aloof_irq:
  "aloof n (net_irq e (NetMari ev) n)" "aloof n (net_irq e NetTimer n)"
  "ch \<noteq> IPC_CHAN_REQ \<Longrightarrow> aloof n (net_irq e (NetIpcReceive ch) n)"
  by (cases ev; auto simp: aloof_def handle_packet_def send_status_def on_shared_def Let_def)+

section \<open>Undisturbed, the accesses are the stage, the handler and the call\<close>

lemma stage_serves:
  assumes "h_handler s = No_Handler" and "h_stage s = Testing" and "h_req s \<noteq> IPC_REQ_NONE"
    and m: "net_ipc_serve i (put_ack False (h_node s)) = Continue m"
  shows "hs_steps s (s\<lparr>h_node := put_ack True m, h_stage := Resetting, h_served := h_served s @ [h_req s]\<rparr>)"
proof -
  let ?a = "s\<lparr>h_stage := Taking\<rparr>"
  let ?b = "on_node (put_ack False) (?a\<lparr>h_stage := Serving\<rparr>)"
  let ?c = "?b\<lparr>h_node := m, h_stage := Acking, h_served := h_served ?b @ [h_req ?b]\<rparr>"
  let ?d = "on_node (put_ack True) (?c\<lparr>h_stage := Resetting\<rparr>)"
  have "hs_step s ?a" using hs_step.test [OF assms(1,2)] assms(3) by simp
  moreover have "hs_step ?a ?b" by (rule hs_step.take_req) (simp_all add: assms(1))
  moreover have "hs_step ?b ?c"
    by (rule hs_step.serve [where i = i]) (simp_all add: assms(1) m on_node_def)
  moreover have "hs_step ?c ?d" by (rule hs_step.ack) (simp_all add: assms(1))
  ultimately have "hs_steps s ?d" by (meson converse_rtranclp_into_rtranclp rtranclp.rtrancl_refl)
  moreover have "?d = s\<lparr>h_node := put_ack True m, h_stage := Resetting, h_served := h_served s @ [h_req s]\<rparr>"
    by (cases s) (simp add: on_node_def)
  ultimately show ?thesis by metis
qed

lemma stage_alone:
  assumes "h_handler s = No_Handler" and "h_stage s = Testing" and "h_req s \<noteq> IPC_REQ_NONE"
    and n: "net_stage_ipc i (h_node s) = Continue n"
  shows "hs_steps s (s\<lparr>h_node := n, h_served := h_served s @ [h_req s]\<rparr>)"
proof -
  obtain m where m: "net_ipc_serve i (put_ack False (h_node s)) = Continue m"
    "n = put_ack True m\<lparr>n_ipc_req := IPC_REQ_NONE\<rparr>"
    using n assms(3)
    by (cases "net_ipc_serve i (put_ack False (h_node s))") (auto simp: net_stage_ipc_def put_ack_def)
  let ?d = "s\<lparr>h_node := put_ack True m, h_stage := Resetting, h_served := h_served s @ [h_req s]\<rparr>"
  let ?e = "on_node (\<lambda>n. n\<lparr>n_ipc_req := IPC_REQ_NONE\<rparr>) (?d\<lparr>h_stage := Testing\<rparr>)"
  have "hs_step ?d ?e" by (rule hs_step.reset_req) (simp_all add: assms(1))
  with stage_serves [OF assms(1-3) m(1)] have "hs_steps s ?e" by (rule rtranclp.rtrancl_into_rtrancl)
  moreover have "?e = s\<lparr>h_node := n, h_served := h_served s @ [h_req s]\<rparr>"
    using assms(2) m(2) by (cases s) (simp add: on_node_def)
  ultimately show ?thesis by metis
qed

definition load_event :: "netcore \<Rightarrow> netcore" where
  "load_event n = (put_event False n)\<lparr>n_ipc_req := sh_req (n_shared n)\<rparr>"

lemma load_event_handler: "n_events n IPC_CHAN_REQ \<Longrightarrow> \<not> n_events n IPC_CHAN_LOG_EVENT \<Longrightarrow>
    load_event n = net_ipc_irq_handler n"
  by (simp add: load_event_def put_event_def net_ipc_irq_handler_def Let_def)

lemma handler_alone:
  assumes "h_handler s = No_Handler" and "h_event s"
  shows "hs_steps s (on_node load_event s)"
proof -
  let ?a = "s\<lparr>h_handler := Event_Clearing\<rparr>"
  let ?b = "on_node (put_event False) (?a\<lparr>h_handler := Req_Loading\<rparr>)"
  let ?c = "on_node (\<lambda>n. n\<lparr>n_ipc_req := sh_req (n_shared n)\<rparr>) (?b\<lparr>h_handler := No_Handler\<rparr>)"
  have "hs_step s ?a" using assms by (simp add: hs_step.enter)
  moreover have "hs_step ?a ?b" by (rule hs_step.clear_event) simp
  moreover have "hs_step ?b ?c" by (rule hs_step.load_req) simp
  moreover have "?c = on_node load_event s"
    using assms by (simp add: on_node_def put_event_def load_event_def)
  ultimately show ?thesis by (metis converse_rtranclp_into_rtranclp rtranclp.rtrancl_refl)
qed

text \<open>A call up to its loop, and the end of it.\<close>

lemma call_posts:
  assumes "h_call s = Outside" and "r \<noteq> IPC_REQ_NONE"
  shows "hs_steps s (on_node (put_event True \<circ> post_req r) (s\<lparr>h_call := Polling r\<rparr>))"
proof -
  let ?a = "s\<lparr>h_call := Posting r\<rparr>"
  let ?b = "on_node (post_req r) (?a\<lparr>h_call := Sending r\<rparr>)"
  let ?c = "on_node (put_event True) (?b\<lparr>h_call := Polling r\<rparr>)"
  have "hs_step s ?a" by (rule hs_step.call [OF assms])
  moreover have "hs_step ?a ?b" by (rule hs_step.post) simp
  moreover have "hs_step ?b ?c" by (rule hs_step.send) simp
  moreover have "?c = on_node (put_event True \<circ> post_req r) (s\<lparr>h_call := Polling r\<rparr>)"
    by (simp add: on_node_def)
  ultimately show ?thesis by (metis converse_rtranclp_into_rtranclp rtranclp.rtrancl_refl)
qed

lemma call_ends:
  assumes "h_call s = Polling r" and "h_ack s"
  shows "hs_steps s (on_node (put_ack False) (s\<lparr>h_call := Outside, h_returned := h_returned s @ [r]\<rparr>))"
proof -
  let ?a = "s\<lparr>h_call := Clearing r\<rparr>"
  have "hs_step s ?a" using hs_step.poll [OF assms(1)] assms(2) by simp
  moreover have "hs_step ?a (on_node (put_ack False) (?a\<lparr>h_call := Outside, h_returned := h_returned ?a @ [r]\<rparr>))"
    by (rule hs_step.clear) simp
  ultimately show ?thesis by (auto intro: converse_rtranclp_into_rtranclp)
qed

section \<open>What always holds\<close>

text \<open>\<open>unasked\<close>: the loop has no request to serve, its own variable being cleared or about to be.
  Then a request is not yet seen (\<open>pending\<close>), taken, answered, or gone (\<open>lost\<close>).\<close>

definition unasked :: "handshake \<Rightarrow> bool" where
  "unasked s \<longleftrightarrow> h_stage s = Testing \<and> h_req s = IPC_REQ_NONE \<or> h_stage s = Resetting"

definition pending :: "handshake \<Rightarrow> bool" where
  "pending s \<longleftrightarrow> unasked s \<and> (h_event s \<longleftrightarrow> h_handler s \<noteq> Req_Loading)"

definition taken :: "ipc_req_t \<Rightarrow> handshake \<Rightarrow> bool" where
  "taken r s \<longleftrightarrow> h_req s = r \<and> h_stage s \<in> {Testing, Taking, Serving} \<and> \<not> h_event s \<and> h_handler s = No_Handler"

definition at_rest :: "handshake \<Rightarrow> bool" where
  "at_rest s \<longleftrightarrow> unasked s \<and> \<not> h_event s \<and> h_handler s = No_Handler"

definition unserved :: "handshake \<Rightarrow> bool" where
  "unserved s \<longleftrightarrow> \<not> h_ack s \<and> h_served s = h_returned s"

definition served :: "ipc_req_t \<Rightarrow> handshake \<Rightarrow> bool" where
  "served r s \<longleftrightarrow> h_served s = h_returned s @ [r] \<and>
     (h_ack s \<and> at_rest s \<or>
      \<not> h_ack s \<and> h_req s = r \<and> h_stage s = Acking \<and> \<not> h_event s \<and> h_handler s = No_Handler)"

fun hs_inv_call :: "call_pc \<Rightarrow> handshake \<Rightarrow> bool" where
  "hs_inv_call Outside s \<longleftrightarrow> at_rest s \<and> unserved s"
| "hs_inv_call (Posting r) s \<longleftrightarrow> r \<noteq> IPC_REQ_NONE \<and> at_rest s \<and> unserved s"
| "hs_inv_call (Sending r) s \<longleftrightarrow> r \<noteq> IPC_REQ_NONE \<and> h_posted s = r \<and> at_rest s \<and> unserved s"
| "hs_inv_call (Polling r) s \<longleftrightarrow> r \<noteq> IPC_REQ_NONE \<and> h_posted s = r \<and>
     (unserved s \<and> (pending s \<or> taken r s \<or> at_rest s) \<or> served r s)"
| "hs_inv_call (Clearing r) s \<longleftrightarrow> r \<noteq> IPC_REQ_NONE \<and> h_ack s \<and> served r s"

definition hs_inv :: "handshake \<Rightarrow> bool" where
  "hs_inv s \<longleftrightarrow> hs_inv_call (h_call s) s"

lemmas phase_defs = unasked_def pending_def taken_def at_rest_def unserved_def served_def

lemma phase_call [simp]:
  "unasked (s\<lparr>h_call := c\<rparr>) = unasked s" "pending (s\<lparr>h_call := c\<rparr>) = pending s"
  "taken r (s\<lparr>h_call := c\<rparr>) = taken r s" "at_rest (s\<lparr>h_call := c\<rparr>) = at_rest s"
  "unserved (s\<lparr>h_call := c\<rparr>) = unserved s" "served r (s\<lparr>h_call := c\<rparr>) = served r s"
  by (simp_all add: phase_defs)

lemmas hs_inv_defs = hs_inv_def phase_defs

lemma hs_inv_step: "hs_step s s' \<Longrightarrow> hs_inv s \<Longrightarrow> hs_inv s'"
proof (induction rule: hs_step.induct)
  case (call s r)
  then show ?case by (simp add: hs_inv_def)
next
  case (post s r)
  then show ?case by (auto simp: hs_inv_defs)
next
  case (send s r)
  then show ?case by (auto simp: hs_inv_defs)
next
  case (poll s r)
  then show ?case by (auto simp: hs_inv_defs)
next
  case (clear s r)
  then show ?case by (auto simp: hs_inv_defs)
next
  case (enter s)
  then show ?case by (cases "h_call s") (auto simp: hs_inv_defs)
next
  case (clear_event s)
  then show ?case by (cases "h_call s") (auto simp: hs_inv_defs)
next
  case (load_req s)
  then show ?case by (cases "h_call s") (auto simp: hs_inv_defs)
next
  case (test s)
  then show ?case by (cases "h_call s") (auto simp: hs_inv_defs)
next
  case (take_req s)
  then show ?case by (cases "h_call s") (auto simp: hs_inv_defs)
next
  case (serve s i n)
  have "aloof (h_node s) n" using serve(3) by (rule aloof_serve)
  then show ?case
    using serve by (cases "h_call s") (auto simp: hs_inv_defs aloof_def)
next
  case (ack s)
  then show ?case by (cases "h_call s") (auto simp: hs_inv_defs)
next
  case (reset_req s)
  then show ?case by (cases "h_call s") (auto simp: hs_inv_defs)
next
  case (elsewhere s n)
  then show ?case by (cases "h_call s") (auto simp: hs_inv_defs aloof_def)
qed


lemma hs_inv_steps: "hs_steps s s' \<Longrightarrow> hs_inv s \<Longrightarrow> hs_inv s'"
  by (induction rule: rtranclp_induct) (auto intro: hs_inv_step)

text \<open>Before the first call, the network core in its loop.\<close>

definition hs_start :: "handshake \<Rightarrow> bool" where
  "hs_start s \<longleftrightarrow> h_call s = Outside \<and> h_stage s = Testing \<and> h_handler s = No_Handler \<and>
     h_req s = IPC_REQ_NONE \<and> \<not> h_event s \<and> \<not> h_ack s \<and> h_served s = [] \<and> h_returned s = []"

lemma hs_inv_start: "hs_start s \<Longrightarrow> hs_inv s"
  by (simp add: hs_start_def hs_inv_defs)

section \<open>Requests that are lost\<close>

text \<open>The handler has read the request, or is about to, while the loop is about to overwrite it; or
  the loop has done so.\<close>

definition lost :: "handshake \<Rightarrow> bool" where
  "lost s \<longleftrightarrow> unserved s \<and>
     (if h_stage s = Resetting then h_handler s = No_Handler \<longrightarrow> \<not> h_event s
      else at_rest s)"

lemma lost_step:
  assumes "hs_step s s'" and "h_call s = Polling r" and "hs_inv s" and "lost s"
  shows "h_call s' = Polling r \<and> lost s' \<and> h_served s' = h_served s \<and> h_returned s' = h_returned s"
  using assms
proof (induction rule: hs_step.induct)
  case (elsewhere s n)
  then show ?case by (auto simp: lost_def hs_inv_defs aloof_def split: if_splits)
qed (auto simp: lost_def hs_inv_defs split: if_splits)

lemma lost_steps:
  assumes "hs_steps s s'" and "h_call s = Polling r" and "hs_inv s" and "lost s"
  shows "h_call s' = Polling r \<and> lost s' \<and> h_served s' = h_served s \<and> h_returned s' = h_returned s"
  using assms(1)
proof (induction rule: rtranclp_induct)
  case (step s1 s2)
  moreover have "hs_inv s1" using hs_inv_steps [OF step(1) assms(3)] .
  ultimately show ?case using lost_step [OF step(2)] by simp
qed (use assms in simp)

section \<open>Requests that are answered\<close>

definition returns :: "handshake \<Rightarrow> bool" where
  "returns s \<longleftrightarrow> (\<exists>s'. hs_steps s s' \<and> h_call s' = Outside)"

lemma returns_step: "hs_step s s' \<Longrightarrow> returns s' \<Longrightarrow> returns s"
  unfolding returns_def by (meson converse_rtranclp_into_rtranclp)

lemma returns_acked: "h_call s = Polling r \<Longrightarrow> h_ack s \<Longrightarrow> returns s"
  unfolding returns_def using call_ends by fastforce

text \<open>One step of the loop or the handler after another.\<close>

lemma returns_acking:
  assumes "h_call s = Polling r" and "h_handler s = No_Handler" and "h_stage s = Acking"
  shows "returns s"
  by (rule returns_step [OF hs_step.ack [OF assms(2,3)]]) (rule returns_acked, use assms in simp_all)

lemma returns_serving:
  assumes "h_call s = Polling r" and "h_handler s = No_Handler" and "h_stage s = Serving"
  shows "returns s"
proof -
  obtain i n where "net_ipc_serve i (h_node s) = Continue n" by (rule serve_possible)
  from hs_step.serve [OF assms(2,3) this] show ?thesis
    by (rule returns_step) (rule returns_acking, use assms in simp_all)
qed

lemma returns_taking:
  assumes "h_call s = Polling r" and "h_handler s = No_Handler" and "h_stage s = Taking"
  shows "returns s"
  by (rule returns_step [OF hs_step.take_req [OF assms(2,3)]]) (rule returns_serving, use assms in simp_all)

lemma returns_taken:
  assumes "h_call s = Polling r" and "r \<noteq> IPC_REQ_NONE" and "taken r s"
  shows "returns s"
proof -
  have s: "h_handler s = No_Handler" using assms(3) by (simp add: taken_def)
  have "returns s" if "h_stage s = Testing"
    by (rule returns_step [OF hs_step.test [OF s that]]) (rule returns_taking, use assms s in \<open>simp_all add: taken_def\<close>)
  then show ?thesis
    using returns_taking [OF assms(1) s] returns_serving [OF assms(1) s] assms(3) by (auto simp: taken_def)
qed

lemma returns_loading:
  assumes "h_call s = Polling r" and "r \<noteq> IPC_REQ_NONE" and "h_posted s = r"
    and "h_handler s = Req_Loading" and "h_stage s = Testing" and "\<not> h_event s"
  shows "returns s"
  by (rule returns_step [OF hs_step.load_req [OF assms(4)]])
     (rule returns_taken [OF _ assms(2)], use assms in \<open>simp_all add: taken_def\<close>)

lemma returns_clearing:
  assumes "h_call s = Polling r" and "r \<noteq> IPC_REQ_NONE" and "h_posted s = r"
    and "h_handler s = Event_Clearing" and "h_stage s = Testing"
  shows "returns s"
  by (rule returns_step [OF hs_step.clear_event [OF assms(4)]])
     (rule returns_loading, use assms in simp_all)

lemma returns_pending:
  assumes "h_call s = Polling r" and "r \<noteq> IPC_REQ_NONE" and "h_posted s = r"
    and "pending s" and "h_stage s = Testing"
  shows "returns s"
proof (cases "h_handler s")
  case No_Handler
  then have "h_event s" using assms(4) by (simp add: pending_def)
  then show ?thesis
    by (rule returns_step [OF hs_step.enter [OF _ No_Handler]]) (rule returns_clearing, use assms in simp_all)
next
  case Event_Clearing
  then show ?thesis using returns_clearing assms by blast
next
  case Req_Loading
  then show ?thesis using returns_loading [OF assms(1-3) _ assms(5)] assms(4) by (simp add: pending_def)
qed

lemma returns_unless_lost:
  assumes "hs_inv s" and c: "h_call s = Polling r" and "\<not> lost s"
  shows "returns s"
proof -
  have r: "r \<noteq> IPC_REQ_NONE" "h_posted s = r" using assms(1) c by (simp_all add: hs_inv_def)
  consider (served) "served r s" | (taken) "taken r s" | (pending) "pending s" "h_stage s = Testing"
    | (window) "pending s" "h_stage s = Resetting" "h_handler s = No_Handler" "h_event s"
    using assms by (auto simp: hs_inv_defs lost_def split: if_splits)
  then show ?thesis
  proof cases
    case served
    then show ?thesis using returns_acked [OF c] returns_acking [OF c] by (auto simp: served_def)
  next
    case window
    let ?t = "on_node (\<lambda>n. n\<lparr>n_ipc_req := IPC_REQ_NONE\<rparr>) (s\<lparr>h_stage := Testing\<rparr>)"
    have "returns ?t"
      by (rule returns_pending [of _ r]) (use c r window in \<open>simp_all add: pending_def unasked_def\<close>)
    then show ?thesis by (rule returns_step [OF hs_step.reset_req [OF window(3,2)]])
  qed (use returns_taken [OF c r(1)] returns_pending [OF c r] in blast)+
qed

lemma returns_iff:
  assumes "hs_inv s" and "h_call s = Polling r"
  shows "returns s \<longleftrightarrow> \<not> lost s"
proof -
  have "\<not> returns s" if "lost s"
    using lost_steps [OF _ assms(2,1) that] by (fastforce simp: returns_def)
  then show ?thesis using returns_unless_lost [OF assms] by blast
qed

text \<open>Two calls in a row: the second one's event arrives before the loop has cleared the first one's
  request.\<close>

lemma second_call_lost:
  assumes "hs_start s" and r: "r1 \<noteq> IPC_REQ_NONE" "r2 \<noteq> IPC_REQ_NONE"
  shows "\<exists>s'. hs_steps s s' \<and> h_call s' = Polling r2 \<and> lost s' \<and> h_returned s' = [r1] \<and> h_served s' = [r1]"
proof -
  note start = assms(1) [unfolded hs_start_def]
  define a where "a = on_node (put_event True \<circ> post_req r1) (s\<lparr>h_call := Polling r1\<rparr>)"
  define b where "b = on_node load_event a"
  obtain i m where m: "net_ipc_serve i (put_ack False (h_node b)) = Continue m" by (rule serve_possible)
  have k: "aloof (put_ack False (h_node b)) m" using m by (rule aloof_serve)
  define c where "c = b\<lparr>h_node := put_ack True m, h_stage := Resetting, h_served := h_served b @ [h_req b]\<rparr>"
  define d where "d = on_node (put_ack False) (c\<lparr>h_call := Outside, h_returned := h_returned c @ [r1]\<rparr>)"
  define f where "f = on_node (put_event True \<circ> post_req r2) (d\<lparr>h_call := Polling r2\<rparr>)"
  have sa: "hs_steps s a" unfolding a_def using start r by (intro call_posts) simp_all
  have sb: "hs_steps a b" unfolding b_def using start by (intro handler_alone) (simp_all add: a_def)
  have b: "h_req b = r1" "h_stage b = Testing" "h_handler b = No_Handler" "h_call b = Polling r1"
      "\<not> h_event b" "h_served b = []" "h_returned b = []"
    using start by (simp_all add: a_def b_def load_event_def)
  have sc: "hs_steps b c" unfolding c_def using b r m by (intro stage_serves) simp_all
  have sd: "hs_steps c d" unfolding d_def by (rule call_ends) (simp_all add: c_def b)
  have sf: "hs_steps d f" unfolding f_def using r by (intro call_posts) (simp_all add: d_def)
  have sg: "hs_steps f (on_node load_event f)"
    by (intro handler_alone) (simp_all add: f_def d_def c_def b)
  have "hs_steps s (on_node load_event f)"
    using sa sb sc sd sf sg by (meson rtranclp_trans)
  moreover have "lost (on_node load_event f)" "h_call (on_node load_event f) = Polling r2"
    "h_returned (on_node load_event f) = [r1]" "h_served (on_node load_event f) = [r1]"
    using k by (simp_all add: f_def d_def c_def b lost_def unserved_def load_event_def)
  ultimately show ?thesis by blast
qed

end
