(* ===== verification/Chunk_Race.thy ===== *)
theory Chunk_Race
  imports Ota
begin

text \<open>
  The chunk stage of the bootloader (\<open>bootloader/Source/main.c\<close>) against the chunk request of the
  network core (\<open>network_core/Source/main.c\<close>), access by access. Both use \<open>ota.chunk_index\<close> and
  \<open>ota.last_chunk_acked\<close> without the mutex: the network core stores the index of a packet before
  it looks at it, the application core reads the index once to write the chunk, once for its
  acknowledgement and once to note what it has acknowledged.

  \<open>Bootloader\<close> and \<open>Netcore\<close> take stage and request as one step each; \<open>stage_chunk_segments\<close> and
  \<open>req_chunk_segments\<close> show that they are what the segments here do one after the other.
\<close>

section \<open>Segments\<close>

text \<open>The application core: the write, the message, and the note. The rest of the stage, from
  \<open>mari_node_tx\<close> on, is \<open>chunk_reply\<close>.\<close>

definition chunk_write :: "app_env \<Rightarrow> appcore \<Rightarrow> appcore" where
  "chunk_write e s = write_chunk e (s\<lparr>a_ota_chunk_request := False\<rparr>)"

definition chunk_message :: "appcore \<Rightarrow> appcore" where
  "chunk_message s = s\<lparr>a_notification_buffer :=
     blit 0 (msg_code SWRMT_MSG_OTA_CHUNK_ACK # le32 (ota_chunk_index (ota (a_shared s))))
       (a_notification_buffer s)\<rparr>"

definition chunk_note :: "appcore \<Rightarrow> appcore" where
  "chunk_note s =
     app_shared (\<lambda>sh. sh\<lparr>ota := (ota sh)\<lparr>ota_last_chunk_acked := ota_chunk_index (ota sh)\<rparr>\<rparr>) s"

definition chunk_reply :: "app_env \<Rightarrow> app_input \<Rightarrow> appcore \<Rightarrow> appcore outcome" where
  "chunk_reply e i s =
     and_then (mari_node_tx e (ai_time i) (take 5 (a_notification_buffer s)) s)
       (\<lambda>s1. if ota_chunk_index (ota (a_shared s1)) = ota_chunk_count (ota (a_shared s1)) - 1
             then Continue (app_shared (\<lambda>sh. sh\<lparr>sh_status := SWRMT_APPLICATION_READY\<rparr>) s1)
             else Continue s1)"

lemma stage_chunk_segments:
  assumes "a_ota_chunk_request s"
  shows "app_stage_ota_chunk e i s = chunk_reply e i (chunk_note (chunk_message (chunk_write e s)))"
  using assms unfolding app_stage_ota_chunk_def chunk_write_def [symmetric]
  by (cases "chunk_write e s")
     (simp add: chunk_reply_def chunk_note_def chunk_message_def app_notify_def app_shared_def Let_def)

text \<open>The network core: the index, and the rest of the request.\<close>

definition chunk_index :: "netcore \<Rightarrow> netcore" where
  "chunk_index n = on_ota (\<lambda>o1. o1\<lparr>ota_chunk_index := oc_index (ota_chunk_of (n_req_buffer n))\<rparr>) n"

definition chunk_rest :: "net_env \<Rightarrow> netcore \<Rightarrow> netcore" where
  "chunk_rest e n =
     (if ota_chunk_count (n_ota n) \<le> ota_chunk_index (n_ota n) then n
      else if ota_last_chunk_acked (n_ota n) \<noteq> ota_chunk_index (n_ota n)
      then let n1 = ota_store_chunk e (ota_chunk_of (n_req_buffer n)) n
           in if hashes_match n1 then emit (NE_IpcSend IPC_CHAN_OTA_CHUNK) n1 else n1
      else emit (NE_IpcSend IPC_CHAN_OTA_CHUNK) n)"

lemma req_chunk_segments:
  "n_status n = SWRMT_APPLICATION_PROGRAMMING \<or> n_status n = SWRMT_APPLICATION_READY \<Longrightarrow>
   net_req_ota_chunk e n = Continue (chunk_rest e (chunk_index n))"
  by (auto simp: net_req_ota_chunk_def chunk_rest_def chunk_index_def Let_def on_ota_def)

section \<open>Schedules\<close>

datatype segment = Write_Chunk | Message | Note | Index | Rest

definition app_segments :: "segment list" where "app_segments = [Write_Chunk, Message, Note]"
definition net_segments :: "segment list" where "net_segments = [Index, Rest]"

text \<open>The shared RAM is the one of the application core's state.\<close>

definition on_net :: "(netcore \<Rightarrow> netcore) \<Rightarrow> netcore \<times> appcore \<Rightarrow> netcore \<times> appcore" where
  "on_net f p = (let n = f ((fst p)\<lparr>n_shared := a_shared (snd p)\<rparr>) in (n, (snd p)\<lparr>a_shared := n_shared n\<rparr>))"

fun run_segment :: "net_env \<Rightarrow> app_env \<Rightarrow> segment \<Rightarrow> netcore \<times> appcore \<Rightarrow> netcore \<times> appcore" where
  "run_segment ne ae Write_Chunk p = (fst p, chunk_write ae (snd p))"
| "run_segment ne ae Message p = (fst p, chunk_message (snd p))"
| "run_segment ne ae Note p = (fst p, chunk_note (snd p))"
| "run_segment ne ae Index p = on_net chunk_index p"
| "run_segment ne ae Rest p = on_net (chunk_rest ne) p"

abbreviation run_segments :: "net_env \<Rightarrow> app_env \<Rightarrow> segment list \<Rightarrow> netcore \<times> appcore \<Rightarrow> netcore \<times> appcore" where
  "run_segments ne ae xs p \<equiv> fold (run_segment ne ae) xs p"

text \<open>The ten interleavings, by where the index falls.\<close>

lemma interleavings:
  "shuffles app_segments net_segments =
     {[Write_Chunk, Message, Note, Index, Rest],
      [Write_Chunk, Message, Index, Note, Rest], [Write_Chunk, Message, Index, Rest, Note],
      [Write_Chunk, Index, Message, Note, Rest], [Write_Chunk, Index, Message, Rest, Note],
      [Write_Chunk, Index, Rest, Message, Note],
      [Index, Write_Chunk, Message, Note, Rest], [Index, Write_Chunk, Message, Rest, Note],
      [Index, Write_Chunk, Rest, Message, Note], [Index, Rest, Write_Chunk, Message, Note]}"
  by (auto simp: app_segments_def net_segments_def)

fun before :: "'a \<Rightarrow> 'a \<Rightarrow> 'a list \<Rightarrow> bool" where
  "before x y [] = False"
| "before x y (z # zs) \<longleftrightarrow> z = x \<and> y \<in> set zs \<or> before x y zs"


section \<open>What the interleavings do\<close>

text \<open>The network core is about to handle the packet of chunk \<open>j\<close> with the data \<open>data\<close>.\<close>

definition race_ok :: "u32 \<Rightarrow> bytes \<Rightarrow> bytes \<Rightarrow> netcore \<times> appcore \<Rightarrow> bool" where
  "race_ok j data sha p \<longleftrightarrow>
     net_inv ((fst p)\<lparr>n_shared := a_shared (snd p)\<rparr>) \<and>
     (sh_status (a_shared (snd p)) = SWRMT_APPLICATION_READY \<or>
      sh_status (a_shared (snd p)) = SWRMT_APPLICATION_PROGRAMMING) \<and>
     j < ota_chunk_count (ota (a_shared (snd p))) \<and> length sha = 8 \<and> length data \<le> 128 \<and>
     (\<exists>r. n_req_buffer (fst p) = ota_chunk_bytes j (of_nat (length data)) sha data @ r)"

text \<open>Seen from the application core, the network core's segments change the shared RAM only.\<close>

fun seen :: "u32 \<Rightarrow> bytes \<Rightarrow> app_env \<Rightarrow> segment \<Rightarrow> appcore \<Rightarrow> appcore" where
  "seen j data ae Write_Chunk a = chunk_write ae a"
| "seen j data ae Message a = chunk_message a"
| "seen j data ae Note a = chunk_note a"
| "seen j data ae Index a = app_shared (\<lambda>sh. sh\<lparr>ota := (ota sh)\<lparr>ota_chunk_index := j\<rparr>\<rparr>) a"
| "seen j data ae Rest a = app_shared (chunk_stored j data) a"

lemma chunk_segment_shared [simp]:
  "a_shared (chunk_write e a) = a_shared a" "a_shared (chunk_message a) = a_shared a"
  "a_shared (chunk_note a) =
     (a_shared a)\<lparr>ota := (ota (a_shared a))\<lparr>ota_last_chunk_acked := ota_chunk_index (ota (a_shared a))\<rparr>\<rparr>"
  by (simp_all add: chunk_write_def write_chunk_def chunk_message_def chunk_note_def app_shared_def)

lemma segment_seen:
  assumes ok: "race_ok j data sha p" and x: "x \<noteq> Rest"
  shows "race_ok j data sha (run_segment ne ae x p) \<and>
    snd (run_segment ne ae x p) = seen j data ae x (snd p)"
proof (cases x)
  case Index
  obtain r where "oc_index (ota_chunk_of (n_req_buffer (fst p))) = j"
    using ok chunk_buffer(1) by (fastforce simp: race_ok_def)
  then show ?thesis
    using ok Index
    by (simp add: race_ok_def on_net_def chunk_index_def on_ota_def on_shared_def app_shared_def Let_def
        net_inv_def shared_ok_def)
qed (use ok x in \<open>auto simp: race_ok_def net_inv_def shared_ok_def\<close>)

lemma segments_seen:
  "race_ok j data sha p \<Longrightarrow> Rest \<notin> set xs \<Longrightarrow>
   race_ok j data sha (run_segments ne ae xs p) \<and>
   snd (run_segments ne ae xs p) = fold (seen j data ae) xs (snd p)"
proof (induction xs arbitrary: p)
  case (Cons x xs)
  then have "x \<noteq> Rest" by auto
  then have "race_ok j data sha (run_segment ne ae x p)" "snd (run_segment ne ae x p) = seen j data ae x (snd p)"
    using segment_seen Cons.prems(1) by blast+
  then show ?case using Cons.IH Cons.prems(2) by simp
qed simp

lemma rest_seen:
  assumes ok: "race_ok j data sha p" and j: "ota_chunk_index (ota (a_shared (snd p))) = j"
  shows "snd (run_segment ne ae Rest p) = seen j data ae Rest (snd p)"
proof -
  define m where "m = (fst p)\<lparr>n_shared := a_shared (snd p)\<rparr>"
  obtain r where m: "net_inv m" "length sha = 8"
      "n_status m = SWRMT_APPLICATION_READY \<or> n_status m = SWRMT_APPLICATION_PROGRAMMING"
      "j < ota_chunk_count (n_ota m)" "length data \<le> 128"
      "n_req_buffer m = ota_chunk_bytes j (of_nat (length data)) sha data @ r"
    using ok by (auto simp: race_ok_def m_def)
  have "chunk_index m = m"
    using chunk_buffer(1) [OF m(2,5,6)] j by (simp add: chunk_index_def on_ota_def on_shared_def m_def)
  then have "net_req_ota_chunk ne m = Continue (chunk_rest ne m)"
    using req_chunk_segments [of m] m(3) by auto
  then have "n_shared (chunk_rest ne m) = chunk_stored j data (n_shared m)"
    using net_chunk_result [OF m, of ne] by auto
  then show ?thesis by (simp add: on_net_def m_def [symmetric] app_shared_def Let_def) (simp add: m_def)
qed

lemma app_segments_seen:
  "set xs \<subseteq> set app_segments \<Longrightarrow> snd (run_segments ne ae xs p) = fold (seen j data ae) xs (snd p)"
  by (induction xs arbitrary: p) (auto simp: app_segments_def)

lemma index_seen:
  "Index \<in> set xs \<Longrightarrow> Rest \<notin> set xs \<Longrightarrow>
   ota_chunk_index (ota (a_shared (fold (seen j data ae) xs a))) = j"
proof (induction xs rule: rev_induct)
  case (snoc x xs)
  then show ?case by (cases x) simp_all
qed simp

lemma schedule_seen:
  assumes "race_ok j data sha p" and "sched \<in> shuffles app_segments net_segments"
  shows "snd (run_segments ne ae sched p) = fold (seen j data ae) sched (snd p)"
proof -
  define xs where "xs = takeWhile ((\<noteq>) Rest) sched"
  obtain ys where ys: "sched = xs @ Rest # ys" "set ys \<subseteq> set app_segments" "Index \<in> set xs" "Rest \<notin> set xs"
    using assms(2) unfolding interleavings xs_def by (auto simp: app_segments_def)
  note pre = segments_seen [OF assms(1) ys(4), of ne ae]
  have "snd (run_segment ne ae Rest (run_segments ne ae xs p)) = seen j data ae Rest (fold (seen j data ae) xs (snd p))"
    using rest_seen [of j data sha "run_segments ne ae xs p" ne ae] pre index_seen [OF ys(3,4)] by simp
  then show ?thesis
    using app_segments_seen [OF ys(2), of ne ae _ j data] by (simp add: ys(1))
qed


text \<open>What is acknowledged, what is noted, and what the next run of the stage writes.\<close>

definition acked_index :: "u32 \<Rightarrow> bytes" where
  "acked_index k = msg_code SWRMT_MSG_OTA_CHUNK_ACK # le32 k"

lemma chunk_segment_upd:
  "a_notification_buffer (chunk_write e a) = a_notification_buffer a"
  "a_notification_buffer (chunk_note a) = a_notification_buffer a"
  "a_notification_buffer (chunk_message a) = blit 0 (acked_index (ota_chunk_index (ota (a_shared a)))) (a_notification_buffer a)"
  "a_flash (chunk_write e a) = a_flash (write_chunk e a)"
  "a_flash (chunk_note a) = a_flash a" "a_flash (chunk_message a) = a_flash a"
  "a_base_addr (chunk_write e a) = a_base_addr a" "a_base_addr (chunk_note a) = a_base_addr a"
  "a_base_addr (chunk_message a) = a_base_addr a"
  "a_notification_buffer (app_shared g a) = a_notification_buffer a" "a_flash (app_shared g a) = a_flash a"
  "a_base_addr (app_shared g a) = a_base_addr a"
  by (simp_all add: chunk_write_def write_chunk_def chunk_message_def chunk_note_def app_shared_def acked_index_def)

lemma take_acked: "length b = 255 \<Longrightarrow> take 5 (blit 0 (acked_index k) b) = acked_index k"
  by (simp add: blit_0 acked_index_def)

lemma race_acknowledged:
  assumes "sched \<in> shuffles app_segments net_segments" and "length (a_notification_buffer a) = 255"
    and i: "i = ota_chunk_index (ota (a_shared a))"
    and a1: "a1 = fold (seen j data ae) sched a"
  shows "take 5 (a_notification_buffer a1) = acked_index (if before Message Index sched then i else j)"
    and "ota_last_chunk_acked (ota (a_shared a1)) = (if before Note Index sched then i else j)"
  using assms(1,2) unfolding interleavings a1 i
  by (auto simp: chunk_segment_upd take_acked chunk_stored_def)


text \<open>\<open>write_chunk\<close> by what it depends on.\<close>

definition chunk_flashed :: "app_env \<Rightarrow> u32 \<Rightarrow> ipc_shared \<Rightarrow> flash \<Rightarrow> flash" where
  "chunk_flashed ae base sh f =
     (if ota_last_chunk_acked (ota sh) \<noteq> ota_chunk_index (ota sh)
      then app_nvmc_write (ae_flash_hw ae) (chunk_addr base (ota_chunk_index (ota sh))) (ota_tail sh)
             (unat (ota_chunk_size (ota sh))) f
      else f)"

lemma write_chunk_flashed: "a_flash (write_chunk ae a) = chunk_flashed ae (a_base_addr a) (a_shared a) (a_flash a)"
  by (simp add: write_chunk_def chunk_flashed_def)

lemma race_flash:
  assumes "sched \<in> shuffles app_segments net_segments" and a1: "a1 = fold (seen j data ae) sched a"
    and i: "i = ota_chunk_index (ota (a_shared a))" "i \<noteq> j"
    and first: "\<not> before Index Write_Chunk sched"
  shows "a_flash a1 = a_flash (write_chunk ae a)" and "a_base_addr a1 = a_base_addr a"
    and "a_shared a1 = (if before Note Index sched
      then chunk_stored j data ((a_shared a)\<lparr>ota := (ota (a_shared a))\<lparr>ota_last_chunk_acked := i, ota_chunk_index := j\<rparr>\<rparr>)
      else a_shared a1)"
  using assms(1) first i(2) unfolding interleavings a1 i(1)
  by (auto simp: chunk_segment_upd)

lemma race_last:
  assumes "sched \<in> shuffles app_segments net_segments" and a1: "a1 = fold (seen j data ae) sched a"
  shows "ota_chunk_index (ota (a_shared a1)) = j"
  using assms(1) unfolding interleavings a1
  by (auto simp: chunk_stored_def)

text \<open>The next run of the stage, for the event of chunk \<open>j\<close>.\<close>

lemma next_flash:
  assumes a1: "ota_chunk_index (ota (a_shared a1)) = j"
    and "app_stage_ota_chunk ae ai (a1\<lparr>a_ota_chunk_request := True\<rparr>) = Continue a2"
  shows "a_flash a2 = chunk_flashed ae (a_base_addr a1) (a_shared a1) (a_flash a1)"
  using stage_chunk_flash [OF assms(2)] by (simp add: write_chunk_flashed)

end
