(* ===== verification/Race_Properties.thy ===== *)
theory Race_Properties
  imports Handshake Chunk_Race Update_Properties
begin

text \<open>
  The properties of what the two cores do to each other access by access, beyond the mutex: the
  request handshake and its lost request, and the chunk that is acknowledged and never written.
\<close>

section \<open>The request handshake\<close>

definition ex_handshake :: handshake where
  "ex_handshake =
     \<lparr>h_node = ex_net, h_call = Outside, h_stage = Testing, h_handler = No_Handler, h_served = [], h_returned = []\<rparr>"

lemma ex_handshake_start: "hs_start ex_handshake"
  by (simp add: hs_start_def ex_handshake_def ex_net_def net_reset_def shared_zero_def)

text \<open>The application core has posted a request for a random byte.\<close>

definition ex_polling :: handshake where
  "ex_polling = on_node (put_event True \<circ> post_req IPC_RNG_READ_REQ)
     (ex_handshake\<lparr>h_call := Polling IPC_RNG_READ_REQ\<rparr>)"

lemma ex_polling_reached: "hs_steps ex_handshake ex_polling" "h_call ex_polling = Polling IPC_RNG_READ_REQ"
  unfolding ex_polling_def by (intro call_posts) (simp_all add: ex_handshake_def)

text \<open>C15: However the accesses of the two cores and of the interrupt handler interleave, the network
  core serves the requests once each and in the order they are made: outside a call the requests
  served are those whose calls have returned, inside one at most its own has been served besides,
  and it has been by the time the call has seen the acknowledgement.\<close>

theorem calls_served_once:
  assumes "hs_start s" and "hs_steps s s'"
  shows "case h_call s' of
      Polling r \<Rightarrow> h_served s' = h_returned s' \<or> h_served s' = h_returned s' @ [r]
    | Clearing r \<Rightarrow> h_served s' = h_returned s' @ [r]
    | _ \<Rightarrow> h_served s' = h_returned s'"
  using hs_inv_steps [OF assms(2) hs_inv_start [OF assms(1)]]
  by (auto simp: hs_inv_def unserved_def served_def split: call_pc.split)

theorem calls_served_once_witness: "h_served ex_polling = [] \<or> h_served ex_polling = [IPC_RNG_READ_REQ]"
proof -
  have "h_returned ex_polling = []" by (simp add: ex_polling_def ex_handshake_def)
  then show ?thesis
    using calls_served_once [OF ex_handshake_start ex_polling_reached(1)] ex_polling_reached(2) by simp
qed

text \<open>C17: A call that waits for its acknowledgement can still return exactly when its request is not
  lost: lost is a request that the handler reads, or has read, while the loop is about to reset
  the variable it reads it into, or has reset it since.\<close>

theorem call_returns_iff:
  assumes "hs_start s" and "hs_steps s s'" and "h_call s' = Polling r"
  shows "(\<exists>s''. hs_steps s' s'' \<and> h_call s'' = Outside) \<longleftrightarrow> \<not> lost s'"
  using returns_iff [OF hs_inv_steps [OF assms(2) hs_inv_start [OF assms(1)]] assms(3)]
  by (simp add: returns_def)

theorem call_returns_iff_witness: "\<exists>s. hs_steps ex_polling s \<and> h_call s = Outside"
proof -
  have "\<not> lost ex_polling"
    by (simp add: lost_def at_rest_def ex_polling_def ex_handshake_def)
  then show ?thesis
    using call_returns_iff [OF ex_handshake_start ex_polling_reached] by blast
qed

text \<open>C16: Two calls in a row can lose the second: the network core acknowledges the first request before
  it clears its copy of it, so the application core can post the next one in between. The handler
  stores it and the loop overwrites it; it is never served, and the application core polls for its
  acknowledgement for ever, whatever happens afterwards.\<close>

theorem request_overwritten:
  assumes "hs_start s" and "r1 \<noteq> IPC_REQ_NONE" and "r2 \<noteq> IPC_REQ_NONE"
  shows "\<exists>s'. hs_steps s s' \<and> h_returned s' = [r1] \<and>
    (\<forall>s''. hs_steps s' s'' \<longrightarrow> h_call s'' = Polling r2 \<and> h_served s'' = [r1])"
proof -
  obtain s' where s': "hs_steps s s'" "h_call s' = Polling r2" "lost s'" "h_returned s' = [r1]"
    "h_served s' = [r1]"
    using second_call_lost [OF assms] by blast
  have "hs_inv s'" by (rule hs_inv_steps [OF s'(1) hs_inv_start [OF assms(1)]])
  then show ?thesis
    using lost_steps [OF _ s'(2) _ s'(3)] s'(1,4,5) by metis
qed

theorem request_overwritten_witness:
  "\<exists>s. hs_steps ex_handshake s \<and> h_returned s = [IPC_RNG_INIT_REQ] \<and>
     (\<forall>s'. hs_steps s s' \<longrightarrow> h_call s' = Polling IPC_RNG_READ_REQ)"
  using request_overwritten [OF ex_handshake_start, of IPC_RNG_INIT_REQ IPC_RNG_READ_REQ] by auto

section \<open>The index of the next chunk\<close>

text \<open>C14: When the network core stores the index of the next chunk's packet after the bootloader has
  written the chunk before it and before it has noted what it acknowledged, the next chunk is
  noted as acknowledged (and is, if the message is not yet written) although it has not been
  written; when its own event comes, the bootloader takes it for a repetition and leaves the flash
  alone. Outside that window it is written then.\<close>

theorem chunk_lost_in_window:
  assumes ok: "race_ok j data sha (n, a)" and buf: "length (a_notification_buffer a) = 255"
    and i: "i = ota_chunk_index (ota (a_shared a))" "i \<noteq> j"
    and sched: "sched \<in> shuffles app_segments net_segments" "\<not> before Index Write_Chunk sched"
    and a1: "a1 = snd (run_segments ne ae sched (n, a))"
    and a2: "app_stage_ota_chunk ae ai (a1\<lparr>a_ota_chunk_request := True\<rparr>) = Continue a2"
  shows "a_flash a1 = a_flash (write_chunk ae a) \<and>
    take 5 (a_notification_buffer a1) = acked_index (if before Message Index sched then i else j) \<and>
    ota_last_chunk_acked (ota (a_shared a1)) = (if before Note Index sched then i else j) \<and>
    (if before Note Index sched
     then \<exists>src. take (length data) src = data \<and>
       a_flash a2 = app_nvmc_write (ae_flash_hw ae) (chunk_addr (a_base_addr a) j) src (length data) (a_flash a1)
     else a_flash a2 = a_flash a1)"
proof -
  have a1': "a1 = fold (seen j data ae) sched a" using schedule_seen [OF ok sched(1)] a1 by simp
  note flash = race_flash [OF sched(1) a1' i sched(2)] and acked = race_acknowledged [OF sched(1) buf i(1) a1']
  have a2_flash: "a_flash a2 = chunk_flashed ae (a_base_addr a) (a_shared a1) (a_flash a1)"
    using next_flash [OF race_last [OF sched(1) a1'] a2] flash(2) by simp
  show ?thesis
  proof (cases "before Note Index sched")
    case True
    have len: "length data \<le> 128" "length (ota_chunk (ota (a_shared a))) = 128"
      using ok by (simp_all add: race_ok_def net_inv_def shared_ok_def)
    then have "unat (of_nat (length data) :: u32) = length data" by (intro of_nat_u32) simp
    moreover have "take (length data) (ota_tail (a_shared a1)) = data"
      using flash(3) True i(2) len by (simp add: chunk_stored_def ota_tail_def blit_0)
    ultimately have "\<exists>src. take (length data) src = data \<and>
        a_flash a2 = app_nvmc_write (ae_flash_hw ae) (chunk_addr (a_base_addr a) j) src (length data) (a_flash a1)"
      using a2_flash flash(3) True i(2)
      by (intro exI [of _ "ota_tail (a_shared a1)"]) (simp add: chunk_flashed_def chunk_stored_def)
    then show ?thesis using True flash(1) acked by simp
  next
    case False
    then have "a_flash a2 = a_flash a1"
      using a2_flash acked(2) race_last [OF sched(1) a1'] by (simp add: chunk_flashed_def)
    then show ?thesis using False flash(1) acked by simp
  qed
qed

definition ex_race_app :: appcore where
  "ex_race_app = ex_app\<lparr>a_shared := n_shared ex_net_bad\<rparr>"

lemma ex_race: "race_ok 1 [9, 9, 9, 9] (replicate 8 0) (ex_net_bad, ex_race_app)"
  "length (a_notification_buffer ex_race_app) = 255" "0 = ota_chunk_index (ota (a_shared ex_race_app))"
  "ota_last_chunk_acked (ota (a_shared ex_race_app)) = 0"
proof -
  have "n_req_buffer ex_net_bad = ota_chunk_bytes 1 (of_nat (length [9, 9, 9, 9 :: u8])) (replicate 8 0)
      [9, 9, 9, 9] @ replicate (255 - length ex_bad_chunk) 0"
    by (simp add: ex_net_bad_def set_status_def on_shared_def on_ota_def ex_bad_chunk_def)
  then show "race_ok 1 [9, 9, 9, 9] (replicate 8 0) (ex_net_bad, ex_race_app)"
    unfolding race_ok_def using ex_net_bad_facts
    by (auto simp: ex_race_app_def)
qed (simp_all add: ex_race_app_def ex_app_def boot_bootloader_def app_reset_def ex_net_bad_def set_status_def
      on_shared_def on_ota_def ex_net_def net_reset_def shared_zero_def app_shared_def)

lemma ex_stage_chunk_returns: "\<exists>a2. app_stage_ota_chunk ex_app_env i a = Continue a2"
proof -
  have "\<exists>b. app_notify ex_app_env i m s = Continue b" for m s
    using ex_call_returns by (simp add: app_notify_def mari_node_tx_def Let_def)
  then obtain f where "app_notify ex_app_env i m s = Continue (f m s)" for m s by metis
  then show ?thesis by (simp add: app_stage_ota_chunk_def Let_def)
qed

theorem chunk_lost_in_window_witness:
  "\<exists>a1 a2. take 5 (a_notification_buffer a1) = [0x87, 1, 0, 0, 0] \<and>
     app_stage_ota_chunk ex_app_env ex_app_input (a1\<lparr>a_ota_chunk_request := True\<rparr>) = Continue a2 \<and>
     a_flash a2 = a_flash ex_race_app"
proof -
  define sched where "sched = [Write_Chunk, Index, Message, Note, Rest]"
  have sched: "sched \<in> shuffles app_segments net_segments" "\<not> before Index Write_Chunk sched"
    "\<not> before Message Index sched" "\<not> before Note Index sched"
    unfolding interleavings by (simp_all add: sched_def)
  define a1 where "a1 = snd (run_segments ex_net_env ex_app_env sched (ex_net_bad, ex_race_app))"
  obtain a2 where a2: "app_stage_ota_chunk ex_app_env ex_app_input (a1\<lparr>a_ota_chunk_request := True\<rparr>) = Continue a2"
    using ex_stage_chunk_returns by blast
  have "a_flash (write_chunk ex_app_env ex_race_app) = a_flash ex_race_app"
    using ex_race(3,4) by (simp add: write_chunk_def)
  then show ?thesis
    using chunk_lost_in_window [OF ex_race(1-3) _ sched(1,2) a1_def a2] sched(3,4) a2
    by (auto simp: acked_index_def le32_def)
qed

end
