(* ===== verification/Lifecycle.thy ===== *)
theory Lifecycle
  imports System_Facts App_Properties Ota
begin

text \<open>
  What leads from the end of an update to the new image's \<open>main\<close>: the bootloader's \<open>main\<close> up to its
  jump (\<open>bootloader/Source/main.c\<close>), and the reset handler of the image (\<open>sample/System/startup.c\<close>)
  on the flash the update has written.
\<close>

section \<open>The bootloader's main\<close>

text \<open>What start-up leaves of the state the boot decision reads.\<close>

definition same_boot :: "appcore \<Rightarrow> appcore \<Rightarrow> bool" where
  "same_boot s s' \<longleftrightarrow>
     a_flash s' = a_flash s \<and> a_boot_intent s' = a_boot_intent s \<and> a_resetreas s' = a_resetreas s"

lemma same_boot_trans: "same_boot s s1 \<Longrightarrow> same_boot s1 s2 \<Longrightarrow> same_boot s s2"
  by (simp add: same_boot_def)

lemma boot_prepare_returns: "\<exists>s'. boot_prepare e s = Continue s' \<and> same_boot s s'"
proof -
  obtain z where "main_configure_tz (ae_mdk e) (a_tz (setup_watchdog1 s)) = Some z"
    using main_configure_tz_result by blast
  then show ?thesis
    by (simp add: boot_prepare_def with_tz_def same_boot_def app_shared_def setup_watchdog1_def)
qed

lemma wait_shared_returns:
  "\<exists>k. until (w k) \<Longrightarrow> \<exists>s'. wait_shared w until s = Continue s' \<and> same_boot s s' \<and> until (a_shared s')"
  using spin_until_returns [of "\<lambda>k. until (w k)" _ 0] by (fastforce simp: wait_shared_def same_boot_def)

text \<open>The network core comes up and answers.\<close>

definition net_starts :: "app_env \<Rightarrow> nat \<Rightarrow> bool" where
  "net_starts e t \<longleftrightarrow>
     (\<forall>sh. (\<exists>k. net_ready (ae_net e t sh k)) \<and> (\<exists>k. net_ack (ae_net e t sh k)))"

lemma boot_network_returns:
  assumes "net_starts e (ai_time i)"
  shows "\<exists>s'. boot_network e i s = Continue s' \<and> same_boot s s'"
proof -
  let ?w = "ae_net e (ai_time i)"
  have ready: "\<exists>k. net_ready (?w sh k)" and ack: "\<exists>k. net_ack (?w sh k)" for sh
    using assms by (simp_all add: net_starts_def)
  obtain s1 where s1: "release_network_core e (ai_time i) s = Continue s1" "same_boot s s1"
  proof (cases "\<not> a_net_forceoff s \<and> net_ready (a_shared s)")
    case False
    define s0 where "s0 = (if \<not> a_net_forceoff s
        then app_shared (\<lambda>sh. sh\<lparr>net_ready := False\<rparr>) s else s)\<lparr>a_net_forceoff := False\<rparr>"
    have "release_network_core e (ai_time i) s = wait_shared (?w (a_shared s0)) net_ready s0"
      unfolding release_network_core_def Let_def s0_def using False by auto
    moreover have "same_boot s s0" by (simp add: s0_def same_boot_def app_shared_def)
    ultimately show ?thesis
      using that wait_shared_returns [OF ready, of "a_shared s0" s0] same_boot_trans by metis
  qed (simp add: that release_network_core_def same_boot_def)
  obtain s2 where s2: "(if net_ready (a_shared s1) then Continue s1
      else wait_shared (?w (a_shared s1)) net_ready s1) = Continue s2" "same_boot s1 s2"
    using wait_shared_returns [OF ready, of "a_shared s1" s1] by (cases "net_ready (a_shared s1)") (auto simp: same_boot_def)
  obtain s3 where "app_mari_init e (ai_time i) s2 = Continue s3"
    using ipc_call_returns [OF ack] by (metis app_mari_init_def)
  then have "app_mari_init e (ai_time i) s2 = Continue s3 \<and> same_boot s2 s3"
    using ipc_call_frame(2,5,6) by (fastforce simp: app_mari_init_def same_boot_def)
  then show ?thesis
    using s1 s2 unfolding boot_network_def
    by (auto simp: same_boot_def app_shared_def)
qed

lemma main_boots_image:
  assumes "net_starts e (ai_time i)" and boot: "boots_user_image e s"
  shows "\<exists>s'. app_main_init e i s = Stuck s' \<and> a_boot_intent s' = 0 \<and>
    last (a_out s') = AE_JumpNonSecure 0x10000 (cells (a_flash s) 0x10000)
                        (cells (a_flash s) 0x10004 AND NOT 1)"
proof -
  obtain s1 where s1: "boot_prepare e s = Continue s1" "same_boot s s1"
    using boot_prepare_returns by blast
  obtain s2 where s2: "boot_network e i s1 = Continue s2" "same_boot s1 s2"
    using boot_network_returns [OF assms(1)] by blast
  have "same_boot s s2" by (rule same_boot_trans [OF s1(2) s2(2)])
  then have s: "boots_user_image e s2" "a_flash s2 = a_flash s"
    using boot by (simp_all add: boots_user_image_def same_boot_def)
  then show ?thesis
    using s1 s2 boot_user_image_result
      [of e "s2\<lparr>a_resetreas := a_resetreas s2 AND NOT (a_resetreas s2), a_boot_intent := 0\<rparr>"]
    by (auto simp: app_main_init_def boot_select_def Let_def)
qed

section \<open>The bootloader's reset handler\<close>

lemma reset_keeps_intent:
  assumes "reset_ok m b e l c" and "intent < 0x40000000"
    and "list_all (\<lambda>s. \<not> in_section s intent) (l_shared_data l # written_sections l)"
  shows "\<exists>c'. app_Reset_Handler m b e dotbot_v2 run_code l c = Continue c' \<and>
    c_out c' = c_out c @ [CE_Main] \<and> c_mem c' intent = c_mem c intent \<and>
    c_reg c' RESETREAS = reason_after m e (c_reg c RESETREAS)"
proof -
  obtain c' where c': "app_Reset_Handler m b e dotbot_v2 run_code l c = Continue c'"
    "\<And>a. a < 0x40000000 \<Longrightarrow> c_mem c' a = section_clear (l_shared_data l) (init_image b l (c_mem c)) a"
    "c_out c' = c_out c @ [CE_Main]" "c_reg c' RESETREAS = reason_after m e (c_reg c RESETREAS)"
    using app_reset_result [OF assms(1), of dotbot_v2 run_code] by metis
  have "c_mem c' intent = c_mem c intent"
    using c'(2) [OF assms(2)] assms(3) init_image_frame [of intent l b "c_mem c"]
    by (simp add: section_clear_frame)
  then show ?thesis using c' by blast
qed

lemma reason_after_sreq: "r AND resetpin_msk m = 0 \<Longrightarrow> reason_after m e r = r"
  by (simp add: reason_after_def)

section \<open>The image's reset handler\<close>

lemma sample_reset_result:
  assumes "link_ok l" and "in_place (l_tdata l)" and "sec_end (l_ctors l) \<le> l_func_addr l"
  shows "\<exists>c'. sample_Reset_Handler b run_code l c = Continue c' \<and> c_out c' = c_out c @ [CE_Main] \<and>
    c_msp c' = l_stack_end l \<and> c_mem c' = init_image b l (c_mem c)"
  using assms
  by (simp add: sample_Reset_Handler_def run_stages_append init_sections_result call_constructors_result
        enter_main_def enable_fpu_def set_stacks_def full_fpu_access_def only_if_def)

lemma init_image_data:
  assumes "run_ok (l_data l)" and k: "k < words_of (l_data l)"
    and "list_all (\<lambda>s. \<not> in_section s (sec_start (l_data l) + 4 * of_nat k)) (tl (written_sections l))"
  shows "init_image b l mm (sec_start (l_data l) + 4 * of_nat k) = mm (sec_load (l_data l) + 4 * of_nat k)"
proof -
  have "4 * words_of (l_data l) \<le> 2 ^ 32"
    using assms(1) by (simp add: run_ok_def block_fits_def)
  then have "in_block (sec_start (l_data l)) (words_of (l_data l)) (sec_start (l_data l) + 4 * of_nat k)"
    using k by (rule in_block_word)
  then have "section_image (l_data l) mm (sec_start (l_data l) + 4 * of_nat k) = mm (sec_load (l_data l) + 4 * of_nat k)"
    by (simp add: section_image_def block_copy_def)
  then show ?thesis
    using assms(3)
    by (simp add: written_sections_def init_image_def loaded_image_def section_image_frame
          section_clear_frame only_if_frame)
qed

end
