(* ===== verification/Lifecycle_Properties.thy ===== *)
theory Lifecycle_Properties
  imports Lifecycle Update_Properties System_Properties
begin

text \<open>
  The life of a new image, across every part of the device: the controller's packets, the two cores,
  the flash, the reset, the bootloader's start-up and the image's own.
\<close>

text \<open>C3: An update through both cores ends with the image in flash; a start request then makes the
  bootloader reset. When the reset keeps the RAM word of the boot intent and the flash, and its
  reason is the software reset alone, the start-up code reaches the bootloader's \<open>main\<close>, which (once the
  network core answers) jumps to the reset handler of the new image on the image's own stack. An
  image whose link map makes sense then reaches its \<open>main\<close> with its data section holding the words of
  the file that was sent.\<close>

theorem updated_image_runs:
  assumes update: "soc_env_ok ne ae ni" "length fw \<le> 2 ^ 31" "8 \<le> length fw" "update_ready (n, a)"
      "set ks = {..<chunk_count fw}"
    and reset: "reset_ok m b e l c" "intent < 0x40000000"
      "list_all (\<lambda>s. \<not> in_section s intent) (l_shared_data l # written_sections l)"
      "c_mem c intent = SWRMT_BOOT_INTENT_USER_IMAGE" "c_reg c RESETREAS = ae_sreq ae"
      "ae_sreq ae \<noteq> 0" "ae_sreq ae AND resetpin_msk m = 0"
    and boot: "net_starts ae (ai_time i)"
    and image: "link_ok lu" "in_place (l_tdata lu)" "sec_end (l_ctors lu) \<le> l_func_addr lu"
      "sec_load (l_data lu) = SWARMIT_BASE_ADDRESS + of_nat off" "4 dvd off"
      "off + 4 * words_of (l_data lu) \<le> length fw"
      "\<forall>k < words_of (l_data lu).
         list_all (\<lambda>s. \<not> in_section s (sec_start (l_data lu) + 4 * of_nat k)) (tl (written_sections lu))"
  shows "\<exists>n' a' a2 c'. soc_session ne ae ni ai
      (host_start_packet fw # map (host_chunk_packet ne fw) ks) (n, a) = Continue (n', a') \<and>
    sends (n'\<lparr>n_shared := a_shared a'\<rparr>) (net_req_start (n'\<lparr>n_shared := a_shared a'\<rparr>))
      [NE_IpcSend IPC_CHAN_APPLICATION_START] \<and>
    app_stage_start (a'\<lparr>a_start_application := True\<rparr>) = Stuck a2 \<and> a_boot_intent a2 = c_mem c intent \<and>
    app_Reset_Handler m b e dotbot_v2 run_code l c = Continue c' \<and> c_out c' = c_out c @ [CE_Main] \<and>
    (\<forall>s. a_flash s = a_flash a2 \<and> a_boot_intent s = c_mem c' intent \<and> a_resetreas s = c_reg c' RESETREAS \<longrightarrow>
       (\<exists>s'. app_main_init ae i s = Stuck s' \<and> a_boot_intent s' = 0 \<and>
          last (a_out s') = AE_JumpNonSecure 0x10000 (get32 0 fw) (get32 4 fw AND NOT 1))) \<and>
    (\<forall>cu. (\<forall>x. unat (x - SWARMIT_BASE_ADDRESS) < length fw \<longrightarrow> c_mem cu x = cells (a_flash a2) x) \<longrightarrow>
       (\<exists>cu'. sample_Reset_Handler bu run_code lu cu = Continue cu' \<and> c_out cu' = c_out cu @ [CE_Main] \<and>
          (\<forall>k < words_of (l_data lu).
             c_mem cu' (sec_start (l_data lu) + 4 * of_nat k) = get32 (off + 4 * k) fw)))"
proof -
  have "fw \<noteq> []" using update(3) by auto
  then obtain n' a' a2 where up: "soc_session ne ae ni ai
        (host_start_packet fw # map (host_chunk_packet ne fw) ks) (n, a) = Continue (n', a')"
      "sends (n'\<lparr>n_shared := a_shared a'\<rparr>) (net_req_start (n'\<lparr>n_shared := a_shared a'\<rparr>))
        [NE_IpcSend IPC_CHAN_APPLICATION_START]"
      "app_stage_start (a'\<lparr>a_start_application := True\<rparr>) = Stuck a2"
      "a_boot_intent a2 = SWRMT_BOOT_INTENT_USER_IMAGE"
      "cells (a_flash a2) = flashed_image fw (cells (a_flash a))"
    using update_then_start [OF update(1,2) _ update(4,5)] by blast
  obtain c' where c': "app_Reset_Handler m b e dotbot_v2 run_code l c = Continue c'"
      "c_out c' = c_out c @ [CE_Main]" "c_mem c' intent = c_mem c intent"
      "c_reg c' RESETREAS = ae_sreq ae"
    using reset_keeps_intent [OF reset(1-3)] reset(5,7) by (metis reason_after_sreq)
  have word: "cells (a_flash a2) (SWARMIT_BASE_ADDRESS + of_nat j) = get32 j fw"
    if "4 dvd j" "j + 4 \<le> length fw" for j
    using flashed_word [OF update(2) that] up(5) by simp
  have vectors: "cells (a_flash a2) 0x10000 = get32 0 fw" "cells (a_flash a2) 0x10004 = get32 4 fw"
    using word [of 0] word [of 4] update(3) by (simp_all add: SWARMIT_BASE_ADDRESS_def)
  have jump: "\<exists>s'. app_main_init ae i s = Stuck s' \<and> a_boot_intent s' = 0 \<and>
      last (a_out s') = AE_JumpNonSecure 0x10000 (get32 0 fw) (get32 4 fw AND NOT 1)"
    if "a_flash s = a_flash a2" "a_boot_intent s = c_mem c' intent" "a_resetreas s = c_reg c' RESETREAS" for s
    using main_boots_image [OF boot, of s] that vectors c'(3,4) reset(4,6) by (simp add: boots_user_image_def)
  have runs: "\<exists>cu'. sample_Reset_Handler bu run_code lu cu = Continue cu' \<and> c_out cu' = c_out cu @ [CE_Main] \<and>
      (\<forall>k < words_of (l_data lu). c_mem cu' (sec_start (l_data lu) + 4 * of_nat k) = get32 (off + 4 * k) fw)"
    if mem: "\<And>x. unat (x - SWARMIT_BASE_ADDRESS) < length fw \<Longrightarrow> c_mem cu x = cells (a_flash a2) x" for cu
  proof -
    have "init_image bu lu (c_mem cu) (sec_start (l_data lu) + 4 * of_nat k) = get32 (off + 4 * k) fw"
      if k: "k < words_of (l_data lu)" for k
    proof -
      have off: "4 dvd off + 4 * k" "off + 4 * k + 4 \<le> length fw" using image(5,6) k by simp_all
      have "unat (of_nat (off + 4 * k) :: u32) = off + 4 * k"
        using off(2) update(2) by (intro of_nat_u32) simp
      then have "c_mem cu (SWARMIT_BASE_ADDRESS + of_nat (off + 4 * k)) = get32 (off + 4 * k) fw"
        using mem [of "SWARMIT_BASE_ADDRESS + of_nat (off + 4 * k)"] word [OF off] off(2) by simp
      moreover have "run_ok (l_data lu)" using image(1) by (simp add: link_ok_def load_ok_def)
      ultimately show ?thesis
        using init_image_data [OF _ k] image(4,7) k by (simp add: add.assoc)
    qed
    then show ?thesis using sample_reset_result [OF image(1-3), of bu run_code cu] by auto
  qed
  show ?thesis using up(1-4) c'(1,2) reset(4) jump runs by auto
qed

text \<open>A device whose RAM still holds the boot intent, and an image with two words of data at its start.\<close>

definition ex_intent_core :: core where
  "ex_intent_core = ex_core\<lparr>c_mem := (c_mem ex_core)(0x20000300 := SWRMT_BOOT_INTENT_USER_IMAGE)\<rparr>"

definition ex_image_link :: link_map where
  "ex_image_link = ex_link\<lparr>l_data := sec 0x10000 0x20000100 2\<rparr>"

lemma ex_image_link_ok: "link_ok ex_image_link" "words_of (l_data ex_image_link) = 2"
  "in_place (l_tdata ex_image_link)" "sec_end (l_ctors ex_image_link) \<le> l_func_addr ex_image_link"
proof -
  have "load_ok (sec 0x10000 0x20000100 2)"
    by (simp add: load_ok_def run_ok_sec) (simp add: no_clobber_def sec_def)
  then show "link_ok ex_image_link" using ex_link_ok by (simp add: link_ok_def ex_image_link_def)
qed (simp_all add: ex_image_link_def ex_link_def run_ok_sec in_place_def, simp add: sec_def)

lemma ex_image_data_apart:
  "\<forall>k < words_of (l_data ex_image_link). list_all (\<lambda>s. \<not> in_section s (sec_start (l_data ex_image_link) + 4 * of_nat k))
     (tl (written_sections ex_image_link))"
  unfolding ex_image_link_ok(2)
  by (auto simp: less_2_cases_iff written_sections_def in_section_def in_block_def ex_image_link_def ex_link_def
        run_ok_sec sec_def words_of_def)

theorem updated_image_runs_witness:
  "\<exists>a2 :: appcore. a_boot_intent a2 = SWRMT_BOOT_INTENT_USER_IMAGE \<and>
     (\<forall>cu. (\<forall>x. unat (x - SWARMIT_BASE_ADDRESS) < length ex_firmware \<longrightarrow> c_mem cu x = cells (a_flash a2) x) \<longrightarrow>
       (\<exists>cu'. sample_Reset_Handler ex_build (\<lambda>_ c. Undefined) ex_image_link cu = Continue cu' \<and>
          c_mem cu' 0x20000104 = 0x08070605))"
proof -
  have ok: "reset_ok (ex_sys_mdk 0x01FF0000) ex_build ex_sys_env ex_link ex_intent_core"
    by (rule ex_reset_ok_mem) (simp_all add: ex_intent_core_def ex_core_def)
  have out: "list_all (\<lambda>s. \<not> in_section s 0x20000300) (l_shared_data ex_link # written_sections ex_link)"
    by (simp add: written_sections_def in_section_def in_block_def ex_link_def run_ok_sec) (simp add: sec_def)
  have intent: "c_mem ex_intent_core 0x20000300 = SWRMT_BOOT_INTENT_USER_IMAGE"
    "c_reg ex_intent_core RESETREAS = ae_sreq ex_app_env" "ae_sreq ex_app_env \<noteq> 0"
    "ae_sreq ex_app_env AND resetpin_msk (ex_sys_mdk 0x01FF0000) = 0"
    by (simp_all add: ex_intent_core_def ex_core_def ex_app_env_def ex_sys_mdk_def)
  have starts: "net_starts ex_app_env (ai_time ex_app_input)" by (simp add: net_starts_def ex_app_env_def)
  have fw: "length ex_firmware \<le> 2 ^ 31" "8 \<le> length ex_firmware"
    "0 + 4 * words_of (l_data ex_image_link) \<le> length ex_firmware"
    by (simp_all add: ex_firmware_def ex_image_link_ok(2))
  have data: "sec_load (l_data ex_image_link) = SWARMIT_BASE_ADDRESS + of_nat 0"
    "sec_start (l_data ex_image_link) = 0x20000100" "get32 4 ex_firmware = 0x08070605"
    by (simp_all add: ex_image_link_def sec_def SWARMIT_BASE_ADDRESS_def ex_firmware_def get32_def)
  have low: "(0x20000300 :: u32) < 0x40000000" "4 dvd (0 :: nat)" by simp_all
  obtain a2 :: appcore where a2: "a_boot_intent a2 = SWRMT_BOOT_INTENT_USER_IMAGE"
    and run: "\<forall>cu. (\<forall>x. unat (x - SWARMIT_BASE_ADDRESS) < length ex_firmware \<longrightarrow> c_mem cu x = cells (a_flash a2) x) \<longrightarrow>
      (\<exists>cu'. sample_Reset_Handler ex_build (\<lambda>_ c. Undefined) ex_image_link cu = Continue cu' \<and>
        c_out cu' = c_out cu @ [CE_Main] \<and>
        (\<forall>k < 2. c_mem cu' (0x20000100 + 4 * of_nat k) = get32 (0 + 4 * k) ex_firmware))"
    using updated_image_runs [OF ex_soc_env_ok fw(1,2) ex_update_ready ex_chunks ok low(1) out intent starts
        ex_image_link_ok(1,3,4) data(1) low(2) fw(3) ex_image_data_apart, of ex_app_input False "\<lambda>_ c. Undefined" ex_build]
    unfolding data(2) ex_image_link_ok(2) intent(1) by blast
  have "c_mem cu' 0x20000104 = 0x08070605"
    if "\<forall>k < 2. c_mem cu' (0x20000100 + 4 * of_nat k) = get32 (0 + 4 * k) ex_firmware" for cu'
    using spec [OF that, of 1] data(3) by simp
  then show ?thesis using a2 run by blast
qed

end
