(* ===== verification/Controller.thy ===== *)
theory Controller
  imports Updater "HOL-Library.AList"
begin

text \<open>
  The firmware update as the testbed controller drives it (\<open>swarmit/testbed/controller.py\<close>):
  \<open>_send_start_ota\<close>, \<open>start_ota\<close>, \<open>send_chunk\<close>, \<open>transfer\<close> and the acknowledgements in
  \<open>on_frame_received\<close>.

  A sending loop sends, sleeps a millisecond, looks whether the time is up to send again, and tests
  its condition; frames arrive while it sleeps. What the gateway and the radio do is the record
  \<open>radio\<close>: sending a payload, sleeping (which gives the frames that arrived) and the clock, on a
  world \<open>'w\<close>. The loops have no bound of their own but the number of retries, so they are
  \<open>partial_function\<close>s; \<open>clock_runs\<close> is what makes them end. The locale \<open>radio_client\<close> is the contract
  between the controller and a radio: what every send and every sleep preserves holds after an
  update.
\<close>

section \<open>State\<close>

type_synonym addr = nat

definition BROADCAST_ADDRESS :: addr where
  "BROADCAST_ADDRESS = 0xFFFFFFFFFFFFFFFF"

record chunk_status =
  cs_acked :: bool
  cs_retries :: nat

text \<open>\<open>start_ota_data\<close> and \<open>transfer_data\<close>, and the payloads sent so far.\<close>

record ctrl =
  ct_addrs :: "addr list"
  ct_retries :: nat
  ct_transfer :: "(addr \<times> chunk_status list) list"
  ct_sent :: "(addr \<times> bytes) list"

record settings =
  st_devices :: "addr list"
  st_max_retries :: nat
  st_timeout :: nat

datatype frame = Start_Ack addr | Chunk_Ack addr nat | Other_Frame

record 'w radio =
  rd_send :: "addr \<Rightarrow> bytes \<Rightarrow> 'w \<Rightarrow> 'w"
  rd_sleep :: "nat \<Rightarrow> 'w \<Rightarrow> frame list \<times> 'w"
  rd_now :: "'w \<Rightarrow> nat"

section \<open>Frames\<close>

definition chunk_acked :: "(addr \<times> chunk_status list) list \<Rightarrow> addr \<Rightarrow> nat \<Rightarrow> bool" where
  "chunk_acked t a k \<longleftrightarrow>
     (case map_of t a of None \<Rightarrow> False | Some cs \<Rightarrow> k < length cs \<and> cs_acked (cs ! k))"

definition update_chunk ::
    "(chunk_status \<Rightarrow> chunk_status) \<Rightarrow> addr \<Rightarrow> nat \<Rightarrow> (addr \<times> chunk_status list) list \<Rightarrow> (addr \<times> chunk_status list) list" where
  "update_chunk f a k t = AList.map_entry a (\<lambda>cs. if k < length cs then cs[k := f (cs ! k)] else cs) t"

text \<open>An acknowledgement of a chunk the controller does not know is dropped.\<close>

fun on_frame_received :: "frame \<Rightarrow> ctrl \<Rightarrow> ctrl" where
  "on_frame_received (Start_Ack a) c =
     (if a \<in> set (ct_addrs c) then c else c\<lparr>ct_addrs := ct_addrs c @ [a]\<rparr>)"
| "on_frame_received (Chunk_Ack a k) c =
     c\<lparr>ct_transfer := update_chunk (\<lambda>s. s\<lparr>cs_acked := True\<rparr>) a k (ct_transfer c)\<rparr>"
| "on_frame_received Other_Frame c = c"

section \<open>Announcing an update\<close>

definition send_payload :: "'w radio \<Rightarrow> addr \<Rightarrow> bytes \<Rightarrow> ctrl \<times> 'w \<Rightarrow> ctrl \<times> 'w" where
  "send_payload r dest p s = ((fst s)\<lparr>ct_sent := ct_sent (fst s) @ [(dest, p)]\<rparr>, rd_send r dest p (snd s))"

definition sleep :: "'w radio \<Rightarrow> nat \<Rightarrow> ctrl \<times> 'w \<Rightarrow> ctrl \<times> 'w" where
  "sleep r ms s = (let (fs, w) = rd_sleep r ms (snd s) in (fold on_frame_received fs (fst s), w))"

definition is_start_ota_acknowledged :: "addr \<Rightarrow> addr list \<Rightarrow> ctrl \<Rightarrow> bool" where
  "is_start_ota_acknowledged dest devs c \<longleftrightarrow>
     (if dest = BROADCAST_ADDRESS then sort (ct_addrs c) = sort devs else dest \<in> set (ct_addrs c))"

text \<open>The body of each loop: send when it is time, and sleep. \<open>sent_at\<close> is \<open>send_time\<close> afterwards.\<close>

definition sent_at :: "'w radio \<Rightarrow> addr \<Rightarrow> bytes \<Rightarrow> bool \<Rightarrow> nat \<Rightarrow> ctrl \<times> 'w \<Rightarrow> nat" where
  "sent_at r dest p send send_time s = (if send then rd_now r (snd (send_payload r dest p s)) else send_time)"

definition start_turn :: "'w radio \<Rightarrow> addr \<Rightarrow> bytes \<Rightarrow> bool \<Rightarrow> ctrl \<times> 'w \<Rightarrow> ctrl \<times> 'w" where
  "start_turn r dest p send s =
     sleep r 1 (if send then let s1 = send_payload r dest p s
                  in ((fst s1)\<lparr>ct_retries := ct_retries (fst s1) + 1\<rparr>, snd s1)
                else s)"

partial_function (option) send_start_ota ::
    "'w radio \<Rightarrow> settings \<Rightarrow> addr \<Rightarrow> addr list \<Rightarrow> bytes \<Rightarrow> bool \<Rightarrow> nat \<Rightarrow> ctrl \<times> 'w \<Rightarrow> (ctrl \<times> 'w) option" where
  "send_start_ota r st dest devs p send send_time s =
     (if is_start_ota_acknowledged dest devs (fst s) \<or> st_max_retries st < ct_retries (fst s) then Some s
      else let s1 = start_turn r dest p send s; t = sent_at r dest p send send_time s
           in send_start_ota r st dest devs p (st_timeout st < rd_now r (snd s1) - t) t s1)"

fun for_each :: "('a \<Rightarrow> 's \<Rightarrow> 's option) \<Rightarrow> 'a list \<Rightarrow> 's \<Rightarrow> 's option" where
  "for_each f [] s = Some s"
| "for_each f (x # xs) s = Option.bind (f x s) (for_each f xs)"

text \<open>\<open>ready\<close> are the ready devices when the update starts.\<close>

definition start_ota ::
    "'w radio \<Rightarrow> settings \<Rightarrow> bytes \<Rightarrow> addr list option \<Rightarrow> addr list \<Rightarrow> ctrl \<times> 'w \<Rightarrow> (ctrl \<times> 'w) option" where
  "start_ota r st fw devices ready s =
     (let devs = (case devices of None \<Rightarrow> st_devices st | Some ds \<Rightarrow> ds);
          s0 = ((fst s)\<lparr>ct_addrs := [], ct_retries := 0\<rparr>, snd s);
          p = host_start_packet fw
      in if devs = [] then send_start_ota r st BROADCAST_ADDRESS ready p True 0 s0
         else for_each (\<lambda>a s. map_option (sleep r 200) (send_start_ota r st a devs p True 0 s)) devs s0)"

text \<open>The devices reported as missed.\<close>

definition start_missed :: "settings \<Rightarrow> addr list option \<Rightarrow> ctrl \<Rightarrow> addr list" where
  "start_missed st devices c =
     sorted_list_of_set (set (case devices of None \<Rightarrow> st_devices st | Some ds \<Rightarrow> ds) - set (ct_addrs c))"

section \<open>The transfer\<close>

definition is_chunk_acknowledged :: "addr \<Rightarrow> addr list \<Rightarrow> nat \<Rightarrow> ctrl \<Rightarrow> bool" where
  "is_chunk_acknowledged dest devs k c \<longleftrightarrow>
     (if dest = BROADCAST_ADDRESS
      then sort (map fst (ct_transfer c)) = sort devs \<and>
           list_all (\<lambda>(a, cs). cs_acked (cs ! k)) (ct_transfer c)
      else dest \<in> set (map fst (ct_transfer c)) \<and> chunk_acked (ct_transfer c) dest k)"

text \<open>The number of retries is noted with the chunk, of every device when it is broadcast.\<close>

definition note_retries :: "addr \<Rightarrow> addr list \<Rightarrow> nat \<Rightarrow> nat \<Rightarrow> ctrl \<Rightarrow> ctrl" where
  "note_retries dest devs k n c =
     c\<lparr>ct_transfer := fold (\<lambda>a. update_chunk (\<lambda>s. s\<lparr>cs_retries := n\<rparr>) a k)
         (if dest = BROADCAST_ADDRESS then devs else [dest]) (ct_transfer c)\<rparr>"

definition chunk_turn ::
    "'w radio \<Rightarrow> addr \<Rightarrow> addr list \<Rightarrow> nat \<Rightarrow> bytes \<Rightarrow> bool \<Rightarrow> nat \<Rightarrow> ctrl \<times> 'w \<Rightarrow> ctrl \<times> 'w" where
  "chunk_turn r dest devs k p send retries s =
     sleep r 1 (if send then let s1 = send_payload r dest p s
                  in (note_retries dest devs k retries (fst s1), snd s1)
                else s)"

partial_function (option) send_chunk ::
    "'w radio \<Rightarrow> settings \<Rightarrow> addr \<Rightarrow> addr list \<Rightarrow> nat \<Rightarrow> bytes \<Rightarrow> bool \<Rightarrow> nat \<Rightarrow> nat \<Rightarrow> ctrl \<times> 'w \<Rightarrow> (ctrl \<times> 'w) option" where
  "send_chunk r st dest devs k p send send_time retries s =
     (if is_chunk_acknowledged dest devs k (fst s) \<or> st_max_retries st < retries then Some s
      else let s1 = chunk_turn r dest devs k p send retries s; t = sent_at r dest p send send_time s
           in send_chunk r st dest devs k p (st_timeout st < rd_now r (snd s1) - t) t
                (if send then retries + 1 else retries) s1)"

definition new_transfer :: "bytes \<Rightarrow> addr list \<Rightarrow> (addr \<times> chunk_status list) list" where
  "new_transfer fw devs =
     fold (\<lambda>a. AList.update a (replicate (chunk_count fw) \<lparr>cs_acked = False, cs_retries = 0\<rparr>)) devs []"

definition transfer ::
    "'w radio \<Rightarrow> settings \<Rightarrow> net_env \<Rightarrow> bytes \<Rightarrow> addr list \<Rightarrow> ctrl \<times> 'w \<Rightarrow> (ctrl \<times> 'w) option" where
  "transfer r st e fw devs s =
     for_each (\<lambda>k. if st_devices st = []
                 then send_chunk r st BROADCAST_ADDRESS devs k (host_chunk_packet e fw k) True 0 0
                 else for_each (\<lambda>a. send_chunk r st a devs k (host_chunk_packet e fw k) True 0 0) devs)
       [0..<chunk_count fw] ((fst s)\<lparr>ct_transfer := new_transfer fw devs\<rparr>, snd s)"

definition transfer_success :: "addr \<Rightarrow> ctrl \<Rightarrow> bool" where
  "transfer_success a c \<longleftrightarrow>
     (case map_of (ct_transfer c) a of None \<Rightarrow> False | Some cs \<Rightarrow> list_all cs_acked cs)"

end
