(* ===== verification/Controller_Facts.thy ===== *)
theory Controller_Facts
  imports Controller
begin

text \<open>
  What holds of the controller's loops on every radio: what they leave alone, the invariants they
  keep, how often they send, and that they end when the clock runs.
\<close>

section \<open>Frames and sleeping\<close>

lemma frames_frame [simp]:
  "ct_sent (fold on_frame_received fs c) = ct_sent c" "ct_retries (fold on_frame_received fs c) = ct_retries c"
proof (induction fs arbitrary: c)
  case (Cons f fs)
  { case 1 show ?case using Cons by (cases f) simp_all }
  { case 2 show ?case using Cons by (cases f) simp_all }
qed simp_all

lemma sleep_frame [simp]:
  "ct_sent (fst (sleep r ms s)) = ct_sent (fst s)" "ct_retries (fst (sleep r ms s)) = ct_retries (fst s)"
  by (simp_all add: sleep_def split: prod.split)

lemma send_payload_simps [simp]:
  "fst (send_payload r dest p s) = (fst s)\<lparr>ct_sent := ct_sent (fst s) @ [(dest, p)]\<rparr>"
  "snd (send_payload r dest p s) = rd_send r dest p (snd s)"
  by (simp_all add: send_payload_def)

lemma for_each_inv:
  assumes "for_each f xs s = Some s'" and "P s"
    and "\<And>x s s'. x \<in> set xs \<Longrightarrow> P s \<Longrightarrow> f x s = Some s' \<Longrightarrow> P s'"
  shows "P s'"
  using assms
proof (induction xs arbitrary: s)
  case (Cons x xs)
  then obtain s1 where "f x s = Some s1" "for_each f xs s1 = Some s'"
    by (auto split: bind_splits)
  then show ?case using Cons by (metis list.set_intros)
qed simp

lemma for_each_returns:
  assumes "\<And>x s. x \<in> set xs \<Longrightarrow> f x s \<noteq> None"
  shows "for_each f xs s \<noteq> None"
  using assms
proof (induction xs arbitrary: s)
  case (Cons x xs)
  have "f x s \<noteq> None" using Cons.prems by simp
  then obtain s1 where "f x s = Some s1" by blast
  moreover have "for_each f xs s1 \<noteq> None" using Cons by simp
  ultimately show ?case by simp
qed simp

section \<open>Invariants of the loops\<close>

lemma send_start_ota_inv:
  fixes r :: "'w radio"
  assumes "send_start_ota r st dest devs p send send_time s = Some s'" and "P s"
    and turn: "\<And>send s. P s \<Longrightarrow> ct_retries (fst s) \<le> st_max_retries st \<Longrightarrow> P (start_turn r dest p send s)"
  shows "P s'"
proof -
  define step where "step = (\<lambda>(r :: 'w radio) (st :: settings) dest p. \<forall>send s. P s \<longrightarrow> ct_retries (fst s) \<le> st_max_retries st \<longrightarrow>
    P (start_turn r dest p send s))"
  have "step r st dest p \<longrightarrow> P s \<longrightarrow> P s'"
  proof (rule send_start_ota.raw_induct [where P = "\<lambda>r st dest devs p send send_time s s'.
      step r st dest p \<longrightarrow> P s \<longrightarrow> P s'", OF _ assms(1)], goal_cases)
    case (1 f r st dest devs p send send_time s s')
    show ?case
    proof (cases "is_start_ota_acknowledged dest devs (fst s) \<or> st_max_retries st < ct_retries (fst s)")
      case False
      then have "step r st dest p \<longrightarrow> P (start_turn r dest p send s) \<longrightarrow> P s'"
        by (intro 1(1)) (use 1(2) in \<open>simp add: Let_def\<close>)
      moreover have "step r st dest p \<longrightarrow> P s \<longrightarrow> P (start_turn r dest p send s)"
        using False unfolding step_def not_less [symmetric] by blast
      ultimately show ?thesis by blast
    qed (use 1(2) in simp)
  qed
  then show ?thesis using assms(2) turn by (auto simp: step_def)
qed

lemma send_chunk_inv:
  fixes r :: "'w radio"
  assumes "send_chunk r st dest devs k p send send_time retries s = Some s'" and "P s"
    and turn: "\<And>send retries s. P s \<Longrightarrow> P (chunk_turn r dest devs k p send retries s)"
  shows "P s'"
proof -
  define step where "step = (\<lambda>(r :: 'w radio) dest devs k p. \<forall>send retries s. P s \<longrightarrow> P (chunk_turn r dest devs k p send retries s))"
  have "step r dest devs k p \<longrightarrow> P s \<longrightarrow> P s'"
  proof (rule send_chunk.raw_induct [where P = "\<lambda>r st dest devs k p send send_time retries s s'.
      step r dest devs k p \<longrightarrow> P s \<longrightarrow> P s'", OF _ assms(1)], goal_cases)
    case (1 f r st dest devs k p send send_time retries s s')
    show ?case
    proof (cases "is_chunk_acknowledged dest devs k (fst s) \<or> st_max_retries st < retries")
      case False
      then have "step r dest devs k p \<longrightarrow> P (chunk_turn r dest devs k p send retries s) \<longrightarrow> P s'"
        by (intro 1(1)) (use 1(2) in \<open>simp add: Let_def\<close>)
      moreover have "step r dest devs k p \<longrightarrow> P s \<longrightarrow> P (chunk_turn r dest devs k p send retries s)"
        unfolding step_def by blast
      ultimately show ?thesis by blast
    qed (use 1(2) in simp)
  qed
  then show ?thesis using assms(2) turn by (auto simp: step_def)
qed

section \<open>Announcements are counted over all devices\<close>

lemma start_turn_frame [simp]:
  "ct_retries (fst (start_turn r dest p send s)) = ct_retries (fst s) + (if send then 1 else 0)"
  "ct_sent (fst (start_turn r dest p send s)) = ct_sent (fst s) @ (if send then [(dest, p)] else [])"
  by (simp_all add: start_turn_def Let_def)

definition announced_within :: "nat \<Rightarrow> (addr \<times> bytes) list \<Rightarrow> ctrl \<times> 'w \<Rightarrow> bool" where
  "announced_within n old s \<longleftrightarrow>
     (\<exists>new. ct_sent (fst s) = old @ new \<and> length new = ct_retries (fst s)) \<and> ct_retries (fst s) \<le> n + 1"

lemma announced_turn:
  "announced_within n old s \<Longrightarrow> ct_retries (fst s) \<le> n \<Longrightarrow> announced_within n old (start_turn r dest p send s)"
  by (auto simp: announced_within_def)

lemma announced_sleep: "announced_within n old s \<Longrightarrow> announced_within n old (sleep r ms s)"
  by (simp add: announced_within_def)

lemma announced_loop:
  "send_start_ota r st dest devs p send send_time s = Some s' \<Longrightarrow>
   announced_within (st_max_retries st) old s \<Longrightarrow> announced_within (st_max_retries st) old s'"
  by (rule send_start_ota_inv [where P = "announced_within (st_max_retries st) old"])
     (assumption | rule announced_turn)+

lemma start_ota_announced:
  assumes "start_ota r st fw devices ready s = Some s'"
  shows "announced_within (st_max_retries st) (ct_sent (fst s)) s'"
proof -
  let ?I = "announced_within (st_max_retries st) (ct_sent (fst s))"
  define devs where "devs = (case devices of None \<Rightarrow> st_devices st | Some ds \<Rightarrow> ds)"
  define s0 where "s0 = ((fst s)\<lparr>ct_addrs := [], ct_retries := 0\<rparr>, snd s)"
  have s0: "?I s0" by (simp add: announced_within_def s0_def)
  show ?thesis
  proof (cases "devs = []")
    case True
    then have "send_start_ota r st BROADCAST_ADDRESS ready (host_start_packet fw) True 0 s0 = Some s'"
      using assms by (simp add: start_ota_def Let_def devs_def s0_def)
    then show ?thesis using s0 by (rule announced_loop)
  next
    case False
    then have "for_each (\<lambda>a s. map_option (sleep r 200)
        (send_start_ota r st a devs (host_start_packet fw) True 0 s)) devs s0 = Some s'"
      using assms by (simp add: start_ota_def Let_def devs_def s0_def)
    then show ?thesis
      using s0
    proof (rule for_each_inv)
      fix a s1 s2
      assume "?I s1" and "map_option (sleep r 200) (send_start_ota r st a devs (host_start_packet fw) True 0 s1) = Some s2"
      then show "?I s2" using announced_loop announced_sleep by blast
    qed
  qed
qed

section \<open>The loops end when the clock runs\<close>

definition clock_runs :: "'w radio \<Rightarrow> bool" where
  "clock_runs r \<longleftrightarrow>
     (\<forall>w ms. 0 < ms \<longrightarrow> rd_now r w < rd_now r (snd (rd_sleep r ms w))) \<and>
     (\<forall>w dest p. rd_now r w \<le> rd_now r (rd_send r dest p w))"

lemma sleep_clock: "clock_runs r \<Longrightarrow> 0 < ms \<Longrightarrow> rd_now r (snd s) < rd_now r (snd (sleep r ms s))"
  by (simp add: clock_runs_def sleep_def split: prod.split) (metis snd_conv)


text \<open>What is left to do before the retries are used up: a turn that sends uses one up, a turn that does
  not takes time off the wait.\<close>

definition turns_left :: "settings \<Rightarrow> nat \<Rightarrow> bool \<Rightarrow> nat \<Rightarrow> nat" where
  "turns_left st retries send waited =
     (st_max_retries st + 1 - retries) * (st_timeout st + 3) + (if send then 0 else st_timeout st + 1 - waited)"

definition waiting :: "settings \<Rightarrow> bool \<Rightarrow> nat \<Rightarrow> nat \<Rightarrow> bool" where
  "waiting st send send_time now \<longleftrightarrow> send \<or> send_time \<le> now \<and> now - send_time \<le> st_timeout st"

lemma turns_left_decreases:
  assumes "\<not> st_max_retries st < retries" and "waiting st send send_time now"
    and t: "t = (if send then sent else send_time)" and "sent < now1" and "now < now1"
  shows "turns_left st (if send then retries + 1 else retries) (st_timeout st < now1 - t) (now1 - t)
      < turns_left st retries send (now - send_time)"
    and "waiting st (st_timeout st < now1 - t) t now1"
proof -
  obtain R where R: "st_max_retries st + 1 - retries = Suc R"
    using assms(1) by (metis Suc_diff_le Suc_eq_plus1 not_less)
  then have R': "st_max_retries st + 1 - (retries + 1) = R" by simp
  show "turns_left st (if send then retries + 1 else retries) (st_timeout st < now1 - t) (now1 - t)
      < turns_left st retries send (now - send_time)"
    using assms(2-) R R' by (cases send) (auto simp: turns_left_def waiting_def)
  show "waiting st (st_timeout st < now1 - t) t now1"
    using assms(2-) by (auto simp: waiting_def)
qed

lemma turn_clock:
  assumes "clock_runs r"
  shows "rd_now r (snd s) < rd_now r (snd (start_turn r dest p send s))"
    and "rd_now r (snd (send_payload r dest p s)) < rd_now r (snd (start_turn r dest p True s))"
    and "rd_now r (snd s) < rd_now r (snd (chunk_turn r dest devs k p send retries s))"
    and "rd_now r (snd (send_payload r dest p s)) < rd_now r (snd (chunk_turn r dest devs k p True retries s))"
proof -
  have send: "rd_now r (snd s) \<le> rd_now r (snd (send_payload r dest p s))"
    using assms by (simp add: clock_runs_def)
  note sl = sleep_clock [OF assms, of 1]
  show "rd_now r (snd (send_payload r dest p s)) < rd_now r (snd (start_turn r dest p True s))"
    "rd_now r (snd (send_payload r dest p s)) < rd_now r (snd (chunk_turn r dest devs k p True retries s))"
    using sl [of "((fst (send_payload r dest p s))\<lparr>ct_retries := ct_retries (fst (send_payload r dest p s)) + 1\<rparr>,
        snd (send_payload r dest p s))"]
      sl [of "(note_retries dest devs k retries (fst (send_payload r dest p s)), snd (send_payload r dest p s))"]
    by (simp_all add: start_turn_def chunk_turn_def Let_def)
  then show "rd_now r (snd s) < rd_now r (snd (start_turn r dest p send s))"
    "rd_now r (snd s) < rd_now r (snd (chunk_turn r dest devs k p send retries s))"
    using send sl [of s] by (cases send; simp add: start_turn_def chunk_turn_def)+
qed

lemma send_start_ota_ends:
  assumes "clock_runs r"
  shows "waiting st send send_time (rd_now r (snd s)) \<Longrightarrow> \<exists>s'. send_start_ota r st dest devs p send send_time s = Some s'"
proof (induction "turns_left st (ct_retries (fst s)) send (rd_now r (snd s) - send_time)"
    arbitrary: send send_time s rule: less_induct)
  case less
  show ?case
  proof (cases "is_start_ota_acknowledged dest devs (fst s) \<or> st_max_retries st < ct_retries (fst s)")
    case True
    then show ?thesis by (simp add: send_start_ota.simps [of r st dest devs p send send_time s])
  next
    case False
    define t where "t = sent_at r dest p send send_time s"
    let ?s1 = "start_turn r dest p send s"
    have t: "t = (if send then rd_now r (snd (send_payload r dest p s)) else send_time)"
      by (simp add: t_def sent_at_def)
    have clock: "rd_now r (snd (send_payload r dest p s)) < rd_now r (snd ?s1) \<or> \<not> send"
      using turn_clock(2) [OF assms, of dest p s] by (cases send) simp_all
    note dec = turns_left_decreases [of st "ct_retries (fst s)" send send_time "rd_now r (snd s)" t
        "if send then rd_now r (snd (send_payload r dest p s)) else 0" "rd_now r (snd ?s1)"]
    have "\<exists>s'. send_start_ota r st dest devs p (st_timeout st < rd_now r (snd ?s1) - t) t ?s1 = Some s'"
      using dec less.prems False t clock turn_clock(1) [OF assms, of s dest p send]
      by (intro less.hyps) auto
    then show ?thesis
      using False by (subst send_start_ota.simps) (simp add: Let_def t_def)
  qed
qed


lemma send_chunk_ends:
  assumes "clock_runs r"
  shows "waiting st send send_time (rd_now r (snd s)) \<Longrightarrow>
    \<exists>s'. send_chunk r st dest devs k p send send_time retries s = Some s'"
proof (induction "turns_left st retries send (rd_now r (snd s) - send_time)"
    arbitrary: send send_time retries s rule: less_induct)
  case less
  show ?case
  proof (cases "is_chunk_acknowledged dest devs k (fst s) \<or> st_max_retries st < retries")
    case True
    then show ?thesis by (simp add: send_chunk.simps [of r st dest devs k p send send_time retries s])
  next
    case False
    define t where "t = sent_at r dest p send send_time s"
    let ?s1 = "chunk_turn r dest devs k p send retries s"
    have t: "t = (if send then rd_now r (snd (send_payload r dest p s)) else send_time)"
      by (simp add: t_def sent_at_def)
    have clock: "rd_now r (snd (send_payload r dest p s)) < rd_now r (snd ?s1) \<or> \<not> send"
      using turn_clock(4) [OF assms, of dest p s devs k retries] by (cases send) simp_all
    note dec = turns_left_decreases [of st retries send send_time "rd_now r (snd s)" t
        "if send then rd_now r (snd (send_payload r dest p s)) else 0" "rd_now r (snd ?s1)"]
    have "\<exists>s'. send_chunk r st dest devs k p (st_timeout st < rd_now r (snd ?s1) - t) t
        (if send then retries + 1 else retries) ?s1 = Some s'"
      using dec less.prems False t clock turn_clock(3) [OF assms, of s dest devs k p send retries]
      by (intro less.hyps) auto
    then show ?thesis
      using False by (subst send_chunk.simps) (simp add: Let_def t_def)
  qed
qed

lemma waiting_send [simp]: "waiting st True t now"
  by (simp add: waiting_def)

lemma start_ota_ends:
  assumes "clock_runs r"
  shows "start_ota r st fw devices ready s \<noteq> None"
proof -
  have one: "send_start_ota r st dest ds p True 0 s \<noteq> None" for dest ds p s
    using send_start_ota_ends [OF assms, of st True 0 s dest ds p] waiting_send by blast
  then have "for_each (\<lambda>a s. map_option (sleep r 200) (send_start_ota r st a ds p True 0 s)) ds s0 \<noteq> None"
    for ds p s0
    by (intro for_each_returns) (simp del: not_None_eq)
  then show ?thesis
    using one by (simp add: start_ota_def Let_def del: not_None_eq)
qed

lemma transfer_ends:
  assumes "clock_runs r"
  shows "transfer r st e fw devs s \<noteq> None"
proof -
  have one: "send_chunk r st dest devs k p True 0 0 s \<noteq> None" for dest k p s
    using send_chunk_ends [OF assms, of st True 0 s dest devs k p 0] waiting_send by blast
  show ?thesis
    unfolding transfer_def
    by (rule for_each_returns) (simp add: one for_each_returns del: not_None_eq)
qed

section \<open>Acknowledged at once\<close>

lemma start_acked_once:
  assumes "\<not> is_start_ota_acknowledged dest devs (fst s)" and "ct_retries (fst s) \<le> st_max_retries st"
    and "is_start_ota_acknowledged dest devs (fst (start_turn r dest p True s))"
  shows "send_start_ota r st dest devs p True t s = Some (start_turn r dest p True s)"
  by (subst send_start_ota.simps, subst send_start_ota.simps) (use assms in \<open>simp add: Let_def\<close>)

lemma chunk_acked_once:
  assumes "\<not> is_chunk_acknowledged dest devs k (fst s)"
    and "is_chunk_acknowledged dest devs k (fst (chunk_turn r dest devs k p True 0 s))"
  shows "send_chunk r st dest devs k p True t 0 s = Some (chunk_turn r dest devs k p True 0 s)"
  by (subst send_chunk.simps, subst send_chunk.simps) (use assms in \<open>simp add: Let_def\<close>)

section \<open>The contract with a radio\<close>

text \<open>What sending an allowed payload and sleeping keep, the loops keep. The controller's own notes
  (retries, the tables it resets) do not matter to the invariant.\<close>

locale radio_client =
  fixes r :: "'w radio"
    and allowed :: "bytes \<Rightarrow> bool"
    and inv :: "ctrl \<times> 'w \<Rightarrow> bool"
  assumes send_inv: "inv s \<Longrightarrow> allowed p \<Longrightarrow> inv (send_payload r dest p s)"
    and sleep_inv: "inv s \<Longrightarrow> 0 < ms \<Longrightarrow> inv (sleep r ms s)"
    and retries_inv: "inv s \<Longrightarrow> inv ((fst s)\<lparr>ct_retries := n\<rparr>, snd s)"
    and note_inv: "inv s \<Longrightarrow> inv (note_retries dest devs k n (fst s), snd s)"
begin

lemma start_turn_inv: "inv s \<Longrightarrow> allowed p \<Longrightarrow> inv (start_turn r dest p send s)"
  using retries_inv [OF send_inv] by (auto simp: start_turn_def Let_def intro!: sleep_inv)

lemma chunk_turn_inv: "inv s \<Longrightarrow> allowed p \<Longrightarrow> inv (chunk_turn r dest devs k p send retries s)"
  using note_inv [OF send_inv] by (auto simp: chunk_turn_def Let_def intro!: sleep_inv)

lemma start_loop_inv:
  "send_start_ota r st dest devs p send send_time s = Some s' \<Longrightarrow> allowed p \<Longrightarrow> inv s \<Longrightarrow> inv s'"
  by (erule send_start_ota_inv) (simp_all add: start_turn_inv)

lemma chunk_loop_inv:
  "send_chunk r st dest devs k p send send_time retries s = Some s' \<Longrightarrow> allowed p \<Longrightarrow> inv s \<Longrightarrow> inv s'"
  by (erule send_chunk_inv) (simp_all add: chunk_turn_inv)

lemma start_ota_inv:
  assumes "start_ota r st fw devices ready s = Some s'" and "allowed (host_start_packet fw)"
    and "inv ((fst s)\<lparr>ct_addrs := [], ct_retries := 0\<rparr>, snd s)"
  shows "inv s'"
proof -
  define devs where "devs = (case devices of None \<Rightarrow> st_devices st | Some ds \<Rightarrow> ds)"
  define s0 where "s0 = ((fst s)\<lparr>ct_addrs := [], ct_retries := 0\<rparr>, snd s)"
  have run: "(if devs = [] then send_start_ota r st BROADCAST_ADDRESS ready (host_start_packet fw) True 0 s0
      else for_each (\<lambda>a s. map_option (sleep r 200)
        (send_start_ota r st a devs (host_start_packet fw) True 0 s)) devs s0) = Some s'"
    using assms(1) unfolding start_ota_def Let_def devs_def s0_def .
  have s0: "inv s0" using assms(3) by (simp add: s0_def)
  show ?thesis
  proof (cases "devs = []")
    case False
    then have "for_each (\<lambda>a s. map_option (sleep r 200)
        (send_start_ota r st a devs (host_start_packet fw) True 0 s)) devs s0 = Some s'"
      using run by simp
    then show ?thesis
    proof (rule for_each_inv [where P = inv, OF _ s0])
      fix a s1 s2
      assume "inv s1" and "map_option (sleep r 200) (send_start_ota r st a devs (host_start_packet fw) True 0 s1) = Some s2"
      then obtain s3 where "send_start_ota r st a devs (host_start_packet fw) True 0 s1 = Some s3"
        "s2 = sleep r 200 s3" by blast
      then show "inv s2" using start_loop_inv [OF _ assms(2) \<open>inv s1\<close>] sleep_inv [of s3 200] by simp
    qed
  qed (use run s0 start_loop_inv assms(2) in auto)
qed

lemma transfer_inv:
  assumes "transfer r st e fw devs s = Some s'"
    and "\<And>k. k < chunk_count fw \<Longrightarrow> allowed (host_chunk_packet e fw k)"
    and "inv ((fst s)\<lparr>ct_transfer := new_transfer fw devs\<rparr>, snd s)"
  shows "inv s'"
  using assms(1,3) unfolding transfer_def
proof (rule for_each_inv)
  fix k s1 s2
  assume "k \<in> set [0..<chunk_count fw]" and i: "inv s1"
    and run: "(if st_devices st = []
        then send_chunk r st BROADCAST_ADDRESS devs k (host_chunk_packet e fw k) True 0 0
        else for_each (\<lambda>a. send_chunk r st a devs k (host_chunk_packet e fw k) True 0 0) devs) s1 = Some s2"
  then have ok: "allowed (host_chunk_packet e fw k)" using assms(2) by simp
  show "inv s2"
  proof (cases "st_devices st = []")
    case False
    then have "for_each (\<lambda>a. send_chunk r st a devs k (host_chunk_packet e fw k) True 0 0) devs s1 = Some s2"
      using run by simp
    then show ?thesis by (rule for_each_inv [where P = inv, OF _ i]) (use chunk_loop_inv [OF _ ok] in blast)
  qed (use run i chunk_loop_inv [OF _ ok] in auto)
qed

end

end
