(* ===== verification/Air.thy ===== *)
theory Air
  imports Controller_Facts
begin

text \<open>
  The testbed controller and one device with its two cores, over a radio that loses what it likes:
  packets travel in order, each may be lost, at any time, and so may each acknowledgement; frames of
  other devices are heard in between. The device takes a packet with \<open>soc_packet\<close>; its reply is what
  the last transmission request of its bootloader sent.
\<close>

section \<open>The radio\<close>

datatype air_event = Deliver | Lose_Packet | Receive | Lose_Reply | Hear frame

text \<open>\<open>air_fate\<close> says what happens in each sleep, by the number of sleeps so far.\<close>

record air =
  air_down :: "bytes list"
  air_up :: "frame list"
  air_device :: "netcore \<times> appcore"
  air_fate :: "nat \<Rightarrow> air_event list"
  air_sleeps :: nat
  air_time :: nat

text \<open>A frame of another device.\<close>

fun foreign :: "addr \<Rightarrow> frame \<Rightarrow> bool" where
  "foreign a (Start_Ack b) \<longleftrightarrow> b \<noteq> a"
| "foreign a (Chunk_Ack b k) \<longleftrightarrow> b \<noteq> a"
| "foreign a Other_Frame \<longleftrightarrow> True"

definition reply_frame :: "addr \<Rightarrow> bytes \<Rightarrow> frame" where
  "reply_frame a m =
     (if take 1 m = [msg_code SWRMT_MSG_OTA_START_ACK] then Start_Ack a
      else if take 1 m = [msg_code SWRMT_MSG_OTA_CHUNK_ACK] then Chunk_Ack a (unat (get32 1 m))
      else Other_Frame)"

text \<open>A device that does not come back from a packet replies nothing and takes no other.\<close>

definition deliver ::
    "net_env \<Rightarrow> app_env \<Rightarrow> net_input \<Rightarrow> app_input \<Rightarrow> addr \<Rightarrow> air \<Rightarrow> air" where
  "deliver ne ae ni ai a w =
     (case air_down w of
        [] \<Rightarrow> w
      | p # ps \<Rightarrow>
          (case soc_packet ne ae ni ai p (air_device w) of
             Continue d \<Rightarrow> w\<lparr>air_down := ps, air_device := d,
                             air_up := air_up w @ [reply_frame a (sent_bytes (a_shared (snd d)))]\<rparr>
           | _ \<Rightarrow> w))"

fun air_step ::
    "net_env \<Rightarrow> app_env \<Rightarrow> net_input \<Rightarrow> app_input \<Rightarrow> addr \<Rightarrow> air_event \<Rightarrow> frame list \<times> air \<Rightarrow> frame list \<times> air" where
  "air_step ne ae ni ai a Deliver (fs, w) = (fs, deliver ne ae ni ai a w)"
| "air_step ne ae ni ai a Lose_Packet (fs, w) = (fs, w\<lparr>air_down := tl (air_down w)\<rparr>)"
| "air_step ne ae ni ai a Receive (fs, w) = (fs @ take 1 (air_up w), w\<lparr>air_up := tl (air_up w)\<rparr>)"
| "air_step ne ae ni ai a Lose_Reply (fs, w) = (fs, w\<lparr>air_up := tl (air_up w)\<rparr>)"
| "air_step ne ae ni ai a (Hear f) (fs, w) = (if foreign a f then fs @ [f] else fs, w)"

definition air_radio :: "net_env \<Rightarrow> app_env \<Rightarrow> net_input \<Rightarrow> app_input \<Rightarrow> addr \<Rightarrow> air radio" where
  "air_radio ne ae ni ai a =
     \<lparr>rd_send = (\<lambda>dest p w. if dest = a \<or> dest = BROADCAST_ADDRESS
                    then w\<lparr>air_down := air_down w @ [p]\<rparr> else w),
      rd_sleep = (\<lambda>ms w. fold (air_step ne ae ni ai a) (air_fate w (air_sleeps w))
                    ([], w\<lparr>air_sleeps := air_sleeps w + 1, air_time := air_time w + ms\<rparr>)),
      rd_now = air_time\<rparr>"

section \<open>What has reached the device\<close>

text \<open>The packets of an update are announcements and then chunks, also when some are lost.\<close>

definition in_order :: "update_op \<Rightarrow> update_op \<Rightarrow> bool" where
  "in_order x y \<longleftrightarrow> y = Announce \<longrightarrow> x = Announce"

definition device_after :: "bytes \<Rightarrow> netcore \<times> appcore \<Rightarrow> update_op list \<Rightarrow> netcore \<times> appcore \<Rightarrow> bool" where
  "device_after fw d0 ops d \<longleftrightarrow>
     (if ops = [] then d = d0
      else hd ops = Announce \<and> update_announced fw d \<and> updater_of d = fold (update_step fw) ops (updater_of d0))"

fun frame_known :: "addr \<Rightarrow> update_op list \<Rightarrow> frame \<Rightarrow> bool" where
  "frame_known a ops (Start_Ack b) \<longleftrightarrow> (b = a \<longrightarrow> ops \<noteq> [])"
| "frame_known a ops (Chunk_Ack b k) \<longleftrightarrow> (b = a \<longrightarrow> Chunk k \<in> set ops)"
| "frame_known a ops Other_Frame \<longleftrightarrow> True"

text \<open>The device has taken \<open>ops\<close>; what is under way are packets that may follow them and replies to
  them.\<close>

definition air_ok ::
    "net_env \<Rightarrow> bytes \<Rightarrow> addr \<Rightarrow> netcore \<times> appcore \<Rightarrow> update_op set \<Rightarrow> update_op list \<Rightarrow> frame list \<times> air \<Rightarrow> bool" where
  "air_ok ne fw a d0 B ops x \<longleftrightarrow>
     (\<exists>pend. air_down (snd x) = map (op_packet ne fw) pend \<and> set (ops @ pend) \<subseteq> B \<and>
        list_all (valid_op fw) (ops @ pend) \<and> sorted_wrt in_order (ops @ pend) \<and>
        (ops = [] \<longrightarrow> set pend \<subseteq> {Announce})) \<and>
     device_after fw d0 ops (air_device (snd x)) \<and>
     list_all (frame_known a ops) (fst x @ air_up (snd x))"

lemma frame_known_more: "frame_known a ops f \<Longrightarrow> frame_known a (ops @ ops') f"
  by (cases f) auto

lemma foreign_known: "foreign a f \<Longrightarrow> frame_known a ops f"
  by (cases f) auto

lemma reply_known:
  assumes "valid_op fw op" and "length fw \<le> 2 ^ 31" and "up_reply u = up_reply (update_step fw op u0)"
  shows "frame_known a (ops @ [op]) (reply_frame a (up_reply u))"
proof (cases op)
  case (Chunk k)
  then have "k < 2 ^ 32" using assms(1) chunk_count_small [OF assms(2)] by simp
  then have "unat (of_nat k :: u32) = k" by (rule of_nat_u32)
  moreover have "get32 1 (msg_code SWRMT_MSG_OTA_CHUNK_ACK # le32 (of_nat k)) = of_nat k"
    by (simp add: get32_Cons get32_le32_exact)
  ultimately show ?thesis using assms(3) Chunk by (simp add: reply_frame_def)
qed (use assms(3) in \<open>simp add: reply_frame_def\<close>)


text \<open>The device takes the next packet.\<close>

lemma device_takes:
  assumes env: "soc_env_ok ne ae ni" and fw: "length fw \<le> 2 ^ 31" and ready: "update_ready d0"
    and dev: "device_after fw d0 ops d" and op: "valid_op fw op" "ops = [] \<Longrightarrow> op = Announce"
  shows "\<exists>d'. soc_packet ne ae ni ai (op_packet ne fw op) d = Continue d' \<and>
    device_after fw d0 (ops @ [op]) d' \<and> up_reply (updater_of d') = up_reply (update_step fw op (updater_of d))"
proof (cases "ops = []")
  case True
  then show ?thesis
    using announce_refines [OF env fw, of d0 ai] ready dev op by (auto simp: device_after_def)
next
  case False
  then have "update_announced fw d" "hd ops = Announce" using dev by (simp_all add: device_after_def)
  then obtain d' where "soc_packet ne ae ni ai (op_packet ne fw op) d = Continue d'"
    "update_announced fw d'" "updater_of d' = update_step fw op (updater_of d)"
    using updater.step_refines [of ne ae ni fw op d ai] env fw op(1) by auto
  then show ?thesis using dev False \<open>hd ops = Announce\<close> by (auto simp: device_after_def)
qed

lemma air_ok_deliver:
  assumes env: "soc_env_ok ne ae ni" and fw: "length fw \<le> 2 ^ 31" and ready: "update_ready d0"
    and ok: "air_ok ne fw a d0 B ops (fs, w)"
  shows "\<exists>ops'. air_ok ne fw a d0 B (ops @ ops') (fs, deliver ne ae ni ai a w)"
proof -
  obtain pend where pend: "air_down w = map (op_packet ne fw) pend" "set (ops @ pend) \<subseteq> B"
      "list_all (valid_op fw) (ops @ pend)" "sorted_wrt in_order (ops @ pend)"
      "ops = [] \<longrightarrow> set pend \<subseteq> {Announce}"
    and dev: "device_after fw d0 ops (air_device w)" and fs: "list_all (frame_known a ops) (fs @ air_up w)"
    using ok by (auto simp: air_ok_def)
  show ?thesis
  proof (cases pend)
    case Nil
    then show ?thesis using ok pend(1) by (intro exI [of _ "[]"]) (simp add: deliver_def)
  next
    case (Cons op pend')
    obtain d' where d': "soc_packet ne ae ni ai (op_packet ne fw op) (air_device w) = Continue d'"
      "device_after fw d0 (ops @ [op]) d'"
      "up_reply (updater_of d') = up_reply (update_step fw op (updater_of (air_device w)))"
      using device_takes [OF env fw ready dev, of op ai] pend Cons by auto
    have "valid_op fw op" using pend(3) Cons by simp
    then have "frame_known a (ops @ [op]) (reply_frame a (sent_bytes (a_shared (snd d'))))"
      using reply_known [OF _ fw d'(3)] by (simp add: updater_of_def)
    moreover have "list_all (frame_known a (ops @ [op])) (fs @ air_up w)"
      using fs frame_known_more by (auto simp: list_all_iff)
    ultimately have "air_ok ne fw a d0 B (ops @ [op]) (fs, deliver ne ae ni ai a w)"
      using pend Cons d'(1,2) by (auto simp: air_ok_def deliver_def intro!: exI [of _ pend'])
    then show ?thesis by blast
  qed
qed

lemma air_ok_step:
  assumes "soc_env_ok ne ae ni" and "length fw \<le> 2 ^ 31" and "update_ready d0"
    and ok: "air_ok ne fw a d0 B ops x"
  shows "\<exists>ops'. air_ok ne fw a d0 B (ops @ ops') (air_step ne ae ni ai a ev x)"
proof -
  obtain fs w where x: "x = (fs, w)" by (cases x)
  obtain pend where pend: "air_down w = map (op_packet ne fw) pend" "set (ops @ pend) \<subseteq> B"
      "list_all (valid_op fw) (ops @ pend)" "sorted_wrt in_order (ops @ pend)"
      "ops = [] \<longrightarrow> set pend \<subseteq> {Announce}"
    and rest: "device_after fw d0 ops (air_device w)" "list_all (frame_known a ops) (fs @ air_up w)"
    using ok by (auto simp: air_ok_def x)
  have tl: "list_all (frame_known a ops) (tl (air_up w))" "list_all (frame_known a ops) (take 1 (air_up w))"
    using rest(2) by (cases "air_up w"; simp)+
  have "set (tl pend) \<subseteq> set pend" by (cases pend) auto
  moreover have "sorted_wrt in_order (ops @ tl pend)" "list_all (valid_op fw) (tl pend)"
    using pend(3,4) by (cases pend; simp add: sorted_wrt_append)+
  ultimately have lose: "air_ok ne fw a d0 B ops (fs, w\<lparr>air_down := tl (air_down w)\<rparr>)"
    using pend rest unfolding air_ok_def
    by (intro conjI exI [of _ "tl pend"]) (auto simp: map_tl)
  have up: "air_ok ne fw a d0 B ops (fs @ gs, w\<lparr>air_up := tl (air_up w)\<rparr>)"
    if "list_all (frame_known a ops) gs" for gs
    using ok that tl rest(2) by (simp add: air_ok_def x)
  show ?thesis
  proof (cases ev)
    case Deliver
    then show ?thesis using air_ok_deliver [OF assms(1-3)] ok x by simp
  next
    case Receive
    then show ?thesis using up [OF tl(2)] x by (intro exI [of _ "[]"]) simp
  next
    case Lose_Packet
    then show ?thesis using lose x by (intro exI [of _ "[]"]) simp
  next
    case Lose_Reply
    then show ?thesis using up [of "[]"] x by (intro exI [of _ "[]"]) simp
  next
    case (Hear f)
    then show ?thesis using ok foreign_known [of a f ops] x
      by (intro exI [of _ "[]"]) (simp add: air_ok_def)
  qed
qed


lemma air_ok_steps:
  assumes "soc_env_ok ne ae ni" and "length fw \<le> 2 ^ 31" and "update_ready d0"
  shows "air_ok ne fw a d0 B ops x \<Longrightarrow>
    \<exists>ops'. air_ok ne fw a d0 B (ops @ ops') (fold (air_step ne ae ni ai a) evs x)"
proof (induction evs arbitrary: ops x)
  case Nil
  then show ?case by (intro exI [of _ "[]"]) simp
next
  case (Cons ev evs)
  obtain ops1 where "air_ok ne fw a d0 B (ops @ ops1) (air_step ne ae ni ai a ev x)"
    using air_ok_step [OF assms Cons.prems] by blast
  then obtain ops2 where "air_ok ne fw a d0 B ((ops @ ops1) @ ops2) (fold (air_step ne ae ni ai a) (ev # evs) x)"
    using Cons.IH by fastforce
  then show ?case by (intro exI [of _ "ops1 @ ops2"]) simp
qed

section \<open>What the controller knows\<close>

definition ctrl_ok :: "bool \<Rightarrow> addr \<Rightarrow> update_op list \<Rightarrow> ctrl \<Rightarrow> bool" where
  "ctrl_ok chunks a ops c \<longleftrightarrow> (a \<in> set (ct_addrs c) \<longrightarrow> ops \<noteq> []) \<and>
     (chunks \<longrightarrow> (\<forall>k. chunk_acked (ct_transfer c) a k \<longrightarrow> Chunk k \<in> set ops))"

lemma chunk_acked_update:
  "chunk_acked (update_chunk f b k t) a j \<longleftrightarrow>
     (if b = a \<and> k = j then (case map_of t a of None \<Rightarrow> False | Some cs \<Rightarrow> k < length cs \<and> cs_acked (f (cs ! k)))
      else chunk_acked t a j)"
  by (auto simp: chunk_acked_def update_chunk_def AList.map_of_map_entry nth_list_update split: option.splits)


lemma ctrl_ok_frame: "ctrl_ok chunks a ops c \<Longrightarrow> frame_known a ops f \<Longrightarrow> ctrl_ok chunks a ops (on_frame_received f c)"
  by (cases f) (auto simp: ctrl_ok_def chunk_acked_update split: option.splits)

lemma ctrl_ok_frames: "ctrl_ok chunks a ops c \<Longrightarrow> list_all (frame_known a ops) fs \<Longrightarrow> ctrl_ok chunks a ops (fold on_frame_received fs c)"
  by (induction fs arbitrary: c) (simp_all add: ctrl_ok_frame)

lemma ctrl_ok_more: "ctrl_ok chunks a ops c \<Longrightarrow> ctrl_ok chunks a (ops @ ops') c"
  by (auto simp: ctrl_ok_def)

lemma chunk_acked_retries [simp]:
  "chunk_acked (update_chunk (\<lambda>s. s\<lparr>cs_retries := n\<rparr>) b k t) a j \<longleftrightarrow> chunk_acked t a j"
  by (simp add: chunk_acked_update) (simp add: chunk_acked_def split: option.splits)

lemma note_retries_acked [simp]:
  "chunk_acked (ct_transfer (note_retries dest devs k n c)) a j \<longleftrightarrow> chunk_acked (ct_transfer c) a j"
proof -
  have "chunk_acked (fold (\<lambda>b. update_chunk (\<lambda>s. s\<lparr>cs_retries := n\<rparr>) b k) bs t) a j \<longleftrightarrow> chunk_acked t a j" for bs t
    by (induction bs arbitrary: t) simp_all
  then show ?thesis by (simp add: note_retries_def)
qed

lemma note_retries_addrs [simp]: "ct_addrs (note_retries dest devs k n c) = ct_addrs c"
  by (simp add: note_retries_def)

lemma new_transfer_acked: "\<not> chunk_acked (new_transfer fw devs) a k"
proof -
  let ?new = "replicate (chunk_count fw) \<lparr>cs_acked = False, cs_retries = 0\<rparr>"
  have "\<not> chunk_acked (fold (\<lambda>a. AList.update a ?new) devs t) a k"
    if "\<not> chunk_acked t a k" for t
    using that
  proof (induction devs arbitrary: t)
    case (Cons d ds)
    have "\<not> chunk_acked (AList.update d ?new t) a k"
      using Cons.prems by (auto simp: chunk_acked_def update_conv' split: option.splits)
    then show ?case using Cons.IH by simp
  qed simp
  then show ?thesis by (simp add: new_transfer_def chunk_acked_def)
qed

lemma map_of_update_chunk [simp]:
  "map_of (update_chunk f b k t) a =
     (if b = a then map_option (\<lambda>cs. if k < length cs then cs[k := f (cs ! k)] else cs) (map_of t a) else map_of t a)"
  by (simp add: update_chunk_def AList.map_of_map_entry split: option.split)

text \<open>The table has an entry for every chunk.\<close>

definition chunks_noted :: "bytes \<Rightarrow> addr \<Rightarrow> (addr \<times> chunk_status list) list \<Rightarrow> bool" where
  "chunks_noted fw a t \<longleftrightarrow> (\<forall>cs. map_of t a = Some cs \<longrightarrow> length cs = chunk_count fw)"

lemma chunks_noted_update: "chunks_noted fw a t \<Longrightarrow> chunks_noted fw a (update_chunk f b k t)"
  by (auto simp: chunks_noted_def)

lemma chunks_noted_frames:
  "chunks_noted fw a (ct_transfer c) \<Longrightarrow> chunks_noted fw a (ct_transfer (fold on_frame_received fs c))"
proof (induction fs arbitrary: c)
  case (Cons f fs)
  then have "chunks_noted fw a (ct_transfer (on_frame_received f c))"
    by (cases f) (simp_all add: chunks_noted_update)
  then show ?case using Cons.IH by simp
qed simp

lemma chunks_noted_retries:
  "chunks_noted fw a (ct_transfer c) \<Longrightarrow> chunks_noted fw a (ct_transfer (note_retries dest devs k n c))"
  unfolding note_retries_def ctrl.simps
  by (rule fold_invariant [where Q = "\<lambda>_. True"]) (simp_all add: chunks_noted_update)

lemma chunks_noted_new: "chunks_noted fw a (new_transfer fw devs)"
  unfolding new_transfer_def
  by (rule fold_invariant [where Q = "\<lambda>_. True"]) (auto simp: chunks_noted_def update_conv')

section \<open>The two phases of an update\<close>

text \<open>The controller sends announcements first, and chunks once the device has acknowledged one.\<close>

definition may_send :: "bool \<Rightarrow> update_op set" where
  "may_send chunks = (if chunks then UNIV else {Announce})"

definition allowed :: "net_env \<Rightarrow> bytes \<Rightarrow> bool \<Rightarrow> bytes \<Rightarrow> bool" where
  "allowed ne fw chunks p \<longleftrightarrow>
     (\<exists>op. p = op_packet ne fw op \<and> valid_op fw op \<and> (op = Announce \<longleftrightarrow> \<not> chunks))"

definition phase_ok ::
    "net_env \<Rightarrow> bytes \<Rightarrow> addr \<Rightarrow> netcore \<times> appcore \<Rightarrow> bool \<Rightarrow> ctrl \<times> air \<Rightarrow> bool" where
  "phase_ok ne fw a d0 chunks s \<longleftrightarrow>
     (\<exists>ops. air_ok ne fw a d0 (may_send chunks) ops ([], snd s) \<and> ctrl_ok chunks a ops (fst s) \<and>
        (chunks \<longrightarrow> ops \<noteq> [] \<and> chunks_noted fw a (ct_transfer (fst s))))"

definition phase_env :: "net_env \<Rightarrow> app_env \<Rightarrow> net_input \<Rightarrow> bytes \<Rightarrow> netcore \<times> appcore \<Rightarrow> bool" where
  "phase_env ne ae ni fw d0 \<longleftrightarrow> soc_env_ok ne ae ni \<and> length fw \<le> 2 ^ 31 \<and> update_ready d0"

lemma phase_sleep:
  assumes "phase_env ne ae ni fw d0" and "phase_ok ne fw a d0 chunks s"
  shows "phase_ok ne fw a d0 chunks (sleep (air_radio ne ae ni ai a) ms s)"
proof -
  let ?B = "may_send chunks"
  obtain ops where ops: "air_ok ne fw a d0 ?B ops ([], snd s)" "ctrl_ok chunks a ops (fst s)"
      "chunks \<longrightarrow> ops \<noteq> [] \<and> chunks_noted fw a (ct_transfer (fst s))"
    using assms(2) unfolding phase_ok_def by blast
  define w where "w = (snd s)\<lparr>air_sleeps := air_sleeps (snd s) + 1, air_time := air_time (snd s) + ms\<rparr>"
  define x where "x = fold (air_step ne ae ni ai a) (air_fate (snd s) (air_sleeps (snd s))) ([], w)"
  have "air_ok ne fw a d0 ?B ops ([], w)" using ops(1) by (simp add: air_ok_def w_def)
  then obtain ops' where ops': "air_ok ne fw a d0 ?B (ops @ ops') x"
    using air_ok_steps [of ne ae ni fw d0] assms(1) unfolding phase_env_def x_def by blast
  obtain fs w' where x: "x = (fs, w')" by (cases x)
  then have sl: "sleep (air_radio ne ae ni ai a) ms s = (fold on_frame_received fs (fst s), w')"
    unfolding x_def w_def by (simp add: sleep_def air_radio_def)
  have "list_all (frame_known a (ops @ ops')) fs" and air: "air_ok ne fw a d0 ?B (ops @ ops') ([], w')"
    using ops' unfolding x by (simp_all add: air_ok_def)
  then have "ctrl_ok chunks a (ops @ ops') (fold on_frame_received fs (fst s))"
    using ctrl_ok_frames ctrl_ok_more [OF ops(2), of ops'] by blast
  then show ?thesis
    using ops(3) air chunks_noted_frames unfolding phase_ok_def sl fst_conv snd_conv
    by (intro exI [of _ "ops @ ops'"]) auto
qed

lemma phase_send:
  assumes "phase_ok ne fw a d0 chunks s" and "allowed ne fw chunks p"
  shows "phase_ok ne fw a d0 chunks (send_payload (air_radio ne ae ni ai a) dest p s)"
proof -
  obtain ops where ops: "air_ok ne fw a d0 (may_send chunks) ops ([], snd s)" "ctrl_ok chunks a ops (fst s)"
      "chunks \<longrightarrow> ops \<noteq> [] \<and> chunks_noted fw a (ct_transfer (fst s))"
    using assms(1) unfolding phase_ok_def by blast
  obtain op where op: "p = op_packet ne fw op" "valid_op fw op" "op = Announce \<longleftrightarrow> \<not> chunks"
    using assms(2) by (auto simp: allowed_def)
  define w where "w = rd_send (air_radio ne ae ni ai a) dest p (snd s)"
  have "air_ok ne fw a d0 (may_send chunks) ops ([], w)"
  proof (cases "dest = a \<or> dest = BROADCAST_ADDRESS")
    case True
    obtain pend where pend: "air_down (snd s) = map (op_packet ne fw) pend" "set (ops @ pend) \<subseteq> may_send chunks"
        "list_all (valid_op fw) (ops @ pend)" "sorted_wrt in_order (ops @ pend)"
        "ops = [] \<longrightarrow> set pend \<subseteq> {Announce}"
      and rest: "device_after fw d0 ops (air_device (snd s))" "list_all (frame_known a ops) (air_up (snd s))"
      using ops(1) by (auto simp: air_ok_def)
    have "\<forall>x \<in> set (ops @ pend). in_order x op"
      using pend(2) op(3) by (auto simp: in_order_def may_send_def split: if_splits)
    then have "sorted_wrt in_order (ops @ pend @ [op])"
      using pend(4) by (auto simp: sorted_wrt_append)
    moreover have "op \<in> may_send chunks" using op(3) by (simp add: may_send_def)
    ultimately have "air_ok ne fw a d0 (may_send chunks) ops ([], (snd s)\<lparr>air_down := air_down (snd s) @ [p]\<rparr>)"
      using pend rest op ops(3) by (auto simp: air_ok_def intro!: exI [of _ "pend @ [op]"])
    then show ?thesis using True by (simp add: w_def air_radio_def)
  qed (use ops(1) in \<open>simp add: w_def air_radio_def\<close>)
  then show ?thesis
    using ops(2,3) by (auto simp: phase_ok_def w_def [symmetric] ctrl_ok_def chunks_noted_def intro!: exI [of _ ops])
qed

lemma phase_retries: "phase_ok ne fw a d0 chunks (c, w) \<Longrightarrow> phase_ok ne fw a d0 chunks (c\<lparr>ct_retries := n\<rparr>, w)"
  by (simp add: phase_ok_def ctrl_ok_def)

lemma phase_note: "phase_ok ne fw a d0 chunks (c, w) \<Longrightarrow> phase_ok ne fw a d0 chunks (note_retries dest devs k n c, w)"
  using chunks_noted_retries by (auto simp: phase_ok_def ctrl_ok_def)

interpretation air: radio_client "air_radio ne ae ni ai a" "allowed ne fw chunks"
    "\<lambda>s. phase_env ne ae ni fw d0 \<and> phase_ok ne fw a d0 chunks s"
  for ne ae ni ai a fw chunks d0
  by unfold_locales (simp_all add: phase_send phase_sleep phase_retries phase_note)

text \<open>The clock of the air runs.\<close>

lemma air_step_time [simp]: "air_time (snd (air_step ne ae ni ai a ev x)) = air_time (snd x)"
  by (cases x; cases ev) (simp_all add: deliver_def split: list.split outcome.split)

lemma air_steps_time [simp]: "air_time (snd (fold (air_step ne ae ni ai a) evs x)) = air_time (snd x)"
  by (induction evs arbitrary: x) simp_all

lemma air_clock_runs: "clock_runs (air_radio ne ae ni ai a)"
  by (simp add: clock_runs_def air_radio_def)

section \<open>An update over the air\<close>

text \<open>What an ordered sequence of announcements and chunks leaves of the flash.\<close>

lemma ordered_ops:
  assumes "ops \<noteq> []" and "hd ops = Announce" and "sorted_wrt in_order ops" and "list_all (valid_op fw) ops"
  shows "up_cells (fold (update_step fw) ops u) = image_cells fw {k. Chunk k \<in> set ops}
      (if up_erase_due u then erase_pages fw (up_cells u) else up_cells u) \<and>
    (up_erase_due (fold (update_step fw) ops u) \<longleftrightarrow> {k. Chunk k \<in> set ops} \<noteq> {}) \<and>
    (Chunk (chunk_count fw - 1) \<in> set ops \<longrightarrow> up_ready (fold (update_step fw) ops u))"
  using assms
proof (induction ops rule: rev_induct)
  case (snoc op ops)
  show ?case
  proof (cases "ops = []")
    case True
    then show ?thesis using snoc.prems(2) by (simp add: image_cells_none)
  next
    case False
    note IH = snoc.IH [OF False]
    show ?thesis
    proof (cases op)
      case Announce
      then have "{k. Chunk k \<in> set ops} = {}"
        using snoc.prems(3) by (auto simp: sorted_wrt_append in_order_def)
      then show ?thesis using IH snoc.prems False Announce
        by (auto simp: sorted_wrt_append)
    next
      case (Chunk k)
      have "{j. Chunk j \<in> set (ops @ [op])} = insert k {j. Chunk j \<in> set ops}"
        by (auto simp: Chunk)
      then show ?thesis using IH snoc.prems False Chunk
        by (auto simp: sorted_wrt_append store_chunk_cells)
    qed
  qed
qed simp

lemma image_cells_pages:
  "length fw \<le> 2 ^ 31 \<Longrightarrow> image_cells fw {..<chunk_count fw} (erase_pages fw c) = flashed_image fw c"
  using in_all_chunks
  by (auto simp: fun_eq_iff image_cells_def flashed_image_def in_chunks_def erase_pages_def Let_def)

text \<open>Announced, acknowledged, transferred: then the image is in the flash.\<close>

lemma transferred_image:
  assumes fw: "length fw \<le> 2 ^ 31" "fw \<noteq> []" and ready: "up_erase_due (updater_of d0)"
    and dev: "device_after fw d0 ops d" and ops: "sorted_wrt in_order ops" "list_all (valid_op fw) ops"
    and all: "\<forall>k < chunk_count fw. Chunk k \<in> set ops"
  shows "up_cells (updater_of d) = flashed_image fw (up_cells (updater_of d0)) \<and> up_ready (updater_of d)"
proof -
  have last: "chunk_count fw - 1 < chunk_count fw" using chunk_count_pos [OF fw(2)] by simp
  then have "ops \<noteq> []" using all by auto
  then have d: "hd ops = Announce" "updater_of d = fold (update_step fw) ops (updater_of d0)"
    using dev by (auto simp: device_after_def)
  have "{k. Chunk k \<in> set ops} = {..<chunk_count fw}"
    using all ops(2) by (auto simp: list_all_iff)
  then show ?thesis
    using ordered_ops [OF \<open>ops \<noteq> []\<close> d(1) ops, of "updater_of d0"] all last ready
    by (simp add: d(2) image_cells_pages [OF fw(1)])
qed

lemma all_acked:
  assumes "transfer_success a c" and "chunks_noted fw a (ct_transfer c)" and "ctrl_ok True a ops c"
  shows "\<forall>k < chunk_count fw. Chunk k \<in> set ops"
proof -
  obtain cs where cs: "map_of (ct_transfer c) a = Some cs" "list_all cs_acked cs"
    using assms(1) by (auto simp: transfer_success_def split: option.splits)
  then have "length cs = chunk_count fw" using assms(2) by (simp add: chunks_noted_def)
  then have "\<forall>k < chunk_count fw. chunk_acked (ct_transfer c) a k"
    using cs by (auto simp: chunk_acked_def list_all_length)
  then show ?thesis using assms(3) by (simp add: ctrl_ok_def)
qed

lemma update_over_air:
  fixes w :: air
  assumes env: "soc_env_ok ne ae ni" "length fw \<le> 2 ^ 31" "fw \<noteq> []" "update_ready (air_device w)"
    and silent: "air_down w = []" "air_up w = []"
    and start: "start_ota (air_radio ne ae ni ai a) st fw devices ready (c, w) = Some s1"
    and acked: "a \<in> set (ct_addrs (fst s1))"
    and trans: "transfer (air_radio ne ae ni ai a) st ne fw devs s1 = Some s2"
    and success: "transfer_success a (fst s2)"
  defines "d0 \<equiv> updater_of (air_device w)" and "d2 \<equiv> updater_of (air_device (snd s2))"
  shows "up_cells d2 = flashed_image fw (up_cells d0) \<and> up_ready d2"
proof -
  let ?d = "air_device w"
  have pe: "phase_env ne ae ni fw ?d" using env by (simp add: phase_env_def)
  have due: "up_erase_due d0" using env(4) by (simp add: d0_def updater_of_def update_ready_iff)
  have "air_ok ne fw a ?d {Announce} [] ([], w)"
    using silent by (auto simp: air_ok_def device_after_def)
  then have "phase_ok ne fw a ?d False (c\<lparr>ct_addrs := [], ct_retries := 0\<rparr>, w)"
    by (auto simp: phase_ok_def may_send_def ctrl_ok_def)
  moreover have "allowed ne fw False (host_start_packet fw)"
    by (auto simp: allowed_def intro!: exI [of _ Announce])
  ultimately have "phase_env ne ae ni fw ?d \<and> phase_ok ne fw a ?d False s1"
    using pe by (intro air.start_ota_inv [OF start]) simp_all
  then obtain ops1 where ops1: "air_ok ne fw a ?d {Announce} ops1 ([], snd s1)" "ops1 \<noteq> []"
    using acked by (auto simp: phase_ok_def ctrl_ok_def may_send_def)
  then have "air_ok ne fw a ?d UNIV ops1 ([], snd s1)" by (auto simp: air_ok_def)
  then have "phase_ok ne fw a ?d True ((fst s1)\<lparr>ct_transfer := new_transfer fw devs\<rparr>, snd s1)"
    using ops1(2) chunks_noted_new new_transfer_acked
    by (auto simp: phase_ok_def may_send_def ctrl_ok_def)
  moreover have "allowed ne fw True (host_chunk_packet ne fw k)" if "k < chunk_count fw" for k
    using that by (auto simp: allowed_def intro!: exI [of _ "Chunk k"])
  ultimately have "phase_env ne ae ni fw ?d \<and> phase_ok ne fw a ?d True s2"
    using pe by (intro air.transfer_inv [OF trans]) simp_all
  then obtain ops where ops: "air_ok ne fw a ?d UNIV ops ([], snd s2)" "ctrl_ok True a ops (fst s2)"
      "chunks_noted fw a (ct_transfer (fst s2))"
    by (auto simp: phase_ok_def may_send_def)
  note all = all_acked [OF success ops(3,2)]
  have "device_after fw ?d ops (air_device (snd s2))" "sorted_wrt in_order ops" "list_all (valid_op fw) ops"
    using ops(1) by (auto simp: air_ok_def sorted_wrt_append)
  then show ?thesis
    unfolding d0_def d2_def by (rule transferred_image [OF env(2,3) due [unfolded d0_def] _ _ _ all])
qed

end
