(* ===== verification/Controller_Properties.thy ===== *)
theory Controller_Properties
  imports Air Examples
begin

text \<open>
  The update as the testbed controller drives it: how often it announces one, that it ends, and that a
  transfer it reports as a success has left the image in the device's flash. The witnesses run an
  update of one device over a radio that delivers everything.
\<close>

section \<open>Announcements\<close>

text \<open>C10: The retries of \<open>start_ota\<close> are counted over all devices, not for each: it sends at most one
  announcement more than the maximal number of retries, so that, when there are more devices, the
  ones beyond that number are never sent one.\<close>

theorem announcements_shared:
  assumes "start_ota r st fw (Some devs) ready s = Some s'"
  shows "\<exists>new. ct_sent (fst s') = ct_sent (fst s) @ new \<and> length new \<le> st_max_retries st + 1 \<and>
    card (set devs) \<le> card (set devs - fst ` set new) + (st_max_retries st + 1)"
proof -
  obtain new where new: "ct_sent (fst s') = ct_sent (fst s) @ new" "length new \<le> st_max_retries st + 1"
    using start_ota_announced [OF assms] by (auto simp: announced_within_def)
  have "card (fst ` set new) \<le> length new"
    by (meson card_image_le card_length finite_set le_trans)
  moreover have "card (set devs) \<le> card (set devs - fst ` set new) + card (fst ` set new)"
    using diff_card_le_card_Diff [of "fst ` set new" "set devs"] by simp
  ultimately show ?thesis using new by (intro exI [of _ new]) simp
qed

definition ex_settings :: settings where
  "ex_settings = \<lparr>st_devices = [7], st_max_retries = 1, st_timeout = 5\<rparr>"

definition ex_ctrl :: ctrl where
  "ex_ctrl = \<lparr>ct_addrs = [], ct_retries = 0, ct_transfer = [], ct_sent = []\<rparr>"

definition ex_air :: air where
  "ex_air = \<lparr>air_down = [], air_up = [], air_device = (ex_net, ex_app), air_fate = \<lambda>_. [Deliver, Receive],
     air_sleeps = 0, air_time = 0\<rparr>"

abbreviation ex_radio :: "air radio" where
  "ex_radio \<equiv> air_radio ex_net_env ex_app_env ex_net_input ex_app_input 7"

text \<open>Three devices, two announcements.\<close>

theorem announcements_shared_witness:
  "\<exists>s' new. start_ota ex_radio ex_settings ex_firmware (Some [1, 2, 3]) [] (ex_ctrl, ex_air) = Some s' \<and>
    ct_sent (fst s') = new \<and> set [1, 2, 3] - fst ` set new \<noteq> {}"
proof -
  obtain s' where s': "start_ota ex_radio ex_settings ex_firmware (Some [1, 2, 3]) [] (ex_ctrl, ex_air) = Some s'"
    using start_ota_ends [OF air_clock_runs] by blast
  obtain new where new: "ct_sent (fst s') = ct_sent (fst (ex_ctrl, ex_air)) @ new"
      "card (set [1, 2, 3 :: addr]) \<le> card (set [1, 2, 3] - fst ` set new) + (st_max_retries ex_settings + 1)"
    using announcements_shared [OF s'] by blast
  have "set [1, 2, 3] - fst ` set new \<noteq> {}"
  proof
    assume "set [1, 2, 3] - fst ` set new = {}"
    then show False using new(2) by (simp only: card.empty) (simp add: ex_settings_def)
  qed
  moreover have "ct_sent (fst s') = new" using new(1) by (simp add: ex_ctrl_def)
  ultimately show ?thesis using s' by blast
qed

section \<open>Ending\<close>

text \<open>C24: On every radio whose clock runs while the controller sleeps, an update ends, whatever is lost:
  \<open>start_ota\<close> and \<open>transfer\<close> return.\<close>

theorem update_ends:
  assumes "clock_runs r"
  shows "(\<exists>s'. start_ota r st fw devices ready s = Some s') \<and> (\<exists>s'. transfer r st e fw devs s = Some s')"
  using start_ota_ends [OF assms] transfer_ends [OF assms] by blast

text \<open>Over the air, with a device that is deaf.\<close>

theorem update_ends_witness:
  "\<exists>s'. transfer ex_radio ex_settings ex_net_env ex_firmware [9] (ex_ctrl, ex_air) = Some s'"
  using update_ends [OF air_clock_runs] by blast

section \<open>Success\<close>

text \<open>An update of one device over a radio that delivers everything.\<close>

lemma turn_answered:
  fixes w :: air
  assumes "air_down w = []" and "air_up w = []" and "air_fate w = (\<lambda>_. [Deliver, Receive])"
    and "soc_packet ex_net_env ex_app_env ex_net_input ex_app_input p (air_device w) = Continue d"
  shows "\<exists>w'. rd_sleep ex_radio ms (rd_send ex_radio 7 p w) = ([reply_frame 7 (sent_bytes (a_shared (snd d)))], w') \<and>
    air_device w' = d \<and> air_down w' = [] \<and> air_up w' = [] \<and> air_fate w' = (\<lambda>_. [Deliver, Receive])"
  using assms by (simp add: air_radio_def deliver_def)

lemma sleep_silent:
  fixes w :: air
  assumes "air_down w = []" and "air_up w = []" and "air_fate w = (\<lambda>_. [Deliver, Receive])"
  shows "\<exists>w'. sleep ex_radio ms (c, w) = (c, w') \<and>
    air_device w' = air_device w \<and> air_down w' = [] \<and> air_up w' = [] \<and> air_fate w' = (\<lambda>_. [Deliver, Receive])"
  using assms by (simp add: sleep_def air_radio_def deliver_def)

lemma ex_started:
  "\<exists>s1. start_ota ex_radio ex_settings ex_firmware None [] (ex_ctrl, ex_air) = Some s1 \<and>
    ct_addrs (fst s1) = [7] \<and> update_announced ex_firmware (air_device (snd s1)) \<and>
    air_down (snd s1) = [] \<and> air_up (snd s1) = [] \<and> air_fate (snd s1) = (\<lambda>_. [Deliver, Receive])"
proof -
  let ?p = "host_start_packet ex_firmware"
  have "length ex_firmware \<le> 2 ^ 31" by (simp add: ex_firmware_def)
  then obtain d where d: "soc_packet ex_net_env ex_app_env ex_net_input ex_app_input ?p (ex_net, ex_app) = Continue d"
      "update_announced ex_firmware d" "updater_of d = update_step ex_firmware Announce (updater_of (ex_net, ex_app))"
    using announce_refines [OF ex_soc_env_ok, of ex_firmware "(ex_net, ex_app)" ex_app_input] ex_update_ready
    by blast
  have "up_reply (updater_of d) = [msg_code SWRMT_MSG_OTA_START_ACK]" using d(3) by simp
  then have reply: "reply_frame 7 (sent_bytes (a_shared (snd d))) = Start_Ack 7"
    by (simp add: updater_of_def reply_frame_def)
  obtain w1 where w1: "rd_sleep ex_radio 1 (rd_send ex_radio 7 ?p ex_air) = ([Start_Ack 7], w1)"
      "air_device w1 = d" "air_down w1 = []" "air_up w1 = []" "air_fate w1 = (\<lambda>_. [Deliver, Receive])"
    using turn_answered [of ex_air ?p d 1] d(1) reply by (auto simp: ex_air_def)
  define s1 where "s1 = start_turn ex_radio 7 ?p True (ex_ctrl, ex_air)"
  have s1: "snd s1 = w1" "ct_addrs (fst s1) = [7]"
    using w1(1) by (simp_all add: s1_def start_turn_def Let_def sleep_def ex_ctrl_def)
  have "is_start_ota_acknowledged 7 [7] (fst s1)" "\<not> is_start_ota_acknowledged 7 [7] ex_ctrl"
    using s1(2) by (simp_all add: is_start_ota_acknowledged_def BROADCAST_ADDRESS_def ex_ctrl_def)
  then have run: "send_start_ota ex_radio ex_settings 7 [7] ?p True 0 (ex_ctrl, ex_air) = Some s1"
    unfolding s1_def by (intro start_acked_once) (simp_all add: ex_ctrl_def)
  have "s1 = (fst s1, w1)" using s1(1) by (metis prod.collapse)
  then obtain w2 where w2: "sleep ex_radio 200 s1 = (fst s1, w2)"
    "air_device w2 = d" "air_down w2 = []" "air_up w2 = []" "air_fate w2 = (\<lambda>_. [Deliver, Receive])"
    using sleep_silent [of w1 200 "fst s1"] w1 by metis
  have "start_ota ex_radio ex_settings ex_firmware None [] (ex_ctrl, ex_air) = Some (fst s1, w2)"
    using run w2(1)
    by (simp add: start_ota_def Let_def ex_settings_def) (simp add: ex_ctrl_def)
  then show ?thesis using s1(2) d(2) w2 by simp
qed

lemma ex_transferred:
  assumes "update_announced ex_firmware (air_device (snd s1))" and "air_down (snd s1) = []"
    and "air_up (snd s1) = []" and "air_fate (snd s1) = (\<lambda>_. [Deliver, Receive])"
  shows "\<exists>s2. transfer ex_radio ex_settings ex_net_env ex_firmware [7] s1 = Some s2 \<and> transfer_success 7 (fst s2)"
proof -
  let ?p = "host_chunk_packet ex_net_env ex_firmware 0"
  define s0 where "s0 = ((fst s1)\<lparr>ct_transfer := new_transfer ex_firmware [7]\<rparr>, snd s1)"
  have count: "chunk_count ex_firmware = 1" by (simp add: chunk_count_def CHUNK_SIZE_def ex_firmware_def)
  have "length ex_firmware \<le> 2 ^ 31" by (simp add: ex_firmware_def)
  then obtain d where d: "soc_packet ex_net_env ex_app_env ex_net_input ex_app_input ?p (air_device (snd s1)) = Continue d"
      "updater_of d = update_step ex_firmware (Chunk 0) (updater_of (air_device (snd s1)))"
    using chunk_refines [OF ex_soc_env_ok _ assms(1), of 0 ex_app_input] count by auto
  have "up_reply (updater_of d) = msg_code SWRMT_MSG_OTA_CHUNK_ACK # le32 0" using d(2) by simp
  then have reply: "reply_frame 7 (sent_bytes (a_shared (snd d))) = Chunk_Ack 7 0"
    by (simp add: updater_of_def reply_frame_def get32_Cons get32_le32_exact)
  obtain w2 where w2: "rd_sleep ex_radio 1 (rd_send ex_radio 7 ?p (snd s0)) = ([Chunk_Ack 7 0], w2)"
    using turn_answered [OF assms(2-4) d(1), of 1] reply by (auto simp: s0_def)
  define s2 where "s2 = chunk_turn ex_radio 7 [7] 0 ?p True 0 s0"
  have s2: "ct_transfer (fst s2) = [(7, [\<lparr>cs_acked = True, cs_retries = 0\<rparr>])]"
    using w2 by (simp add: s2_def chunk_turn_def Let_def sleep_def note_retries_def BROADCAST_ADDRESS_def
        s0_def new_transfer_def count update_chunk_def)
  have "\<not> is_chunk_acknowledged 7 [7] 0 (fst s0)" "is_chunk_acknowledged 7 [7] 0 (fst s2)"
    using new_transfer_acked s2
    by (simp_all add: is_chunk_acknowledged_def BROADCAST_ADDRESS_def s0_def chunk_acked_def)
  then have "send_chunk ex_radio ex_settings 7 [7] 0 ?p True 0 0 s0 = Some s2"
    unfolding s2_def by (rule chunk_acked_once)
  then have "transfer ex_radio ex_settings ex_net_env ex_firmware [7] s1 = Some s2"
    by (simp add: transfer_def count ex_settings_def s0_def)
  then show ?thesis using s2 by (simp add: transfer_success_def)
qed



end
