(* ===== verification/Single_Update.thy ===== *)
theory Single_Update
  imports Single_Core Updater
begin

text \<open>
  The firmware update on the single-core bootloader: \<open>sc_packet\<close> is one packet of the testbed
  controller and the pass of the main loop after it, the other stages included, whatever status,
  battery and metrics work is pending. It implements the specification of \<open>Updater\<close>, as the two
  cores do; \<open>sc_updater_of\<close> is the abstraction.
\<close>

section \<open>A packet and a pass of the loop\<close>

definition sc_packet :: "sc_env \<Rightarrow> sc_input \<Rightarrow> bytes \<Rightarrow> single \<Rightarrow> single outcome" where
  "sc_packet e i pkt s = run_stages (sc_stages e i)
     (sc_irq e (ScMari (MARI_NEW_PACKET (env_broadcast e) ((!) pkt) (of_nat (length pkt)))) s)"

text \<open>The bytes of the last transmission.\<close>

fun tx_bytes :: "sc_event \<Rightarrow> bytes" where
  "tx_bytes (SE_MariTx c m) = m"
| "tx_bytes _ = []"

definition sc_reply :: "single \<Rightarrow> bytes" where
  "sc_reply s = tx_bytes (last (s_out s))"

definition sc_updater_of :: "single \<Rightarrow> updater" where
  "sc_updater_of s =
     \<lparr>up_cells = cells (s_flash s), up_erase_due = s_ota_require_erase s,
      up_ready = (s_status s = SWRMT_APPLICATION_READY), up_reply = sc_reply s\<rparr>"

text \<open>Between two packets: no request is pending. A status report, a battery reading or a metrics
  probe may be.\<close>

definition sc_idle :: "single \<Rightarrow> bool" where
  "sc_idle s \<longleftrightarrow> sc_inv s \<and> \<not> s_req_received s \<and> \<not> s_ota_start_request s \<and> \<not> s_ota_chunk_request s \<and>
     \<not> s_log_received s \<and> s_base_addr s = SWARMIT_BASE_ADDRESS \<and>
     (s_status s = SWRMT_APPLICATION_READY \<or> s_status s = SWRMT_APPLICATION_PROGRAMMING)"

text \<open>What the code relies on: the library's digests and probes, flash hardware, a connection.\<close>

definition sc_update_env :: "sc_env \<Rightarrow> sc_input \<Rightarrow> net_env \<Rightarrow> bool" where
  "sc_update_env e i ne \<longleftrightarrow> sc_env_ok e \<and> nor_flash APP_FLASH_PAGE_SIZE (env_flash_hw e) \<and>
     (\<exists>n. in_connected i n) \<and> env_ok ne \<and> env_sha256 e = env_sha256 ne"

section \<open>The stages that do not touch the update\<close>

text \<open>The part of the state the update works on.\<close>

definition same_update :: "single \<Rightarrow> single \<Rightarrow> bool" where
  "same_update s s' \<longleftrightarrow> s_ota s' = s_ota s \<and> s_flash s' = s_flash s \<and> s_status s' = s_status s \<and>
     s_base_addr s' = s_base_addr s \<and> s_ota_require_erase s' = s_ota_require_erase s \<and>
     s_ota_start_request s' = s_ota_start_request s \<and> s_ota_chunk_request s' = s_ota_chunk_request s \<and>
     s_req_received s' = s_req_received s \<and> s_log_received s' = s_log_received s"

lemma same_update_refl [simp]: "same_update s s"
  by (simp add: same_update_def)

lemma same_update_trans: "same_update s s1 \<Longrightarrow> same_update s1 s2 \<Longrightarrow> same_update s s2"
  by (simp add: same_update_def)

lemma notify_same [simp]: "same_update s (sc_notify m s)"
  by (simp add: same_update_def sc_notify_def Let_def sc_emit_def)

lemma status_stage_same:
  "\<exists>s'. sc_stage_status s = Continue s' \<and> same_update s s' \<and> s_req_buffer s' = s_req_buffer s"
  by (simp add: sc_stage_status_def same_update_def sc_notify_def Let_def sc_emit_def)

lemma metrics_stage_same: "\<exists>s'. sc_stage_metrics e i s = Continue s' \<and> same_update s s'"
  by (simp add: sc_stage_metrics_def same_update_def Let_def sc_emit_def)

lemma battery_stage_same:
  "\<exists>s'. sc_stage_battery e i s = Continue s' \<and> same_update s s' \<and> s_out s' = s_out s"
  by (simp add: sc_stage_battery_def same_update_def)

lemma sc_inv_stage:
  "sc_env_ok e \<Longrightarrow> f \<in> set (sc_stages e i) \<Longrightarrow> sc_inv s \<Longrightarrow> f s = Continue s' \<Longrightarrow> sc_inv s'"
  using sc_inv_stages [of e f i s] by simp

section \<open>Receiving\<close>

lemma sc_receives:
  assumes "msg_code SWRMT_MSG_STATUS \<le> t" "t \<le> msg_code SWRMT_MSG_OTA_CHUNK"
    and "length (t # p) \<le> 255" and "length (s_req_buffer s) = 255"
  shows "sc_irq e (ScMari (MARI_NEW_PACKET dst ((!) (t # p)) (of_nat (length (t # p))))) s =
    s\<lparr>s_req_buffer := (t # p) @ drop (length (t # p)) (s_req_buffer s), s_req_received := True\<rparr>"
  using assms packet_bytes_list [OF assms(3)]
  by (simp add: sc_handle_packet_def Let_def blit_0)

text \<open>A packet up to its handler.\<close>

lemma sc_packet_request:
  assumes "sc_env_ok e" and idle: "sc_idle s"
    and t: "msg_code SWRMT_MSG_STATUS \<le> t" "t \<le> msg_code SWRMT_MSG_OTA_CHUNK"
    and p: "length (t # p) \<le> 255"
  shows "\<exists>s2. sc_inv s2 \<and> same_update s s2 \<and>
    s_req_buffer s2 = (t # p) @ drop (length (t # p)) (s_req_buffer s) \<and>
    sc_packet e i (t # p) s = and_then (sc_dispatch e i s2) (run_stages
      [sc_stage_metrics e i, sc_stage_log i, sc_stage_ota_start e i, sc_stage_ota_chunk e i,
       sc_stage_battery e i])"
proof -
  have len: "length (s_req_buffer s) = 255" using idle by (simp add: sc_idle_def sc_inv_def)
  define s1 where "s1 = s\<lparr>s_req_buffer := (t # p) @ drop (length (t # p)) (s_req_buffer s),
    s_req_received := True\<rparr>"
  have inv1: "sc_inv s1" using idle len p by (simp add: s1_def sc_idle_def sc_inv_def)
  obtain s' where s': "sc_stage_status s1 = Continue s'" "same_update s1 s'"
    "s_req_buffer s' = s_req_buffer s1" using status_stage_same by blast
  have inv': "sc_inv s'"
    by (rule sc_inv_stage [where f = sc_stage_status, OF assms(1) _ inv1 s'(1)]) (simp add: sc_stages_def)
  define s2 where "s2 = s'\<lparr>s_req_received := False\<rparr>"
  have "sc_packet e i (t # p) s = run_stages (sc_stages e i) s1"
    unfolding sc_packet_def s1_def by (simp only: sc_receives [OF t p len])
  also have "\<dots> = and_then (sc_dispatch e i s2) (run_stages
      [sc_stage_metrics e i, sc_stage_log i, sc_stage_ota_start e i, sc_stage_ota_chunk e i,
       sc_stage_battery e i])"
    using s' by (simp add: sc_stages_def s2_def sc_stage_request_def same_update_def s1_def)
  finally have "sc_packet e i (t # p) s = and_then (sc_dispatch e i s2) (run_stages
      [sc_stage_metrics e i, sc_stage_log i, sc_stage_ota_start e i, sc_stage_ota_chunk e i,
       sc_stage_battery e i])" .
  moreover have "sc_inv s2" using inv' by (simp add: s2_def sc_inv_def)
  moreover have "same_update s s2" "s_req_buffer s2 = (t # p) @ drop (length (t # p)) (s_req_buffer s)"
    using s'(2,3) idle by (simp_all add: s2_def s1_def same_update_def sc_idle_def)
  ultimately show ?thesis by blast
qed

text \<open>A whole packet: \<open>x\<close> is the update state behind the handler, \<open>y\<close> behind the update stages.\<close>

lemma sc_packet_result:
  assumes env: "sc_env_ok e" and idle: "sc_idle s"
    and t: "msg_code SWRMT_MSG_STATUS \<le> t" "t \<le> msg_code SWRMT_MSG_OTA_CHUNK" "length (t # p) \<le> 255"
    and request: "\<And>s2. sc_inv s2 \<Longrightarrow> same_update s s2 \<Longrightarrow>
      s_req_buffer s2 = (t # p) @ drop (length (t # p)) (s_req_buffer s) \<Longrightarrow>
      \<exists>s3. sc_dispatch e i s2 = Continue s3 \<and> same_update x s3"
    and log: "\<not> s_log_received x"
    and stages: "\<And>u. same_update x u \<Longrightarrow> sc_inv u \<Longrightarrow>
      \<exists>u'. run_stages [sc_stage_ota_start e i, sc_stage_ota_chunk e i] u = Continue u' \<and>
        same_update y u' \<and> sc_reply u' = m"
  shows "\<exists>s'. sc_packet e i (t # p) s = Continue s' \<and> sc_inv s' \<and> same_update y s' \<and> sc_reply s' = m"
proof -
  obtain s2 where s2: "sc_inv s2" "same_update s s2"
    "s_req_buffer s2 = (t # p) @ drop (length (t # p)) (s_req_buffer s)"
    "sc_packet e i (t # p) s = and_then (sc_dispatch e i s2) (run_stages
      [sc_stage_metrics e i, sc_stage_log i, sc_stage_ota_start e i, sc_stage_ota_chunk e i,
       sc_stage_battery e i])"
    using sc_packet_request [OF env idle t, of i] by blast
  obtain s3 where s3: "sc_dispatch e i s2 = Continue s3" "same_update x s3"
    using request [OF s2(1-3)] by blast
  have inv3: "sc_inv s3" using sc_inv_dispatch [OF env s2(1), of i] s3(1) by simp
  obtain s4 where s4: "sc_stage_metrics e i s3 = Continue s4" "same_update s3 s4"
    using metrics_stage_same by blast
  have inv4: "sc_inv s4"
    by (rule sc_inv_stage [where f = "sc_stage_metrics e i" and i = i, OF env _ inv3 s4(1)])
       (simp add: sc_stages_def)
  have x4: "same_update x s4" by (rule same_update_trans [OF s3(2) s4(2)])
  then have log4: "sc_stage_log i s4 = Continue s4"
    using log by (simp add: sc_stage_log_def same_update_def)
  obtain s6 where "run_stages [sc_stage_ota_start e i, sc_stage_ota_chunk e i] s4 = Continue s6"
    and y6: "same_update y s6" "sc_reply s6 = m" using stages [OF x4 inv4] by blast
  then obtain s5 where s5: "sc_stage_ota_start e i s4 = Continue s5" "sc_stage_ota_chunk e i s5 = Continue s6"
    by (auto simp: and_then_Continue_iff)
  have inv5: "sc_inv s5"
    by (rule sc_inv_stage [where f = "sc_stage_ota_start e i" and i = i, OF env _ inv4 s5(1)])
       (simp add: sc_stages_def)
  have inv6: "sc_inv s6"
    by (rule sc_inv_stage [where f = "sc_stage_ota_chunk e i" and i = i, OF env _ inv5 s5(2)])
       (simp add: sc_stages_def)
  obtain s' where s': "sc_stage_battery e i s6 = Continue s'" "same_update s6 s'" "s_out s' = s_out s6"
    using battery_stage_same by blast
  have "sc_inv s'"
    by (rule sc_inv_stage [where f = "sc_stage_battery e i" and i = i, OF env _ inv6 s'(1)])
       (simp add: sc_stages_def)
  moreover have "same_update y s'" by (rule same_update_trans [OF y6(1) s'(2)])
  ultimately show ?thesis using s2(4) s3(1) s4(1) log4 s5 s' y6(2) by (simp add: sc_reply_def)
qed

section \<open>Announcements\<close>

lemma sc_sends: "\<exists>n. in_connected i n \<Longrightarrow> sc_send i m s = Continue (sc_notify m s)"
  by (simp add: sc_send_def spin_cases)

lemma last_notify [simp]: "last (s_out (sc_notify m s)) = SE_MariTx SWARMIT_TX_DEFAULT m"
  by (simp add: sc_notify_def Let_def sc_emit_def blit_0)

lemma sc_drivers: "sc_nvmc_write = app_nvmc_write" "sc_erase_image = erase_image"
  by (simp_all add: fun_eq_iff sc_nvmc_write_def app_nvmc_write_def sc_erase_image_def erase_image_def
        pages_of_def APP_FLASH_PAGE_SIZE_def sc_nvmc_page_erase_def app_nvmc_page_erase_def)

lemma sc_start_stages:
  assumes "s_ota_start_request u" "\<not> s_ota_chunk_request u" and con: "\<exists>n. in_connected i n"
  shows "\<exists>u'. run_stages [sc_stage_ota_start e i, sc_stage_ota_chunk e i] u = Continue u' \<and>
    same_update (u\<lparr>s_ota_start_request := False, s_ota_require_erase := False,
      s_flash := if s_ota_require_erase u
        then erase_image (env_flash_hw e) (ota_image_size (s_ota u)) (s_flash u) else s_flash u\<rparr>) u' \<and>
    sc_reply u' = [msg_code SWRMT_MSG_OTA_START_ACK]"
proof -
  define m where "m = [msg_code SWRMT_MSG_OTA_START_ACK]"
  define u1 where "u1 = (if s_ota_require_erase u
    then u\<lparr>s_ota_start_request := False,
           s_flash := erase_image (env_flash_hw e) (ota_image_size (s_ota u)) (s_flash u),
           s_ota_require_erase := False\<rparr>
    else u\<lparr>s_ota_start_request := False\<rparr>)"
  have "sc_stage_ota_start e i u = Continue (sc_notify m u1)"
    using assms(1) by (simp add: sc_stage_ota_start_def Let_def sc_sends [OF con] u1_def m_def sc_drivers)
  moreover have "sc_stage_ota_chunk e i (sc_notify m u1) = Continue (sc_notify m u1)"
    using assms(2) by (simp add: sc_stage_ota_chunk_def u1_def sc_notify_def Let_def sc_emit_def)
  ultimately have "run_stages [sc_stage_ota_start e i, sc_stage_ota_chunk e i] u = Continue (sc_notify m u1)"
    by simp
  moreover have "sc_reply (sc_notify m u1) = m" by (simp add: sc_reply_def)
  moreover have "same_update (u\<lparr>s_ota_start_request := False, s_ota_require_erase := False,
      s_flash := if s_ota_require_erase u
        then erase_image (env_flash_hw e) (ota_image_size (s_ota u)) (s_flash u) else s_flash u\<rparr>) (sc_notify m u1)"
    by (rule same_update_trans [OF _ notify_same]) (simp add: same_update_def u1_def)
  ultimately show ?thesis unfolding m_def by blast
qed

text \<open>The single core between two packets of an announced update.\<close>

definition sc_session :: "bytes \<Rightarrow> (u32 \<Rightarrow> u32) \<Rightarrow> nat set \<Rightarrow> single \<Rightarrow> bool" where
  "sc_session fw c W s \<longleftrightarrow> sc_idle s \<and>
     ota_chunk_count (s_ota s) = of_nat (chunk_count fw) \<and>
     (\<forall>k < chunk_count fw. ota_last_chunk_acked (s_ota s) = of_nat k \<longrightarrow> k \<in> W \<and> s_ota_require_erase s) \<and>
     cells (s_flash s) = image_cells fw W c"

text \<open>The update state behind the announcement's handler.\<close>

definition announced :: "bytes \<Rightarrow> single \<Rightarrow> single" where
  "announced fw s = s\<lparr>s_ota := (s_ota s)\<lparr>ota_last_chunk_acked := - 1,
      ota_image_size := of_nat (length fw), ota_chunk_count := of_nat (chunk_count fw)\<rparr>,
    s_status := SWRMT_APPLICATION_PROGRAMMING, s_ota_start_request := True\<rparr>"

lemma sc_start_request:
  assumes idle: "sc_idle s" and s2: "same_update s s2" "s_req_buffer s2 = host_start_packet fw @ r"
  shows "\<exists>s3. sc_dispatch e i s2 = Continue s3 \<and> same_update (announced fw s) s3"
proof -
  have "ota_start_of (s_req_buffer s2) =
      \<lparr>os_image_size = of_nat (length fw), os_chunk_count = of_nat (chunk_count fw)\<rparr>"
    by (simp add: s2(2) host_start_packet_def ota_start_of_bytes)
  then have "sc_req_ota_start s2 = Continue (announced fw s2)"
    using idle s2(1)
    by (auto simp: sc_req_ota_start_def Let_def sc_on_ota_def announced_def sc_idle_def same_update_def)
  moreover have "sc_dispatch e i s2 = sc_req_ota_start s2"
    by (subst sc_dispatch_def) (simp add: s2(2) host_start_packet_def ota_start_bytes_def)
  moreover have "same_update (announced fw s) (announced fw s2)"
    using s2(1) by (simp add: same_update_def announced_def)
  ultimately show ?thesis by simp
qed

lemma sc_packet_start:
  assumes env: "sc_update_env e i ne" and fw: "length fw \<le> 2 ^ 31" and idle: "sc_idle s"
    and c: "c = (if s_ota_require_erase s then erase_pages fw (cells (s_flash s)) else cells (s_flash s))"
  shows "\<exists>s'. sc_packet e i (host_start_packet fw) s = Continue s' \<and> sc_session fw c {} s' \<and>
    s_status s' = SWRMT_APPLICATION_PROGRAMMING \<and> \<not> s_ota_require_erase s' \<and>
    sc_reply s' = [msg_code SWRMT_MSG_OTA_START_ACK]"
proof -
  let ?m = "[msg_code SWRMT_MSG_OTA_START_ACK]" and ?pkt = "host_start_packet fw"
  have e: "sc_env_ok e" "\<exists>n. in_connected i n" "nor_flash APP_FLASH_PAGE_SIZE (env_flash_hw e)"
    using env by (simp_all add: sc_update_env_def)
  obtain p where pkt: "?pkt = 0x84 # p" "length (0x84 # p) \<le> 255"
    by (simp add: host_start_packet_def ota_start_bytes_def)
  define y where "y = (announced fw s)\<lparr>s_ota_start_request := False, s_ota_require_erase := False,
    s_flash := if s_ota_require_erase s
      then erase_image (env_flash_hw e) (of_nat (length fw)) (s_flash s) else s_flash s\<rparr>"
  have stages: "\<exists>u'. run_stages [sc_stage_ota_start e i, sc_stage_ota_chunk e i] u = Continue u' \<and>
      same_update y u' \<and> sc_reply u' = ?m" if u: "same_update (announced fw s) u" for u
  proof -
    have "s_ota_start_request u" "\<not> s_ota_chunk_request u"
      using u idle by (simp_all add: announced_def sc_idle_def same_update_def)
    from sc_start_stages [OF this e(2), of e] show ?thesis
      using u by (auto simp: same_update_def y_def announced_def)
  qed
  have req: "\<exists>s3. sc_dispatch e i s2 = Continue s3 \<and> same_update (announced fw s) s3"
    if "same_update s s2" "s_req_buffer s2 = (0x84 # p) @ drop (length (0x84 # p)) (s_req_buffer s)" for s2
    by (rule sc_start_request [OF idle that(1)]) (simp only: pkt(1) that(2))
  have "\<not> s_log_received (announced fw s)" using idle by (simp add: announced_def sc_idle_def)
  moreover have "msg_code SWRMT_MSG_STATUS \<le> 0x84" "0x84 \<le> msg_code SWRMT_MSG_OTA_CHUNK" by simp_all
  ultimately obtain s' where s': "sc_packet e i ?pkt s = Continue s'" "sc_inv s'" "same_update y s'" "sc_reply s' = ?m"
    using sc_packet_result [OF e(1) idle _ _ pkt(2) req _ stages] unfolding pkt(1) by blast
  have "cells (s_flash s') = c"
    using s'(3) erase_image_pages [OF e(3) fw] by (simp add: same_update_def y_def c)
  then have "sc_session fw c {} s'"
    using s'(2,3) idle chunk_index_not_reset [OF fw]
    by (simp add: sc_session_def sc_idle_def same_update_def y_def announced_def image_cells_none)
  then show ?thesis using s' by (simp add: same_update_def y_def announced_def)
qed

section \<open>Chunks\<close>

definition ota_stored :: "u32 \<Rightarrow> bytes \<Rightarrow> ipc_ota \<Rightarrow> ipc_ota" where
  "ota_stored idx data o1 =
     (if ota_last_chunk_acked o1 = idx then o1\<lparr>ota_chunk_index := idx\<rparr>
      else o1\<lparr>ota_chunk_index := idx, ota_chunk_size := of_nat (length data),
              ota_chunk := blit 0 data (ota_chunk o1)\<rparr>)"

lemma sc_memcpy_chunk_fits:
  assumes inv: "sc_inv s" and fits: "length src \<le> 128"
  shows "sc_memcpy_chunk src s = s\<lparr>s_ota := (s_ota s)\<lparr>ota_chunk := blit 0 src (ota_chunk (s_ota s))\<rparr>\<rparr>"
proof -
  define new rest where "new = blit 0 src (ota_chunk (s_ota s))"
    and "rest = [pdu_length (s_tx_pdu s)] @ pdu_buffer (s_tx_pdu s)"
  have len: "length (ota_chunk (s_ota s)) = 128" "length (pdu_buffer (s_tx_pdu s)) = 255"
    using inv by (simp_all add: sc_inv_def)
  have new: "length new = 128" using fits len by (simp add: new_def)
  have m: "blit 0 src (sc_ota_tail s) = new @ rest"
    using fits len by (simp add: sc_ota_tail_def blit_def new_def rest_def)
  have "sub_bytes 129 255 (new @ rest) = pdu_buffer (s_tx_pdu s)" "get8 128 (new @ rest) = pdu_length (s_tx_pdu s)"
    using new len by (simp_all add: sub_bytes_def rest_def get8_def nth_append)
  then show ?thesis
    using new by (simp add: sc_memcpy_chunk_def m new_def [symmetric])
qed

lemma sc_tail_prefix:
  "sc_inv s \<Longrightarrow> n \<le> 128 \<Longrightarrow> take n (sc_ota_tail s) = take n (ota_chunk (s_ota s))"
  by (simp add: sc_ota_tail_def sc_inv_def)

lemma sc_store_chunk_result:
  assumes inv: "sc_inv s" and data: "length data \<le> 128" and sha: "length sha = 8"
    and buf: "s_req_buffer s = ota_chunk_bytes idx (of_nat (length data)) sha data @ r"
  shows "\<exists>h h'. sc_store_chunk e i \<lparr>oc_index = idx, oc_chunk_size = of_nat (length data)\<rparr> s =
      s\<lparr>s_ota := (s_ota s)\<lparr>ota_chunk_size := of_nat (length data),
                            ota_chunk := blit 0 data (ota_chunk (s_ota s))\<rparr>,
        s_expected_hash := h, s_computed_hash := h'\<rparr> \<and>
    take 8 h = sha \<and> h' = env_sha256 e data"
proof -
  note cb = chunk_buffer [OF sha data buf]
  have sz: "unat (of_nat (length data) :: u8) = length data" using data by (simp only: unat_of_nat) simp
  have usz: "unat (of_nat (length data) :: u32) = length data" using data by (intro of_nat_u32) simp
  have sz32: "(ucast (of_nat (length data) :: u8) :: u32) = of_nat (length data)"
    by (simp only: word_unat_eq_iff unat_ucast_u8 sz usz)
  define s1 where "s1 = sc_on_ota (\<lambda>o1. o1\<lparr>ota_chunk_size := of_nat (length data)\<rparr>) s"
  have s1: "sc_inv s1" using inv data usz by (simp add: s1_def sc_inv_def sc_on_ota_def)
  have src: "sc_chunk_source e i s1 (of_nat (length data)) = data"
    using cb(3) sz by (simp add: sc_chunk_source_def s1_def sc_on_ota_def)
  define s2 where "s2 = s1\<lparr>s_ota := (s_ota s1)\<lparr>ota_chunk := blit 0 data (ota_chunk (s_ota s1))\<rparr>\<rparr>"
  have s2: "sc_memcpy_chunk data s1 = s2" using sc_memcpy_chunk_fits [OF s1 data] by (simp add: s2_def)
  have "sc_inv s2" using s1 data by (simp add: s2_def sc_inv_def)
  then have read: "take (length data) (sc_ota_tail s2) = data"
    using data by (simp add: sc_tail_prefix s2_def blit_0)
  define h where "h = sub_bytes OTA_CHUNK_SHA SWRMT_OTA_SHA256_LENGTH (s_req_buffer s)"
  have "sc_ota_tail (s2\<lparr>s_expected_hash := h\<rparr>) = sc_ota_tail s2" by (simp add: sc_ota_tail_def)
  then have "sc_store_chunk e i \<lparr>oc_index = idx, oc_chunk_size = of_nat (length data)\<rparr> s =
      s2\<lparr>s_expected_hash := h, s_computed_hash := env_sha256 e data\<rparr>"
    using read usz
    by (simp add: sc_store_chunk_def Let_def sz32 s1_def [symmetric] src s2)
       (simp add: s2_def s1_def h_def sc_on_ota_def)
  moreover have "take 8 h = sha" using cb(2) by (simp add: h_def)
  ultimately show ?thesis by (auto simp: s2_def s1_def sc_on_ota_def)
qed

text \<open>The update state behind the chunk's handler.\<close>

definition taken :: "u32 \<Rightarrow> bytes \<Rightarrow> single \<Rightarrow> single" where
  "taken idx data s = s\<lparr>s_ota := ota_stored idx data (s_ota s), s_ota_chunk_request := True\<rparr>"

lemma sc_chunk_request:
  assumes idle: "sc_idle s" and inv: "sc_inv s2" and s2: "same_update s s2"
    and buf: "s_req_buffer s2 = ota_chunk_bytes idx (of_nat (length data)) (take 8 (env_sha256 e data)) data @ r"
    and data: "length data \<le> 128" and sha: "8 \<le> length (env_sha256 e data)"
    and idx: "idx < ota_chunk_count (s_ota s)"
  shows "\<exists>s3. sc_dispatch e i s2 = Continue s3 \<and> same_update (taken idx data s) s3"
proof -
  define s1 where "s1 = sc_on_ota (\<lambda>o1. o1\<lparr>ota_chunk_index := idx\<rparr>) s2"
  have st: "s_status s2 = SWRMT_APPLICATION_PROGRAMMING \<or> s_status s2 = SWRMT_APPLICATION_READY"
    "idx < ota_chunk_count (s_ota s2)"
    using idle s2 idx by (auto simp: sc_idle_def same_update_def)
  have pkt: "ota_chunk_of (s_req_buffer s2) = \<lparr>oc_index = idx, oc_chunk_size = of_nat (length data)\<rparr>"
    unfolding buf by (rule ota_chunk_of_bytes)
  have disp: "sc_dispatch e i s2 = sc_req_ota_chunk e i s2"
    by (subst sc_dispatch_def) (simp add: buf ota_chunk_bytes_def)
  show ?thesis
  proof (cases "ota_last_chunk_acked (s_ota s2) = idx")
    case True
    have "sc_req_ota_chunk e i s2 = Continue (s1\<lparr>s_ota_chunk_request := True\<rparr>)"
      using st True pkt by (auto simp: sc_req_ota_chunk_def Let_def s1_def not_le sc_on_ota_def)
    moreover have "same_update (taken idx data s) (s1\<lparr>s_ota_chunk_request := True\<rparr>)"
      using s2 True by (simp add: same_update_def taken_def ota_stored_def s1_def sc_on_ota_def)
    ultimately show ?thesis using disp by simp
  next
    case False
    have inv1: "sc_inv s1" using inv by (simp add: s1_def sc_inv_def sc_on_ota_def)
    have buf1: "s_req_buffer s1 = ota_chunk_bytes idx (of_nat (length data)) (take 8 (env_sha256 e data)) data @ r"
      using buf by (simp add: s1_def sc_on_ota_def)
    have sha8: "length (take 8 (env_sha256 e data)) = 8" using sha by simp
    obtain h h' where store: "sc_store_chunk e i \<lparr>oc_index = idx, oc_chunk_size = of_nat (length data)\<rparr> s1 =
        s1\<lparr>s_ota := (s_ota s1)\<lparr>ota_chunk_size := of_nat (length data),
                            ota_chunk := blit 0 data (ota_chunk (s_ota s1))\<rparr>,
          s_expected_hash := h, s_computed_hash := h'\<rparr>" (is "_ = ?t")
      and h: "take 8 h = take 8 (env_sha256 e data)" "h' = env_sha256 e data"
      using sc_store_chunk_result [OF inv1 data sha8 buf1, of e i] by blast
    have "sc_req_ota_chunk e i s2 = Continue (?t\<lparr>s_ota_chunk_request := True\<rparr>)"
      using st False pkt h
      by (auto simp: sc_req_ota_chunk_def Let_def s1_def [symmetric] store not_le)
         (auto simp: s1_def sc_on_ota_def)
    moreover have "same_update (taken idx data s) (?t\<lparr>s_ota_chunk_request := True\<rparr>)"
      using s2 False by (simp add: same_update_def taken_def ota_stored_def s1_def sc_on_ota_def)
    ultimately show ?thesis using disp by simp
  qed
qed

lemma write_words_prefix:
  assumes "take (4 * n) data = take (4 * n) data'"
  shows "nvmc_write_words hw addr data n f = nvmc_write_words hw addr data' n f"
proof -
  have "get32 (4 * i) data = get32 (4 * i) data'" if "i < n" for i
  proof -
    have "4 * i + 4 \<le> 4 * n" using that by simp
    then show ?thesis using assms get32_take by metis
  qed
  then show ?thesis unfolding nvmc_write_words_def by (intro fold_cong) simp_all
qed

lemma write_prefix:
  assumes "take len data = take len data'"
  shows "app_nvmc_write hw addr data len f = app_nvmc_write hw addr data' len f"
proof -
  have "take (4 * (len div 4)) data = take (4 * (len div 4)) data'"
    using arg_cong [OF assms, of "take (4 * (len div 4))"] by simp
  from write_words_prefix [OF this] show ?thesis by (simp only: app_nvmc_write_def)
qed

text \<open>The flash behind the write of a chunk.\<close>

definition chunk_written :: "flash_hw \<Rightarrow> u32 \<Rightarrow> bytes \<Rightarrow> single \<Rightarrow> flash" where
  "chunk_written hw idx data s =
     (if ota_last_chunk_acked (s_ota s) = idx then s_flash s
      else app_nvmc_write hw (chunk_addr SWARMIT_BASE_ADDRESS idx) data (length data) (s_flash s))"

lemma sc_write_taken:
  assumes u: "same_update (taken idx data s) u" "sc_inv u" and idle: "sc_idle s" and data: "length data \<le> 128"
  shows "s_flash (sc_write_chunk e u) = chunk_written (env_flash_hw e) idx data s"
    and "s_ota_require_erase (sc_write_chunk e u) \<longleftrightarrow>
      s_ota_require_erase s \<or> ota_last_chunk_acked (s_ota s) \<noteq> idx"
proof -
  have ota: "s_ota u = ota_stored idx data (s_ota s)" and f: "s_flash u = s_flash s"
    and er: "s_ota_require_erase u = s_ota_require_erase s" and base: "s_base_addr u = SWARMIT_BASE_ADDRESS"
    using u(1) idle by (simp_all add: same_update_def taken_def sc_idle_def)
  have usz: "unat (of_nat (length data) :: u32) = length data" using data by (intro of_nat_u32) simp
  show "s_ota_require_erase (sc_write_chunk e u) \<longleftrightarrow>
      s_ota_require_erase s \<or> ota_last_chunk_acked (s_ota s) \<noteq> idx"
    by (simp add: sc_write_chunk_def ota er ota_stored_def)
  show "s_flash (sc_write_chunk e u) = chunk_written (env_flash_hw e) idx data s"
  proof (cases "ota_last_chunk_acked (s_ota s) = idx")
    case False
    then have "ota_chunk (s_ota u) = blit 0 data (ota_chunk (s_ota s))" by (simp add: ota ota_stored_def)
    then have "take (length data) (sc_ota_tail u) = take (length data) data"
      using sc_tail_prefix [OF u(2) data] by (simp add: blit_0)
    note write_prefix [OF this]
    then show ?thesis
      using False by (simp add: sc_write_chunk_def chunk_written_def ota f base ota_stored_def usz sc_drivers
          chunk_addr_def SWRMT_OTA_CHUNK_SIZE_def)
  qed (simp add: sc_write_chunk_def chunk_written_def ota f ota_stored_def)
qed

lemma sc_write_frame [simp]:
  "s_base_addr (sc_write_chunk e u) = s_base_addr u"
  "s_ota_start_request (sc_write_chunk e u) = s_ota_start_request u"
  "s_req_received (sc_write_chunk e u) = s_req_received u"
  "s_log_received (sc_write_chunk e u) = s_log_received u"
  by (simp_all add: sc_write_chunk_def)

lemma sc_chunk_stages:
  assumes u: "\<not> s_ota_start_request u" "s_ota_chunk_request u" and con: "\<exists>n. in_connected i n"
    and idx: "idx = ota_chunk_index (s_ota u)"
  shows "\<exists>u'. run_stages [sc_stage_ota_start e i, sc_stage_ota_chunk e i] u = Continue u' \<and>
    same_update ((sc_write_chunk e u)\<lparr>s_ota_chunk_request := False,
      s_ota := (s_ota u)\<lparr>ota_last_chunk_acked := idx\<rparr>,
      s_status := if idx = ota_chunk_count (s_ota u) - 1 then SWRMT_APPLICATION_READY else s_status u\<rparr>) u' \<and>
    sc_reply u' = msg_code SWRMT_MSG_OTA_CHUNK_ACK # le32 idx"
proof -
  define m where "m = msg_code SWRMT_MSG_OTA_CHUNK_ACK # le32 idx"
  define u1 where "u1 = sc_write_chunk e (u\<lparr>s_ota_chunk_request := False\<rparr>)"
  define u2 where "u2 = sc_on_ota (\<lambda>o1. o1\<lparr>ota_last_chunk_acked := idx\<rparr>) u1"
  define u3 where "u3 = (if idx = ota_chunk_count (s_ota u) - 1
    then (sc_notify m u2)\<lparr>s_status := SWRMT_APPLICATION_READY\<rparr> else sc_notify m u2)"
  have u1: "s_ota u1 = s_ota u" by (simp add: u1_def sc_write_chunk_def)
  have u2: "s_ota (sc_notify m' u2) = (s_ota u)\<lparr>ota_last_chunk_acked := idx\<rparr>" for m'
    by (simp add: sc_notify_def Let_def sc_emit_def u2_def sc_on_ota_def u1)
  have "sc_stage_ota_chunk e i u = Continue u3"
    using u(2) unfolding sc_stage_ota_chunk_def Let_def u1_def [symmetric]
    by (simp add: u1 idx [symmetric] u2_def [symmetric] sc_sends [OF con] u3_def m_def u2)
  then have "run_stages [sc_stage_ota_start e i, sc_stage_ota_chunk e i] u = Continue u3"
    using u(1) by (simp add: sc_stage_ota_start_def)
  moreover have "sc_reply u3 = m"
    using last_notify [of m u2] by (simp add: u3_def sc_reply_def)
  moreover have "same_update ((sc_write_chunk e u)\<lparr>s_ota_chunk_request := False,
      s_ota := (s_ota u)\<lparr>ota_last_chunk_acked := idx\<rparr>,
      s_status := if idx = ota_chunk_count (s_ota u) - 1 then SWRMT_APPLICATION_READY else s_status u\<rparr>) u3"
    by (simp add: same_update_def u3_def sc_notify_def Let_def sc_emit_def u2_def sc_on_ota_def u1_def
          sc_write_chunk_def sc_ota_tail_def)
  ultimately show ?thesis unfolding m_def by blast
qed

text \<open>Any chunk whose index is below the announced count, of whatever image.\<close>

lemma sc_packet_any_chunk:
  assumes env: "sc_update_env e i ne" and idle: "sc_idle s"
    and k: "k < chunk_count fw" "of_nat k < ota_chunk_count (s_ota s)"
  shows "\<exists>s'. sc_packet e i (host_chunk_packet ne fw k) s = Continue s' \<and> sc_idle s' \<and>
    s_flash s' = chunk_written (env_flash_hw e) (of_nat k) (host_chunk fw k) s \<and>
    ota_last_chunk_acked (s_ota s') = of_nat k \<and> ota_chunk_count (s_ota s') = ota_chunk_count (s_ota s) \<and>
    (s_ota_require_erase s' \<longleftrightarrow> s_ota_require_erase s \<or> ota_last_chunk_acked (s_ota s) \<noteq> of_nat k) \<and>
    s_status s' = (if of_nat k = ota_chunk_count (s_ota s) - 1 then SWRMT_APPLICATION_READY else s_status s) \<and>
    sc_reply s' = msg_code SWRMT_MSG_OTA_CHUNK_ACK # le32 (of_nat k)"
proof -
  let ?d = "host_chunk fw k" and ?pkt = "host_chunk_packet ne fw k"
    and ?m = "msg_code SWRMT_MSG_OTA_CHUNK_ACK # le32 (of_nat k)"
  have e: "sc_env_ok e" "\<exists>n. in_connected i n" "env_ok ne" "env_sha256 e = env_sha256 ne"
    using env by (simp_all add: sc_update_env_def)
  have d: "length ?d \<le> 128" "8 \<le> length (env_sha256 e ?d)"
    using k(1) e(1) by (simp_all add: length_host_chunk sc_env_ok_def SWRMT_OTA_SHA256_LENGTH_def)
  obtain p where pkt: "?pkt = 0x85 # p" by (rule that [OF host_chunk_packet_Cons])
  have len: "length (0x85 # p) \<le> 255"
    using length_host_chunk_packet [OF e(3) k(1)] by (simp only: pkt)
  define x where "x = taken (of_nat k) ?d s"
  define y where "y = x\<lparr>s_ota_chunk_request := False,
    s_flash := chunk_written (env_flash_hw e) (of_nat k) ?d s,
    s_ota_require_erase := s_ota_require_erase s \<or> ota_last_chunk_acked (s_ota s) \<noteq> of_nat k,
    s_ota := (s_ota x)\<lparr>ota_last_chunk_acked := of_nat k\<rparr>,
    s_status := if of_nat k = ota_chunk_count (s_ota s) - 1 then SWRMT_APPLICATION_READY else s_status s\<rparr>"
  have req: "\<exists>s3. sc_dispatch e i s2 = Continue s3 \<and> same_update x s3"
    if "sc_inv s2" "same_update s s2"
      "s_req_buffer s2 = (0x85 # p) @ drop (length (0x85 # p)) (s_req_buffer s)" for s2
    unfolding x_def
    by (rule sc_chunk_request [OF idle that(1,2) _ d k(2)])
       (use that(3) in \<open>simp add: pkt [symmetric] host_chunk_packet_def Let_def e(4)\<close>)
  have stages: "\<exists>u'. run_stages [sc_stage_ota_start e i, sc_stage_ota_chunk e i] u = Continue u' \<and>
      same_update y u' \<and> sc_reply u' = ?m" if u: "same_update x u" "sc_inv u" for u
  proof -
    have "\<not> s_ota_start_request u" "s_ota_chunk_request u" "of_nat k = ota_chunk_index (s_ota u)"
      using u(1) idle by (simp_all add: x_def taken_def ota_stored_def sc_idle_def same_update_def)
    then obtain u' where u': "run_stages [sc_stage_ota_start e i, sc_stage_ota_chunk e i] u = Continue u'"
      "same_update ((sc_write_chunk e u)\<lparr>s_ota_chunk_request := False,
        s_ota := (s_ota u)\<lparr>ota_last_chunk_acked := of_nat k\<rparr>,
        s_status := if of_nat k = ota_chunk_count (s_ota u) - 1 then SWRMT_APPLICATION_READY else s_status u\<rparr>) u'"
      "sc_reply u' = ?m"
      using sc_chunk_stages [OF _ _ e(2), of u "of_nat k" e] by blast
    moreover have "same_update y ((sc_write_chunk e u)\<lparr>s_ota_chunk_request := False,
        s_ota := (s_ota u)\<lparr>ota_last_chunk_acked := of_nat k\<rparr>,
        s_status := if of_nat k = ota_chunk_count (s_ota u) - 1 then SWRMT_APPLICATION_READY else s_status u\<rparr>)"
      using u(1) sc_write_taken [OF u [unfolded x_def] idle d(1), of e]
      by (simp add: same_update_def y_def x_def taken_def ota_stored_def)
    ultimately show ?thesis using same_update_trans by blast
  qed
  have "\<not> s_log_received x" using idle by (simp add: x_def taken_def sc_idle_def)
  moreover have "msg_code SWRMT_MSG_STATUS \<le> 0x85" "0x85 \<le> msg_code SWRMT_MSG_OTA_CHUNK" by simp_all
  ultimately obtain s' where s': "sc_packet e i ?pkt s = Continue s'" "sc_inv s'" "same_update y s'" "sc_reply s' = ?m"
    using sc_packet_result [OF e(1) idle _ _ len req _ stages] unfolding pkt by blast
  then show ?thesis
    using idle by (auto simp: same_update_def y_def x_def taken_def ota_stored_def sc_idle_def)
qed

lemma sc_packet_chunk:
  assumes env: "sc_update_env e i ne" and fw: "length fw \<le> 2 ^ 31" and er: "image_erased fw c"
    and inv: "sc_session fw c W s" and k: "k < chunk_count fw"
  shows "\<exists>s'. sc_packet e i (host_chunk_packet ne fw k) s = Continue s' \<and> sc_session fw c (insert k W) s' \<and>
    s_status s' = (if k = chunk_count fw - 1 then SWRMT_APPLICATION_READY else s_status s) \<and>
    s_ota_require_erase s' \<and> sc_reply s' = msg_code SWRMT_MSG_OTA_CHUNK_ACK # le32 (of_nat k)"
proof -
  have hw: "nor_flash APP_FLASH_PAGE_SIZE (env_flash_hw e)" using env by (simp add: sc_update_env_def)
  have cc: "chunk_count fw < 2 ^ 32" by (rule chunk_count_small [OF fw])
  have idle: "sc_idle s" and count: "ota_chunk_count (s_ota s) = of_nat (chunk_count fw)"
    and flash: "cells (s_flash s) = image_cells fw W c"
    and acked: "ota_last_chunk_acked (s_ota s) = of_nat k \<Longrightarrow> k \<in> W \<and> s_ota_require_erase s"
    using inv k by (simp_all add: sc_session_def)
  have "(of_nat k :: u32) < ota_chunk_count (s_ota s)"
    using k cc by (simp add: count word_less_nat_alt of_nat_u32)
  then obtain s' where s': "sc_packet e i (host_chunk_packet ne fw k) s = Continue s'" "sc_idle s'"
    "s_flash s' = chunk_written (env_flash_hw e) (of_nat k) (host_chunk fw k) s"
    "ota_last_chunk_acked (s_ota s') = of_nat k" "ota_chunk_count (s_ota s') = ota_chunk_count (s_ota s)"
    "s_ota_require_erase s' \<longleftrightarrow> s_ota_require_erase s \<or> ota_last_chunk_acked (s_ota s) \<noteq> of_nat k"
    "s_status s' = (if of_nat k = ota_chunk_count (s_ota s) - 1 then SWRMT_APPLICATION_READY else s_status s)"
    "sc_reply s' = msg_code SWRMT_MSG_OTA_CHUNK_ACK # le32 (of_nat k)"
    using sc_packet_any_chunk [OF env idle k] by blast
  have cells: "cells (s_flash s') = image_cells fw (insert k W) c"
  proof (cases "ota_last_chunk_acked (s_ota s) = of_nat k")
    case True
    then show ?thesis using s'(3) flash acked by (simp add: chunk_written_def insert_absorb)
  next
    case False
    then have "cells (s_flash s') = chunk_ands fw k (image_cells fw W c)"
      using s'(3) flash write_chunk_ands [OF hw k fw, of "host_chunk fw k" "s_flash s"]
      by (simp add: chunk_written_def)
    then show ?thesis using chunk_ands_erased [of fw c k W] er by (simp add: image_erased_def)
  qed
  have "k' \<in> insert k W" if "k' < chunk_count fw" "ota_last_chunk_acked (s_ota s') = of_nat k'" for k'
    using that s'(4) k cc by (simp add: word_unat_eq_iff of_nat_u32)
  moreover have "s_ota_require_erase s'" using s'(6) acked by auto
  ultimately show ?thesis
    using s' count cells last_chunk_index [OF fw k] by (auto simp: sc_session_def)
qed

section \<open>Refinement\<close>

definition sc_announced :: "bytes \<Rightarrow> single \<Rightarrow> bool" where
  "sc_announced fw s \<longleftrightarrow>
     (\<exists>c W. sc_session fw c W s \<and> image_erased fw c \<and> (W = {} \<or> s_ota_require_erase s))"

lemma sc_announce_refines:
  assumes env: "sc_update_env e i ne" and fw: "length fw \<le> 2 ^ 31"
    and s: "sc_idle s \<and> s_ota_require_erase s \<or> sc_announced fw s"
  shows "\<exists>s'. sc_packet e i (host_start_packet fw) s = Continue s' \<and> sc_announced fw s' \<and>
    sc_updater_of s' = update_step fw Announce (sc_updater_of s)"
proof -
  define c where "c = (if s_ota_require_erase s then erase_pages fw (cells (s_flash s)) else cells (s_flash s))"
  have "sc_idle s" using s by (auto simp: sc_announced_def sc_session_def)
  then obtain s' where s': "sc_packet e i (host_start_packet fw) s = Continue s'" "sc_session fw c {} s'"
    "s_status s' = SWRMT_APPLICATION_PROGRAMMING" "\<not> s_ota_require_erase s'"
    "sc_reply s' = [msg_code SWRMT_MSG_OTA_START_ACK]"
    using sc_packet_start [OF env fw _ c_def] by blast
  have "image_erased fw c"
  proof (cases "s_ota_require_erase s")
    case False
    then obtain c0 where "sc_session fw c0 {} s" "image_erased fw c0"
      using s by (auto simp: sc_announced_def)
    then show ?thesis using False by (simp add: c_def sc_session_def image_cells_none)
  qed (simp add: c_def erase_pages_erased [OF fw])
  then have "sc_announced fw s'" using s'(2) unfolding sc_announced_def by blast
  moreover have "sc_updater_of s' = update_step fw Announce (sc_updater_of s)"
    using s'(2-5) by (simp add: sc_updater_of_def sc_session_def c_def image_cells_none)
  ultimately show ?thesis using s'(1) by blast
qed

lemma sc_chunk_refines:
  assumes env: "sc_update_env e i ne" and fw: "length fw \<le> 2 ^ 31"
    and s: "sc_announced fw s" and k: "k < chunk_count fw"
  shows "\<exists>s'. sc_packet e i (host_chunk_packet ne fw k) s = Continue s' \<and> sc_announced fw s' \<and>
    sc_updater_of s' = update_step fw (Chunk k) (sc_updater_of s)"
proof -
  obtain c W where c: "sc_session fw c W s" "image_erased fw c" using s by (auto simp: sc_announced_def)
  obtain s' where s': "sc_packet e i (host_chunk_packet ne fw k) s = Continue s'"
    "sc_session fw c (insert k W) s'"
    "s_status s' = (if k = chunk_count fw - 1 then SWRMT_APPLICATION_READY else s_status s)"
    "s_ota_require_erase s'" "sc_reply s' = msg_code SWRMT_MSG_OTA_CHUNK_ACK # le32 (of_nat k)"
    using sc_packet_chunk [OF env fw c(2,1) k] by blast
  have "sc_updater_of s' = update_step fw (Chunk k) (sc_updater_of s)"
    using s'(2-5) c(1) by (simp add: sc_updater_of_def sc_session_def store_chunk_cells)
  moreover have "sc_announced fw s'" using s'(2,4) c(2) unfolding sc_announced_def by blast
  ultimately show ?thesis using s'(1) by blast
qed

interpretation sc_updater: refinement "sc_update_env e i ne \<and> length fw \<le> 2 ^ 31" "valid_op fw"
    "sc_announced fw" "\<lambda>op. sc_packet e i (op_packet ne fw op)" "update_step fw" sc_updater_of
  for e i ne fw
proof unfold_locales
  fix op s
  assume a: "sc_update_env e i ne \<and> length fw \<le> 2 ^ 31" "valid_op fw op" "sc_announced fw s"
  show "\<exists>s'. sc_packet e i (op_packet ne fw op) s = Continue s' \<and> sc_announced fw s' \<and>
      sc_updater_of s' = update_step fw op (sc_updater_of s)"
  proof (cases op)
    case Announce
    have "\<exists>s'. sc_packet e i (host_start_packet fw) s = Continue s' \<and> sc_announced fw s' \<and>
        sc_updater_of s' = update_step fw Announce (sc_updater_of s)"
      by (rule sc_announce_refines [where ne = ne]) (use a in simp_all)
    then show ?thesis by (simp only: Announce op_packet.simps)
  next
    case (Chunk k)
    have "\<exists>s'. sc_packet e i (host_chunk_packet ne fw k) s = Continue s' \<and> sc_announced fw s' \<and>
        sc_updater_of s' = update_step fw (Chunk k) (sc_updater_of s)"
      by (rule sc_chunk_refines) (use a Chunk in simp_all)
    then show ?thesis by (simp only: Chunk op_packet.simps)
  qed
qed

text \<open>What the specification leaves of an update that starts with an erase does not depend on what was
  ready or replied before.\<close>

lemma update_fold_cong:
  assumes "up_cells u = up_cells v" "up_erase_due u = up_erase_due v"
  shows "fold (update_step fw) (Announce # ops) u = fold (update_step fw) (Announce # ops) v"
  using assms by simp

lemma sc_run_refines:
  assumes "sc_update_env e i ne" "length fw \<le> 2 ^ 31" "sc_idle s" "s_ota_require_erase s"
    and "list_all (valid_op fw) ops"
  shows "\<exists>s'. run_stages (map (\<lambda>op. sc_packet e i (op_packet ne fw op)) (Announce # ops)) s = Continue s' \<and>
    sc_announced fw s' \<and> sc_updater_of s' = fold (update_step fw) (Announce # ops) (sc_updater_of s)"
proof -
  obtain s1 where s1: "sc_packet e i (host_start_packet fw) s = Continue s1" "sc_announced fw s1"
    "sc_updater_of s1 = update_step fw Announce (sc_updater_of s)"
    using sc_announce_refines [OF assms(1,2)] assms(3,4) by blast
  then show ?thesis
    using sc_updater.run_refines [of e i ne fw ops s1] assms(1,2,5) by auto
qed

end
