(* ===== verification/User_Image.thy ===== *)
theory User_Image
  imports Lifecycle Gateway
begin

text \<open>
  The user image at run time, as the rest of the device sees it: any sequence of gateway calls, of
  stores to its own memory, the shared RAM and its part of the flash, and of hardware events. What
  such a sequence cannot change is \<open>confined\<close>: the partition, the boot intent, the reset reason, the
  watchdog that a stop starts, the bootloader's flash and RAM.
\<close>

lemma outcome_ok_mono: "outcome_ok P x \<Longrightarrow> (\<And>s. P s \<Longrightarrow> Q s) \<Longrightarrow> outcome_ok Q x"
  by (cases x) auto

section \<open>What a user image does\<close>

datatype user_action =
    KeepAlive app_input
  | SendDataPacket app_input bytes u32 u8
  | SendRawData app_input u32 u8
  | IpcIsr
  | InitRng app_input
  | ReadRng app_input u32
  | LogData u32 u32
  | GetBatteryLevel u32
  | GetPosition u32
  | LocalizationIsr app_input
  | SaadcRead app_input u8 u32
  | OwnStore u32 u8
  | OwnFlash u32 u32
  | SharedRam ipc_shared
  | IpcEvent ipc_channels_t
  | SpimEnd

text \<open>The last five are not calls: a store of the image to its RAM, a word it programs into its flash,
  what it or the network core leaves in the shared RAM, and two events of the hardware.\<close>

fun user_act :: "app_env \<Rightarrow> user_action \<Rightarrow> appcore \<Rightarrow> appcore outcome" where
  "user_act e (KeepAlive i) s = swarmit_keep_alive e i s"
| "user_act e (SendDataPacket i stack p n) s = swarmit_send_data_packet e i stack p n s"
| "user_act e (SendRawData i p n) s = swarmit_send_raw_data e i p n s"
| "user_act e IpcIsr s = Continue (swarmit_ipc_isr s)"
| "user_act e (InitRng i) s = swarmit_init_rng e i s"
| "user_act e (ReadRng i p) s = swarmit_read_rng e i p s"
| "user_act e (LogData p n) s = Continue (swarmit_log_data p n s)"
| "user_act e (GetBatteryLevel p) s = Continue (swarmit_get_battery_level p s)"
| "user_act e (GetPosition p) s = Continue (swarmit_localization_get_position p s)"
| "user_act e (LocalizationIsr i) s = Continue (swarmit_localization_handle_isr e i s)"
| "user_act e (SaadcRead i c p) s = Continue (swarmit_saadc_read e i c p s)"
| "user_act e (OwnStore p b) s = Continue (mem_store p [b] s)"
| "user_act e (OwnFlash x w) s = Continue (s\<lparr>a_flash := (a_flash s)\<lparr>cells := (cells (a_flash s))(x := w)\<rparr>\<rparr>)"
| "user_act e (SharedRam sh) s = Continue (s\<lparr>a_shared := sh\<rparr>)"
| "user_act e (IpcEvent ch) s = Continue (app_ipc_receive ch s)"
| "user_act e SpimEnd s = Continue (s\<lparr>a_spim4_end := True\<rparr>)"

text \<open>The \<open>n\<close> bytes from \<open>a\<close> on lie in the RAM behind the bootloader's.\<close>

definition user_ram :: "u32 \<Rightarrow> nat \<Rightarrow> bool" where
  "user_ram a n \<longleftrightarrow> 0x20006000 \<le> unat a \<and> unat a + n \<le> 0x20080000"

fun in_bounds :: "user_action \<Rightarrow> bool" where
  "in_bounds (SendDataPacket i stack p n) \<longleftrightarrow> n \<le> 253"
| "in_bounds (ReadRng i p) \<longleftrightarrow> user_ram p 1"
| "in_bounds (GetBatteryLevel p) \<longleftrightarrow> user_ram p 2"
| "in_bounds (GetPosition p) \<longleftrightarrow> user_ram p 8"
| "in_bounds (SaadcRead i c p) \<longleftrightarrow> user_ram p 2"
| "in_bounds (OwnStore p b) \<longleftrightarrow> user_ram p 1"
| "in_bounds (OwnFlash x w) \<longleftrightarrow> 0x10000 \<le> unat x"
| "in_bounds _ \<longleftrightarrow> True"

section \<open>What it cannot change\<close>

text \<open>A watchdog that is configured and reloaded as before, and runs if it ran.\<close>

definition untouched :: "watchdog \<Rightarrow> watchdog \<Rightarrow> bool" where
  "untouched w w' \<longleftrightarrow> wd_sleep_run w' = wd_sleep_run w \<and> wd_halt_pause w' = wd_halt_pause w \<and>
     wd_rr0_enabled w' = wd_rr0_enabled w \<and> wd_crv w' = wd_crv w \<and> wd_reloads w' = wd_reloads w \<and>
     (wd_started w \<longrightarrow> wd_started w')"

definition confined :: "appcore \<Rightarrow> appcore \<Rightarrow> bool" where
  "confined s s' \<longleftrightarrow>
     a_tz s' = a_tz s \<and> a_boot_intent s' = a_boot_intent s \<and> a_resetreas s' = a_resetreas s \<and>
     a_stop_starts_wdt1 s' = a_stop_starts_wdt1 s \<and>
     untouched (a_wdt1 s) (a_wdt1 s') \<and>
     (\<forall>x. unat x < 0x10000 \<longrightarrow> cells (a_flash s') x = cells (a_flash s) x) \<and>
     (\<forall>x. unat x < 0x20006000 \<longrightarrow> a_mem s' x = a_mem s x)"

lemma confined_refl [simp]: "confined s s"
  by (simp add: confined_def untouched_def)

lemma confined_trans: "confined s s1 \<Longrightarrow> confined s1 s2 \<Longrightarrow> confined s s2"
  by (simp add: confined_def untouched_def)

text \<open>A change of anything else.\<close>

lemma confined_same:
  assumes "a_tz s' = a_tz s" "a_boot_intent s' = a_boot_intent s" "a_resetreas s' = a_resetreas s"
    "a_stop_starts_wdt1 s' = a_stop_starts_wdt1 s" "a_wdt1 s' = a_wdt1 s" "a_flash s' = a_flash s"
    "a_mem s' = a_mem s"
  shows "confined s s'"
  using assms by (simp add: confined_def untouched_def)

lemma mem_store_other:
  assumes "\<And>k. k < length bs \<Longrightarrow> x \<noteq> a + of_nat k"
  shows "a_mem (mem_store a bs s) x = a_mem s x"
proof -
  have "fold (\<lambda>k m. m(a + of_nat k := bs ! k)) ks m x = m x" if "set ks \<subseteq> {..<length bs}" for ks m
    using that assms by (induction ks arbitrary: m) auto
  then show ?thesis by (simp add: mem_store_def atLeast0LessThan)
qed

lemma confined_store:
  assumes "user_ram a n" and "length bs \<le> n"
  shows "confined s (mem_store a bs s)"
proof -
  have "a_mem (mem_store a bs s) x = a_mem s x" if x: "unat x < 0x20006000" for x
  proof (rule mem_store_other)
    fix k assume k: "k < length bs"
    then have "unat a + k < 2 ^ 32" using assms by (simp add: user_ram_def)
    then have "unat (a + of_nat k) = unat a + k"
      by (simp add: unat_word_ariths of_nat_u32 unat_of_nat)
    then show "x \<noteq> a + of_nat k" using x assms(1) by (auto simp: user_ram_def)
  qed
  then show ?thesis by (simp add: confined_def) (simp add: mem_store_def untouched_def)
qed

lemma ipc_call_shape:
  "\<exists>sh out. let s1 = s\<lparr>a_shared := sh, a_out := out\<rparr> in
     ipc_network_call e t req s = Continue s1 \<or> ipc_network_call e t req s = Stuck s1"
proof -
  define s0 where "s0 = (if req \<noteq> IPC_REQ_NONE
    then app_emit (AE_IpcSend IPC_CHAN_REQ) (app_shared (\<lambda>sh. sh\<lparr>sh_req := req\<rparr>) s) else s)"
  obtain sh0 out0 where s0: "s0 = s\<lparr>a_shared := sh0, a_out := out0\<rparr>"
  proof (cases "req = IPC_REQ_NONE")
    case True
    then show ?thesis using that [where ?out0.0 = "a_out s" and ?sh0.0 = "a_shared s"] by (simp add: s0_def)
  qed (simp add: that s0_def app_upd_defs)
  have call: "ipc_network_call e t req s = and_then (wait_shared (ae_net e t (a_shared s0)) net_ack s0)
      (\<lambda>s2. Continue (app_shared (\<lambda>sh. sh\<lparr>net_ack := False\<rparr>) s2))"
    by (simp add: ipc_network_call_def Let_def s0_def)
  show ?thesis
  proof (rule wait_shared_cases [of "ae_net e t (a_shared s0)" net_ack s0])
    assume "wait_shared (ae_net e t (a_shared s0)) net_ack s0 = Stuck s0"
    then show ?thesis using call s0 by (simp add: Let_def) blast
  next
    fix k assume "wait_shared (ae_net e t (a_shared s0)) net_ack s0
        = Continue (s0\<lparr>a_shared := ae_net e t (a_shared s0) k\<rparr>)"
    then have "ipc_network_call e t req s = Continue (s\<lparr>a_shared :=
        (ae_net e t (a_shared s0) k)\<lparr>net_ack := False\<rparr>, a_out := out0\<rparr>)"
      using call s0 by (simp add: app_shared_def)
    then show ?thesis unfolding Let_def by blast
  qed
qed

lemma confined_call:
  assumes "\<And>sh out. confined s (s0\<lparr>a_shared := sh, a_out := out\<rparr>)" "a_loc s0 = a_loc s"
  shows "outcome_ok (\<lambda>s'. confined s s' \<and> a_loc s' = a_loc s) (ipc_network_call e t req s0)"
proof -
  obtain sh out where "ipc_network_call e t req s0 = Continue (s0\<lparr>a_shared := sh, a_out := out\<rparr>) \<or>
      ipc_network_call e t req s0 = Stuck (s0\<lparr>a_shared := sh, a_out := out\<rparr>)"
    using ipc_call_shape [of s0 e t req] by (auto simp: Let_def)
  then show ?thesis using assms by auto
qed

lemma confined_tx:
  assumes "confined s s0" "a_loc s0 = a_loc s"
  shows "outcome_ok (\<lambda>s'. confined s s' \<and> a_loc s' = a_loc s) (mari_node_tx e t m s0)"
  unfolding mari_node_tx_def
  by (rule confined_call) (use assms in \<open>auto simp: confined_def untouched_def app_shared_def\<close>)

definition sound :: "appcore \<Rightarrow> appcore \<Rightarrow> bool" where
  "sound s s' \<longleftrightarrow> confined s s' \<and> coords_ok (a_loc s')"

lemma sound_calls:
  "outcome_ok (\<lambda>s'. confined s s' \<and> a_loc s' = a_loc s) x \<Longrightarrow> coords_ok (a_loc s) \<Longrightarrow> outcome_ok (sound s) x"
  by (erule outcome_ok_mono) (simp add: sound_def)

lemma sound_keep_alive:
  assumes "app_env_ok e" and "coords_ok (a_loc s)"
  shows "outcome_ok (sound s) (swarmit_keep_alive e i s)"
proof -
  obtain p l where pl: "localization_get_position (ae_lh2 e) (a_loc s) = Some (p, l)" "coords_ok l"
    using get_position_defined [OF assms] by blast
  show ?thesis
    using assms(2) pl
    by (cases p) (auto simp: swarmit_keep_alive_def Let_def sound_def app_shared_def intro!: confined_same)
qed

lemma sound_read_rng:
  assumes "user_ram p 1" and "coords_ok (a_loc s)"
  shows "outcome_ok (sound s) (swarmit_read_rng e i p s)"
proof -
  have ok: "outcome_ok (\<lambda>s'. confined s s' \<and> a_loc s' = a_loc s) (ipc_network_call e (ai_time i) IPC_RNG_READ_REQ s)"
    (is "outcome_ok _ ?c") by (rule confined_call) (auto intro: confined_same)
  have "sound s (mem_store p [v] s1)" if "confined s s1" "a_loc s1 = a_loc s" for v s1
    using that confined_trans [OF that(1) confined_store [OF assms(1), of "[v]"]] assms(2)
    by (simp add: sound_def mem_store_def)
  then show ?thesis
    using ok assms(2) by (cases ?c) (auto simp: swarmit_read_rng_def rng_read_def sound_def)
qed

lemma sound_position:
  assumes "user_ram p 8" and "coords_ok (a_loc s)"
  shows "sound s (swarmit_localization_get_position p s)"
proof -
  define s1 where "s1 = mem_store p (le32 (pos_x (current_position (a_shared s)))) s"
  have u: "user_ram p 4" using assms(1) by (simp add: user_ram_def)
  have "unat (p + 4) = unat p + 4" using assms(1) by (simp add: unat_word_ariths user_ram_def)
  then have u4: "user_ram (p + 4) 4" using assms(1) by (simp add: user_ram_def)
  have "confined s1 (mem_store (p + 4) (le32 (pos_y (current_position (a_shared s1)))) s1)"
    by (rule confined_store [OF u4]) simp
  moreover have "confined s s1" unfolding s1_def by (rule confined_store [OF u]) simp
  ultimately have "confined s (swarmit_localization_get_position p s)"
    using confined_trans by (simp add: swarmit_localization_get_position_def Let_def s1_def)
  then show ?thesis
    using assms(2) by (simp add: sound_def swarmit_localization_get_position_def Let_def mem_store_def)
qed

lemma process_data_coords:
  "localization_process_data le g l = (d, l') \<Longrightarrow> loc_coordinates l' = loc_coordinates l"
  by (auto simp: localization_process_data_def Let_def)

lemma user_act_sound:
  assumes e: "app_env_ok e" and ok: "coords_ok (a_loc s)" and "in_bounds act"
  shows "outcome_ok (sound s) (user_act e act s)"
proof (cases act)
  case (KeepAlive i)
  then show ?thesis using sound_keep_alive [OF e ok] by simp
next
  case (SendDataPacket i stack p n)
  then have "\<not> 253 < unat n" using assms(3) by (simp add: word_le_nat_alt)
  then show ?thesis
    using SendDataPacket ok
    by (auto simp: swarmit_send_data_packet_def Let_def intro!: sound_calls confined_tx confined_same)
next
  case (SendRawData i p n)
  then show ?thesis
    using ok by (auto simp: swarmit_send_raw_data_def intro!: sound_calls confined_tx)
next
  case (InitRng i)
  then show ?thesis
    using ok by (auto simp: swarmit_init_rng_def rng_init_def intro!: sound_calls confined_call confined_same)
next
  case (ReadRng i p)
  then show ?thesis using sound_read_rng [OF _ ok] assms(3) by simp
next
  case (GetPosition p)
  then show ?thesis using sound_position [OF _ ok] assms(3) by simp
next
  case (LocalizationIsr i)
  then show ?thesis
    using ok by (auto simp: swarmit_localization_handle_isr_def Let_def sound_def coords_ok_def
        split: prod.split dest!: process_data_coords intro!: confined_same)
next
  case (OwnFlash x w)
  then show ?thesis using ok assms(3) by (auto simp: sound_def confined_def untouched_def)
next
  case (IpcEvent ch)
  then show ?thesis using ok by (auto simp: sound_def confined_def untouched_def app_ipc_receive_def Let_def)
next
  case (SaadcRead i c p)
  have "confined (app_emit (AE_SaadcRead c) s) (mem_store p (le16 (ai_saadc i)) (app_emit (AE_SaadcRead c) s))"
    using SaadcRead assms(3) by (intro confined_store [of p 2]) simp_all
  moreover have "confined s (app_emit (AE_SaadcRead c) s)" by (rule confined_same) (simp_all add: app_emit_def)
  ultimately show ?thesis
    using SaadcRead ok confined_trans
    by (auto simp: swarmit_saadc_read_def sound_def) (simp_all add: mem_store_def app_emit_def)
next
  case (GetBatteryLevel p)
  then have "confined s (swarmit_get_battery_level p s)"
    using assms(3) unfolding swarmit_get_battery_level_def by (intro confined_store [of p 2]) simp_all
  then show ?thesis
    using GetBatteryLevel ok by (simp add: sound_def) (simp add: swarmit_get_battery_level_def mem_store_def)
next
  case (OwnStore p b)
  then have "confined s (mem_store p [b] s)" using assms(3) by (intro confined_store [of p 1]) simp_all
  then show ?thesis using OwnStore ok by (simp add: sound_def) (simp add: mem_store_def)
qed (use ok in \<open>auto simp: sound_def swarmit_ipc_isr_def take_event_def app_emit_def swarmit_log_data_def
    app_shared_def intro!: confined_same\<close>)

section \<open>How it starts\<close>

text \<open>The stop channel is connected to watchdog 1, which then allows 32768 ticks of its 32768 Hz clock.\<close>

definition armed :: "appcore \<Rightarrow> bool" where
  "armed s \<longleftrightarrow> a_stop_starts_wdt1 s \<and> wd_rr0_enabled (a_wdt1 s) \<and> wd_sleep_run (a_wdt1 s) \<and>
     \<not> wd_halt_pause (a_wdt1 s) \<and> wd_crv (a_wdt1 s) = 32767"

text \<open>What bringing up the network core leaves alone.\<close>

definition same_setup :: "appcore \<Rightarrow> appcore \<Rightarrow> bool" where
  "same_setup s s' \<longleftrightarrow> same_boot s s' \<and> a_wdt1 s' = a_wdt1 s \<and> a_stop_starts_wdt1 s' = a_stop_starts_wdt1 s \<and>
     spu_flash (a_tz s') = spu_flash (a_tz s) \<and> spu_ram (a_tz s') = spu_ram (a_tz s) \<and>
     a_loc s' = a_loc s \<and> a_mem s' = a_mem s"

lemma same_setup_trans: "same_setup s s1 \<Longrightarrow> same_setup s1 s2 \<Longrightarrow> same_setup s s2"
  by (simp add: same_setup_def same_boot_def)

lemma boot_network_keeps:
  assumes "boot_network e i s = Continue s'"
  shows "same_setup s s'"
proof -
  have wait: "same_setup s0 s1" if "wait_shared w until s0 = Continue s1" for w until s0 s1
    using that by (rule_tac wait_shared_cases [of w until s0]) (auto simp: same_setup_def same_boot_def)
  obtain s1 s2 s3 where s1: "release_network_core e (ai_time i) s = Continue s1"
    and s2: "(if net_ready (a_shared s1) then Continue s1
      else wait_shared (ae_net e (ai_time i) (a_shared s1)) net_ready s1) = Continue s2"
    and s3: "app_mari_init e (ai_time i) s2 = Continue s3"
    and s': "s' = (app_shared (\<lambda>sh. sh\<lparr>battery_level := battery_level_read (ae_lh2 e) (ai_saadc i)\<rparr>) s3)
         \<lparr>a_tz := clear_target IPC_IRQn (clear_target SPIM4_IRQn (a_tz s3))\<rparr>"
    using assms by (auto simp: boot_network_def and_then_Continue_iff)
  have "same_setup s s1"
    using s1 wait by (fastforce simp: release_network_core_def Let_def same_setup_def same_boot_def app_shared_def split: if_splits)
  moreover have "same_setup s1 s2"
    using s2 wait by (auto simp: same_setup_def same_boot_def split: if_splits)
  moreover have "same_setup s2 s3"
    using s3 ipc_call_shape [of "s2\<lparr>a_tz := tz_configure_periph_non_secure (ae_mdk e) 48 (a_tz s2)\<rparr>" e "ai_time i" IPC_MARI_INIT_REQ]
    by (auto simp: app_mari_init_def Let_def same_setup_def same_boot_def tz_configure_periph_non_secure_def)
  moreover have "same_setup s3 s'"
    by (simp add: s' same_setup_def same_boot_def app_shared_def clear_target_def)
  ultimately show ?thesis using same_setup_trans by blast
qed

lemma boot_user_image_keeps:
  assumes "boot_user_image e s = Stuck s'"
  shows "a_wdt1 s' = a_wdt1 s" "a_stop_starts_wdt1 s' = a_stop_starts_wdt1 s" "a_flash s' = a_flash s"
    "a_mem s' = a_mem s" "a_boot_intent s' = a_boot_intent s" "a_resetreas s' = a_resetreas s"
    "loc_coordinates (a_loc s') = loc_coordinates (a_loc s)"
    "\<exists>z. setup_ns_user (ae_mdk e) (ae_board e) (a_tz s) = Some z \<and>
       spu_flash (a_tz s') = spu_flash z \<and> spu_ram (a_tz s') = spu_ram z"
  using assms setup_ns_user_result [of "ae_mdk e" "ae_board e" "a_tz s"]
  by (auto simp: boot_user_image_def Let_def with_tz_def init_localization_def setup_watchdog0_def
        app_emit_def app_shared_def set_target_def split: if_splits option.splits dest: coords_init)

definition partitioned :: "mdk \<Rightarrow> tz_state \<Rightarrow> bool" where
  "partitioned m z \<longleftrightarrow> (\<forall>r. unat r < 64 \<longrightarrow> flash_region_secure m z r = (unat r < 4)) \<and>
     (\<forall>r. unat r < 52 \<longrightarrow> ram_region_secure m z r = (unat r < 3))"

lemma setup_partitions:
  assumes m: "mdk_ok m" and z1: "main_configure_tz m z = Some z1"
    and same: "spu_flash z2 = spu_flash z1" "spu_ram z2 = spu_ram z1"
    and z3: "setup_ns_user m b z2 = Some z3"
  shows "partitioned m z3"
proof -
  obtain z4 where z4: "setup_ns_user m b z1 = Some z4"
    "\<forall>r. unat r < 64 \<longrightarrow> flash_region_secure m z4 r = (unat r < 4)"
    "\<forall>r. unat r < 52 \<longrightarrow> ram_region_secure m z4 r = (unat r < 3)"
    using set_up_partition [OF m, of z b] z1 by auto
  have "spu_flash z3 = spu_flash z4" "spu_ram z3 = spu_ram z4"
    using setup_ns_user_result [of m b z1] setup_ns_user_result [of m b z2] z3 z4(1) same by auto
  then show ?thesis
    using z4(2,3) by (simp add: partitioned_def flash_region_secure_def ram_region_secure_def)
qed

lemma prepare_arms:
  "\<exists>s'. boot_prepare e s = Continue s' \<and> same_boot s s' \<and> armed s' \<and>
     main_configure_tz (ae_mdk e) (a_tz s) = Some (a_tz s') \<and> a_loc s' = a_loc s \<and> a_mem s' = a_mem s"
proof -
  obtain z where "main_configure_tz (ae_mdk e) (a_tz s) = Some z"
    using main_configure_tz_result by blast
  then show ?thesis
    by (simp add: boot_prepare_def with_tz_def same_boot_def app_shared_def setup_watchdog1_def armed_def)
qed

text \<open>The bootloader's \<open>main\<close>, when it starts the image and when it stays.\<close>

lemma main_starts_image:
  assumes net: "net_starts e (ai_time i)" and boot: "boots_user_image e s0" and m: "mdk_ok (ae_mdk e)"
  shows "\<exists>s. app_main_init e i s0 = Stuck s \<and> a_boot_intent s = 0 \<and> a_resetreas s = 0 \<and>
    last (a_out s) = AE_JumpNonSecure 0x10000 (cells (a_flash s0) 0x10000) (cells (a_flash s0) 0x10004 AND NOT 1) \<and>
    a_flash s = a_flash s0 \<and> a_mem s = a_mem s0 \<and> loc_coordinates (a_loc s) = loc_coordinates (a_loc s0) \<and>
    armed s \<and> partitioned (ae_mdk e) (a_tz s)"
proof -
  obtain s1 where s1: "boot_prepare e s0 = Continue s1" "same_boot s0 s1" "armed s1"
    "main_configure_tz (ae_mdk e) (a_tz s0) = Some (a_tz s1)" "a_loc s1 = a_loc s0" "a_mem s1 = a_mem s0"
    using prepare_arms [of e s0] by blast
  obtain s2 where s2: "boot_network e i s1 = Continue s2"
    using boot_network_returns [OF net] by blast
  note keep = boot_network_keeps [OF s2]
  define s3 where "s3 = s2\<lparr>a_resetreas := a_resetreas s2 AND NOT (a_resetreas s2), a_boot_intent := 0\<rparr>"
  obtain s4 where s4: "boot_user_image e s3 = Stuck s4" "last (a_out s4) = AE_JumpNonSecure 0x10000
      (cells (a_flash s3) 0x10000) (cells (a_flash s3) 0x10004 AND NOT 1)"
    using boot_user_image_result [of e s3] by blast
  have "boots_user_image e s2"
    using boot s1(2) keep by (simp add: boots_user_image_def same_boot_def same_setup_def)
  then have main: "app_main_init e i s0 = Stuck s4"
    using s1(1) s2 s4(1) by (simp add: app_main_init_def boot_select_def Let_def s3_def)
  obtain z where z: "setup_ns_user (ae_mdk e) (ae_board e) (a_tz s3) = Some z"
    "spu_flash (a_tz s4) = spu_flash z" "spu_ram (a_tz s4) = spu_ram z"
    using boot_user_image_keeps(8) [OF s4(1)] by blast
  have "partitioned (ae_mdk e) z"
    by (rule setup_partitions [OF m s1(4) _ _ z(1)]) (use keep in \<open>simp_all add: s3_def same_setup_def\<close>)
  then have "partitioned (ae_mdk e) (a_tz s4)"
    using z(2,3) by (simp add: partitioned_def flash_region_secure_def ram_region_secure_def)
  moreover have "armed s4"
    using s1(3) keep boot_user_image_keeps(1,2) [OF s4(1)] by (simp add: armed_def s3_def same_setup_def)
  ultimately show ?thesis
    using main s4(2) s1 keep boot_user_image_keeps(3-7) [OF s4(1)]
    by (auto simp: s3_def same_setup_def same_boot_def)
qed

lemma main_stays:
  assumes "net_starts e (ai_time i)" and "\<not> boots_user_image e s"
  shows "\<exists>s'. app_main_init e i s = Continue s' \<and> sh_status (a_shared s') = SWRMT_APPLICATION_READY \<and>
    a_ota_require_erase s' \<and> a_base_addr s' = SWARMIT_BASE_ADDRESS \<and> a_boot_intent s' = 0 \<and>
    a_flash s' = a_flash s"
proof -
  obtain s1 where s1: "boot_prepare e s = Continue s1" "same_boot s s1"
    using boot_prepare_returns by blast
  obtain s2 where s2: "boot_network e i s1 = Continue s2" "same_boot s1 s2"
    using boot_network_returns [OF assms(1)] by blast
  have "\<not> boots_user_image e s2" "a_flash s2 = a_flash s"
    using assms(2) s1(2) s2(2) by (simp_all add: boots_user_image_def same_boot_def)
  then show ?thesis
    using s1(1) s2(1) by (simp add: app_main_init_def boot_select_def boot_bootloader_def app_shared_def)
qed

section \<open>How it runs\<close>

lemma user_run_sound:
  assumes "app_env_ok e"
  shows "list_all in_bounds acts \<Longrightarrow> coords_ok (a_loc s) \<Longrightarrow>
    outcome_ok (sound s) (run_stages (map (user_act e) acts) s)"
proof (induction acts arbitrary: s)
  case (Cons act acts)
  then have act: "outcome_ok (sound s) (user_act e act s)"
    using user_act_sound [OF assms] by simp
  show ?case
  proof (cases "user_act e act s")
    case (Continue s1)
    then have s1: "sound s s1" using act by simp
    have "coords_ok (a_loc s1)"
      using s1 by (simp add: sound_def)
    then have "outcome_ok (sound s1) (run_stages (map (user_act e) acts) s1)"
      using Cons.IH [of s1] Cons.prems(1) by simp
    then show ?thesis
      using Continue s1 confined_trans
      by (cases "run_stages (map (user_act e) acts) s1") (auto simp: sound_def)
  qed (use act in simp_all)
qed (simp add: sound_def)

end
