(* ===== verification/User_Properties.thy ===== *)
theory User_Properties
  imports User_Image Device_Properties Lifecycle_Properties
begin

text \<open>
  What the bootloader promises about a user image it does not trust: the image stays behind the
  partition whatever it does, and a stop from the radio brings the bootloader back.
\<close>

section \<open>Confinement\<close>

lemma partitioned_secure:
  "partitioned m z \<Longrightarrow> a < 0x20068000 \<Longrightarrow>
    secure_address m z a \<longleftrightarrow> a < 0x10000 \<or> 0x20000000 \<le> a \<and> a < 0x20006000"
  by (rule secure_address_partitioned) (simp_all add: partitioned_def)

text \<open>What holds while an image started from \<open>s0\<close> runs.\<close>

definition behind_partition :: "app_env \<Rightarrow> appcore \<Rightarrow> appcore \<Rightarrow> bool" where
  "behind_partition e s0 s \<longleftrightarrow> armed s \<and> partitioned (ae_mdk e) (a_tz s) \<and>
     a_boot_intent s = 0 \<and> a_resetreas s = 0 \<and> coords_ok (a_loc s) \<and>
     (\<forall>x. unat x < 0x10000 \<longrightarrow> cells (a_flash s) x = cells (a_flash s0) x) \<and>
     (\<forall>x. unat x < 0x20006000 \<longrightarrow> a_mem s x = a_mem s0 x)"

lemma behind_partition_sound:
  "behind_partition e s0 s \<Longrightarrow> sound s s' \<Longrightarrow> behind_partition e s0 s'"
  by (simp add: behind_partition_def sound_def confined_def untouched_def armed_def)

lemma behind_partition_run:
  assumes "app_env_ok e" and "list_all in_bounds acts" and "behind_partition e s0 s"
  shows "outcome_ok (\<lambda>s'. behind_partition e s0 s' \<and> untouched (a_wdt1 s) (a_wdt1 s'))
    (run_stages (map (user_act e) acts) s)"
proof -
  have "outcome_ok (sound s) (run_stages (map (user_act e) acts) s)"
    using assms by (intro user_run_sound) (simp_all add: behind_partition_def)
  then show ?thesis
    by (rule outcome_ok_mono)
      (use behind_partition_sound [OF assms(3)] in \<open>auto simp: sound_def confined_def\<close>)
qed

lemma image_behind_partition:
  assumes "net_starts e (ai_time i)" "boots_user_image e s0" "mdk_ok (ae_mdk e)" "coords_ok (a_loc s0)"
  shows "\<exists>s. app_main_init e i s0 = Stuck s \<and> behind_partition e s0 s \<and>
    last (a_out s) = AE_JumpNonSecure 0x10000 (cells (a_flash s0) 0x10000) (cells (a_flash s0) 0x10004 AND NOT 1)"
  using main_starts_image [OF assms(1-3)] assms(4)
  by (fastforce simp: behind_partition_def coords_ok_def)


text \<open>A device about to start an image, and an image that polls the secure functions.\<close>

definition ex_booting :: appcore where
  "ex_booting = ex_app\<lparr>a_boot_intent := SWRMT_BOOT_INTENT_USER_IMAGE, a_resetreas := ae_sreq ex_app_env\<rparr>"

definition ex_acts :: "user_action list" where
  "ex_acts = [KeepAlive ex_app_input, GetBatteryLevel 0x20010000, OwnFlash 0x20000 1, IpcIsr]"

lemma ex_booting_boots: "boots_user_image ex_app_env ex_booting" "coords_ok (a_loc ex_booting)"
  "net_starts ex_app_env (ai_time ex_app_input)" "list_all in_bounds ex_acts" "mdk_ok (ae_mdk ex_app_env)"
proof -
  show "coords_ok (a_loc ex_booting)"
    using ex_app_inv by (simp add: ex_booting_def app_inv_def coords_ok_def)
qed (simp_all add: boots_user_image_def ex_booting_def ex_app_env_def net_starts_def ex_acts_def user_ram_def)


section \<open>The stop\<close>

lemma soc_net_stop:
  assumes "env_ok ne" "probe_distinct ne" "net_inv n" and st: "n_status n = SWRMT_APPLICATION_RUNNING"
  shows "\<exists>n'. soc_net ne [msg_code SWRMT_MSG_STOP] n = Continue n' \<and> net_inv n' \<and>
    n_status n' = SWRMT_APPLICATION_STOPPING \<and> n_out n' = n_out n @ [NE_IpcSend IPC_CHAN_APPLICATION_STOP]"
proof -
  define N where "N = n\<lparr>n_req_buffer := [0x82] @ drop 1 (n_req_buffer n), n_req_received := False\<rparr>"
  have len: "length (n_req_buffer n) = 255" using assms(3) by (simp add: net_inv_def)
  have net: "soc_net ne [0x82] n = net_dispatch ne N"
    using soc_net_request [OF assms(2), of "0x82" "[]" n] len by (simp add: N_def is_request_def)
  have disp: "net_dispatch ne N = net_req_stop N"
    by (subst net_dispatch_def) (simp add: N_def msg_of_code_def all_msgs_def)
  have N: "net_inv N" using assms(3) len by (simp add: N_def net_inv_def)
  obtain n' where n': "net_req_stop N = Continue n'" "n_status n' = SWRMT_APPLICATION_STOPPING"
    "n_out n' = n_out n @ [NE_IpcSend IPC_CHAN_APPLICATION_STOP]"
    using st by (simp add: net_req_stop_def N_def set_status_def on_shared_def emit_def)
  then show ?thesis
    using net_inv_dispatch [OF N assms(1)] net disp by simp
qed

text \<open>The stop event reaches the watchdog without any code of the image.\<close>

lemma stop_event:
  assumes "behind_partition e s0 s"
  shows "behind_partition e s0 (app_irq (AppIpcReceive IPC_CHAN_APPLICATION_STOP) s)"
    and "wd_started (a_wdt1 (app_irq (AppIpcReceive IPC_CHAN_APPLICATION_STOP) s))"
    and "wd_reloads (a_wdt1 (app_irq (AppIpcReceive IPC_CHAN_APPLICATION_STOP) s)) = wd_reloads (a_wdt1 s)"
  using assms by (simp_all add: behind_partition_def armed_def app_ipc_receive_def Let_def)

lemma stop_lasts:
  assumes "app_env_ok e" "list_all in_bounds acts" "behind_partition e s0 s"
  shows "outcome_ok (\<lambda>s'. behind_partition e s0 s' \<and> wd_started (a_wdt1 s') \<and>
      wd_reloads (a_wdt1 s') = wd_reloads (a_wdt1 s))
    (run_stages (map (user_act e) acts) (app_irq (AppIpcReceive IPC_CHAN_APPLICATION_STOP) s))"
  by (rule outcome_ok_mono [OF behind_partition_run [OF assms(1,2) stop_event(1) [OF assms(3)]]])
    (use stop_event(2,3) [OF assms(3)] in \<open>simp add: untouched_def\<close>)


text \<open>A network core beside a running image, and a device whose RAM holds the cleared intent.\<close>

definition ex_running_net :: netcore where
  "ex_running_net = ex_net\<lparr>n_shared := (n_shared ex_net)\<lparr>sh_status := SWRMT_APPLICATION_RUNNING\<rparr>\<rparr>"

definition ex_cleared_core :: core where
  "ex_cleared_core = ex_core\<lparr>c_mem := (c_mem ex_core)(0x20000300 := 0)\<rparr>"


end
