(* ===== verification/Calibration.thy ===== *)
theory Calibration
  imports Net_Properties Ota Controller "HOL-Library.Sublist"
begin

text \<open>
  A lighthouse calibration from the file the controller reads (\<open>send_lh2_calibration\<close> of
  \<open>swarmit/testbed/controller.py\<close>) to the matrices the bootloader locates with: the file's checks, the
  packets, sent several times each over a radio that loses them, the network core's session
  (\<open>net_req_lh2_calibration\<close>), the configuration page, the reset and the calibration event.
\<close>

section \<open>The controller\<close>

datatype calibration_error = Empty_File | Invalid_Size | Count_Mismatch | Count_Zero | Count_Over_Limit

definition COMMAND_MAX_ATTEMPTS :: nat where
  "COMMAND_MAX_ATTEMPTS = 5"

definition calibration_packet :: "nat \<Rightarrow> nat \<Rightarrow> bytes \<Rightarrow> bytes" where
  "calibration_packet count idx m =
     msg_code SWRMT_MSG_LH2_CALIBRATION # le32 (of_nat count) @ le32 (of_nat idx) @ m"

definition file_matrix :: "bytes \<Rightarrow> nat \<Rightarrow> bytes" where
  "file_matrix file i = take 36 (drop (36 * i) (drop 1 file))"

text \<open>The payloads that are sent, in their order, with their destinations; \<open>ready\<close> are the ready devices.\<close>

definition send_lh2_calibration :: "bytes \<Rightarrow> addr list \<Rightarrow> calibration_error + (addr \<times> bytes) list" where
  "send_lh2_calibration file ready =
     (if file = [] then Inl Empty_File
      else if length file < 1 \<or> (length file - 1) mod 36 \<noteq> 0 then Inl Invalid_Size
      else let count = unat (hd file)
        in if count \<noteq> length (drop 1 file) div 36 then Inl Count_Mismatch
           else if count = 0 then Inl Count_Zero
           else if 16 < count then Inl Count_Over_Limit
           else Inr (concat (map (\<lambda>i. concat (replicate COMMAND_MAX_ATTEMPTS
                  (map (\<lambda>a. (a, calibration_packet count i (file_matrix file i)))
                     (if ready = [] then [BROADCAST_ADDRESS] else ready)))) [0..<count])))"

text \<open>The file of some matrices, and what a device hears of a sequence of payloads when nothing is lost.\<close>

definition calibration_file :: "matrix list \<Rightarrow> bytes" where
  "calibration_file ms = of_nat (length ms) # concat (map matrix_bytes ms)"

definition addressed :: "addr \<Rightarrow> (addr \<times> bytes) list \<Rightarrow> bytes list" where
  "addressed a sent = map snd (filter (\<lambda>(d, p). d = a \<or> d = BROADCAST_ADDRESS) sent)"

definition matrix_packet :: "matrix list \<Rightarrow> nat \<Rightarrow> bytes" where
  "matrix_packet ms i = calibration_packet (length ms) i (matrix_bytes (ms ! i))"

lemma file_matrix_file:
  assumes "list_all matrix_ok ms" and "i < length ms"
  shows "file_matrix (calibration_file ms) i = matrix_bytes (ms ! i)"
  using assms
proof (induction ms arbitrary: i)
  case (Cons m ms)
  have step: "file_matrix (calibration_file (m # ms)) (Suc j) = file_matrix (calibration_file ms) j" for j
    using Cons.prems(1) by (simp add: file_matrix_def calibration_file_def length_matrix_bytes)
  show ?case
  proof (cases i)
    case 0
    then show ?thesis
      using Cons.prems(1) by (simp add: file_matrix_def calibration_file_def length_matrix_bytes)
  next
    case (Suc j)
    then show ?thesis using Cons step by simp
  qed
qed simp

lemma sent_packets:
  assumes "list_all matrix_ok ms" "0 < length ms" "length ms \<le> 16"
  shows "send_lh2_calibration (calibration_file ms) ready =
    Inr (concat (map (\<lambda>i. concat (replicate COMMAND_MAX_ATTEMPTS
      (map (\<lambda>a. (a, matrix_packet ms i)) (if ready = [] then [BROADCAST_ADDRESS] else ready)))) [0..<length ms]))"
proof -
  have u: "unat (of_nat (length ms) :: u8) = length ms"
    using assms(3) by (simp only: unat_of_nat) simp
  have "unat (hd (calibration_file ms)) = length ms" "calibration_file ms \<noteq> []"
    "length (calibration_file ms) = Suc (36 * length ms)" "length (drop 1 (calibration_file ms)) = 36 * length ms"
    using u assms(1) by (simp_all add: calibration_file_def length_concat_matrix_bytes)
  then have "send_lh2_calibration (calibration_file ms) ready =
    Inr (concat (map (\<lambda>i. concat (replicate COMMAND_MAX_ATTEMPTS
      (map (\<lambda>a. (a, calibration_packet (length ms) i (file_matrix (calibration_file ms) i)))
        (if ready = [] then [BROADCAST_ADDRESS] else ready)))) [0..<length ms]))"
    using assms(2,3) unfolding send_lh2_calibration_def Let_def by simp
  moreover have "map (\<lambda>i. concat (replicate COMMAND_MAX_ATTEMPTS (map (\<lambda>a. (a, calibration_packet (length ms) i
        (file_matrix (calibration_file ms) i))) d))) [0..<length ms] =
      map (\<lambda>i. concat (replicate COMMAND_MAX_ATTEMPTS (map (\<lambda>a. (a, matrix_packet ms i)) d))) [0..<length ms]" for d :: "addr list"
    by (rule map_cong [OF refl]) (simp add: matrix_packet_def file_matrix_file [OF assms(1)])
  ultimately show ?thesis by (simp only:)
qed

text \<open>Which files are accepted: exactly those of one to sixteen matrices.\<close>

lemma le32_get32_at:
  assumes "k + 4 \<le> length b"
  shows "le32 (get32 k b) = take 4 (drop k b)"
proof -
  have "get32 k b = get32 0 [b ! k, b ! (k + 1), b ! (k + 2), b ! (k + 3)]"
    by (simp add: get32_def)
  moreover have "take 4 (drop k b) = [b ! k, b ! (k + 1), b ! (k + 2), b ! (k + 3)]"
    using assms by (auto simp: list_eq_iff_nth_eq less_Suc_eq numeral_eq_Suc nth_Cons')
  ultimately show ?thesis by (simp only: le32_get32)
qed

lemma take_words: "concat (map (\<lambda>j. take 4 (drop (4 * j) b)) [0..<n]) = take (4 * n) b"
  by (induction n) (simp_all add: take_add add.commute [of 4])

lemma matrix_bytes_of:
  assumes "length b = 36"
  shows "matrix_bytes (matrix_of_bytes b) = b"
proof -
  have "matrix_bytes (matrix_of_bytes b) = concat (map (\<lambda>j. le32 (get32 (4 * j) b)) [0..<9])"
    by (simp add: matrix_bytes_def matrix_of_bytes_def upt_3) (simp add: upt_rec numeral_eq_Suc)
  also have "\<dots> = concat (map (\<lambda>j. take 4 (drop (4 * j) b)) [0..<9])"
    using assms by (intro arg_cong [where f = concat] map_cong) (simp_all add: le32_get32_at)
  finally show ?thesis using assms take_words [of b 9] by simp
qed

lemma calibration_file_of:
  assumes "length bs = 36 * n"
  shows "\<exists>ms. length ms = n \<and> list_all matrix_ok ms \<and> bs = concat (map matrix_bytes ms)"
  using assms
proof (induction n arbitrary: bs)
  case (Suc n)
  have len: "length (drop 36 bs) = 36 * n" "length (take 36 bs) = 36" using Suc.prems by simp_all
  obtain ms where ms: "length ms = n" "list_all matrix_ok ms" "drop 36 bs = concat (map matrix_bytes ms)"
    using Suc.IH [OF len(1)] by blast
  then have "bs = concat (map matrix_bytes (matrix_of_bytes (take 36 bs) # ms))"
    using matrix_bytes_of [OF len(2)] append_take_drop_id [of 36 bs] by simp
  then show ?case using ms(1,2) by (intro exI [of _ "matrix_of_bytes (take 36 bs) # ms"]) simp
qed simp

lemma calibration_file_accepted:
  "(\<exists>sent. send_lh2_calibration file ready = Inr sent) \<longleftrightarrow>
   (\<exists>ms. list_all matrix_ok ms \<and> 0 < length ms \<and> length ms \<le> 16 \<and> file = calibration_file ms)"
proof
  assume "\<exists>sent. send_lh2_calibration file ready = Inr sent"
  then have f: "file \<noteq> []" "(length file - 1) mod 36 = 0" "unat (hd file) = (length file - 1) div 36"
    "0 < unat (hd file)" "unat (hd file) \<le> 16"
    by (auto simp: send_lh2_calibration_def Let_def split: if_splits)
  then have "length (tl file) = 36 * unat (hd file)"
    using mod_div_mult_eq [of "length file - 1" 36] by (simp add: mult.commute)
  then obtain ms where ms: "length ms = unat (hd file)" "list_all matrix_ok ms" "tl file = concat (map matrix_bytes ms)"
    using calibration_file_of by blast
  then have "file = calibration_file ms"
    using f(1) by (simp add: calibration_file_def flip: ms(3))
  then show "\<exists>ms. list_all matrix_ok ms \<and> 0 < length ms \<and> length ms \<le> 16 \<and> file = calibration_file ms"
    using ms(1,2) f(4,5) by auto
qed (use sent_packets in blast)

section \<open>The packets a device hears\<close>

lemma concat_concat_replicate: "concat (concat (replicate n xs)) = concat (replicate n (concat xs))"
  by (induction n) simp_all

lemma addressed_append: "addressed a (xs @ ys) = addressed a xs @ addressed a ys"
  by (simp add: addressed_def)

lemma addressed_concat: "addressed a (concat xss) = concat (map (addressed a) xss)"
  by (induction xss) (simp_all add: addressed_append, simp add: addressed_def)

lemma addressed_dests:
  "addressed a (map (\<lambda>d. (d, p)) ds) = replicate (length (filter (\<lambda>d. d = a \<or> d = BROADCAST_ADDRESS) ds)) p"
  by (induction ds) (simp_all add: addressed_def)

lemma concat_replicate_replicate: "concat (replicate n (replicate m x)) = replicate (n * m) x"
  by (induction n) (simp_all add: replicate_add)

text \<open>A device that is addressed hears every packet some times, one after the other.\<close>

lemma addressed_calibration:
  assumes ms: "list_all matrix_ok ms" "0 < length ms" "length ms \<le> 16" and a: "a \<in> set ready \<or> ready = []"
    and sent: "send_lh2_calibration (calibration_file ms) ready = Inr sent"
  shows "\<exists>c. 0 < c \<and> addressed a sent =
    map (matrix_packet ms) (concat (map (replicate c) [0..<length ms]))"
proof -
  define ds where "ds = (if ready = [] then [BROADCAST_ADDRESS] else ready)"
  define c where "c = 5 * length (filter (\<lambda>d. d = a \<or> d = BROADCAST_ADDRESS) ds)"
  have s: "sent = concat (map (\<lambda>i. concat (replicate COMMAND_MAX_ATTEMPTS
      (map (\<lambda>d. (d, matrix_packet ms i)) ds))) [0..<length ms])"
    using sent sent_packets [OF ms, of ready] by (simp add: ds_def)
  have "addressed a sent = concat (map (\<lambda>i. replicate c (matrix_packet ms i)) [0..<length ms])"
    by (simp add: s addressed_concat comp_def addressed_dests concat_replicate_replicate c_def COMMAND_MAX_ATTEMPTS_def)
  moreover have "a \<in> set ds \<or> BROADCAST_ADDRESS \<in> set ds" using a by (auto simp: ds_def)
  then have "0 < c" by (auto simp: c_def filter_empty_conv)
  ultimately show ?thesis by (auto simp: map_concat comp_def)
qed

lemma matrix_packet_inj:
  assumes "matrix_packet ms i = matrix_packet ms j" "i < 16" "j < 16"
  shows "i = j"
proof -
  have idx: "get32 5 (matrix_packet ms k) = of_nat k" for k
    by (simp add: matrix_packet_def calibration_packet_def codec_simps)
  have "unat (of_nat k :: u32) = k" if "k < 16" for k
    using that by (intro of_nat_u32) simp
  then show ?thesis using assms idx by metis
qed

text \<open>Whatever is lost, when each packet gets through once: the indices heard are sorted, and complete.\<close>

lemma heard_indices:
  assumes sub: "subseq heard (map (matrix_packet ms) (concat (map (replicate c) [0..<n])))"
    and all: "set heard = set (map (matrix_packet ms) (concat (map (replicate c) [0..<n])))"
    and c: "0 < c" and n: "n \<le> 16"
  shows "\<exists>is. heard = map (matrix_packet ms) is \<and> sorted is \<and> set is = {..<n}"
proof -
  define L where "L = concat (map (replicate c) [0..<n])"
  have L: "sorted L" "set L = {..<n}"
    unfolding L_def using c by (induction n) (simp_all add: sorted_append sorted_replicate lessThan_Suc)
  obtain N where N: "heard = nths (map (matrix_packet ms) L) N"
    using sub by (auto simp: subseq_conv_nths L_def)
  define is' where "is' = nths L N"
  have h: "heard = map (matrix_packet ms) is'" by (simp add: N is'_def nths_map)
  have sub_n: "set is' \<subseteq> {..<n}" using L(2) by (auto simp: is'_def dest: in_set_nthsD)
  have "i \<in> set is'" if "i < n" for i
  proof -
    have "matrix_packet ms i \<in> set heard" using that L(2) all by (auto simp: L_def)
    then obtain j where j: "j \<in> set is'" "matrix_packet ms i = matrix_packet ms j" unfolding h by auto
    have "j < n" using j(1) sub_n by blast
    then have "i = j" using that n by (intro matrix_packet_inj [OF j(2)]) simp_all
    then show ?thesis using j(1) by simp
  qed
  then have "set is' = {..<n}" using sub_n by blast
  moreover have "sorted is'" unfolding is'_def by (rule sorted_nths [OF L(1)])
  ultimately show ?thesis using h by blast
qed

section \<open>The session on the network core\<close>

text \<open>After the first \<open>k\<close> matrices of a session that began in \<open>n0\<close>.\<close>

definition session_config :: "matrix list \<Rightarrow> nat \<Rightarrow> swarmit_config \<Rightarrow> swarmit_config" where
  "session_config ms k c = c\<lparr>cfg_homography_count := of_nat (length ms),
     cfg_homographies := take k ms @ replicate (16 - k) zero_matrix\<rparr>"

definition in_session :: "netcore \<Rightarrow> matrix list \<Rightarrow> nat \<Rightarrow> netcore \<Rightarrow> bool" where
  "in_session n0 ms k n \<longleftrightarrow> net_inv n \<and> n_status n = SWRMT_APPLICATION_READY \<and> n_flash n = n_flash n0 \<and>
     n_out n = n_out n0 \<and> n_config n = (if k = 0 then n_config n0 else session_config ms k (n_config n0))"

lemma homographies_step:
  assumes "i \<le> k" "k \<le> Suc i" "i < length ms" "length ms \<le> 16"
    and "0 < i \<Longrightarrow> hs = take k ms @ replicate (16 - k) zero_matrix" and "i = 0 \<Longrightarrow> hs = replicate 16 zero_matrix"
  shows "hs[i := ms ! i] = take (Suc i) ms @ replicate (16 - Suc i) zero_matrix"
proof (cases "i = 0 \<or> k = i")
  case True
  have eq: "replicate (16 - i) zero_matrix = zero_matrix # replicate (16 - Suc i) zero_matrix"
    using assms(3,4) by (metis Suc_diff_Suc less_le_trans replicate_Suc)
  have "hs = take i ms @ replicate (16 - i) zero_matrix" using True assms(5,6) by (cases "i = 0") auto
  then show ?thesis
    using assms(3) eq by (simp add: list_update_append take_Suc_conv_app_nth)
next
  case False
  then have "k = Suc i" "0 < i" using assms(1,2) by auto
  then show ?thesis using assms(3,5) by (simp add: list_update_append nth_append list_update_beyond list_update_id take_Suc_conv_app_nth)
qed

text \<open>One packet, through callback and request stage.\<close>

definition store_matrix :: "nat \<Rightarrow> nat \<Rightarrow> matrix \<Rightarrow> swarmit_config \<Rightarrow> swarmit_config" where
  "store_matrix count i m c = c\<lparr>cfg_homography_count := of_nat count,
     cfg_homographies := (if i = 0 then replicate LH2_BASESTATION_COUNT_MAX zero_matrix
                          else cfg_homographies c)[i := m]\<rparr>"

lemma calibration_step:
  assumes env: "env_ok e" "probe_distinct e" and m: "matrix_ok m" and i: "count \<le> 16" "i < count"
    and n: "net_inv n" "n_status n = SWRMT_APPLICATION_READY"
  shows "\<exists>n1. net_inv n1 \<and> n_status n1 = SWRMT_APPLICATION_READY \<and> n_flash n1 = n_flash n \<and> n_out n1 = n_out n \<and>
    n_config n1 = store_matrix count i m (n_config n) \<and>
    soc_net e (calibration_packet count i (matrix_bytes m)) n =
      (if i = count - 1 then commit_config_and_reboot e n1 else Continue n1)"
proof -
  let ?pkt = "calibration_packet count i (matrix_bytes m)"
  define N where "N = n\<lparr>n_req_buffer := ?pkt @ drop (length ?pkt) (n_req_buffer n), n_req_received := False\<rparr>"
  have pkt: "?pkt = lh2_calibration_bytes (of_nat count) (of_nat i) m" "length ?pkt = 45" "?pkt = 0xA1 # tl ?pkt"
    using m by (simp_all add: calibration_packet_def lh2_calibration_bytes_def length_matrix_bytes)
  have buf: "length (n_req_buffer n) = 255" using n by (simp add: net_inv_def)
  have net: "soc_net e ?pkt n = net_dispatch e N"
    using soc_net_request [OF env(2), of "0xA1" "tl ?pkt" n] buf pkt(2)
    by (simp add: N_def is_request_def flip: pkt(3))
  have disp: "net_dispatch e N = net_req_lh2_calibration e N"
    by (subst net_dispatch_def) (simp add: N_def pkt(1) lh2_calibration_bytes_def msg_of_code_def all_msgs_def)
  have u: "unat (of_nat count :: u32) = count" "unat (of_nat i :: u32) = i"
    "unat (of_nat (count - 1) :: u32) = count - 1"
    by (rule of_nat_u32, use i in simp)+
  have eq: "(of_nat count - 1 :: u32) = of_nat (count - 1)" using i by simp
  have last: "(of_nat i :: u32) = of_nat count - 1 \<longleftrightarrow> i = count - 1"
    by (simp only: eq word_unat_eq_iff u)
  have zero: "(of_nat i :: u32) = 0 \<longleftrightarrow> i = 0" "(of_nat count :: u32) \<noteq> 0"
    using u(1,2) i by (metis unat_eq_zero, metis gr_implies_not0 unat_eq_zero)
  have le: "\<not> (of_nat count :: u32) \<le> of_nat i" using u i by (simp add: word_le_nat_alt)
  define n1 where "n1 = N\<lparr>n_config := store_matrix count i m (n_config n)\<rparr>"
  have "net_inv n1" using n pkt(2) m by (auto simp: n1_def N_def net_inv_def store_matrix_def)
  moreover have st: "n_status N = SWRMT_APPLICATION_READY" "n_config N = n_config n"
    "lh2_calibration_of (n_req_buffer N) =
      \<lparr>lc_homography_count = of_nat count, lc_homography_index = of_nat i, lc_homography = m\<rparr>"
    using n m by (simp_all add: N_def pkt(1) lh2_calibration_of_bytes)
  have "net_req_lh2_calibration e N = (if i = count - 1 then commit_config_and_reboot e n1 else Continue n1)"
    using st u(1,2) i zero last le
    by (simp add: net_req_lh2_calibration_def Let_def n1_def store_matrix_def LH2_BASESTATION_COUNT_MAX_def)
  moreover have "n_status n1 = SWRMT_APPLICATION_READY \<and> n_flash n1 = n_flash n \<and> n_out n1 = n_out n \<and>
      n_config n1 = store_matrix count i m (n_config n)"
    using n(2) by (simp add: n1_def N_def)
  ultimately show ?thesis using net disp by auto
qed

lemma session_packet:
  assumes env: "env_ok e" "probe_distinct e" and ms: "list_all matrix_ok ms" "length ms \<le> 16"
    and i: "i < length ms" "i \<le> k" "k \<le> Suc i" and n: "in_session n0 ms k n"
  shows "\<exists>n1. in_session n0 ms (Suc i) n1 \<and> soc_net e (matrix_packet ms i) n =
    (if i = length ms - 1 then commit_config_and_reboot e n1 else Continue n1)"
proof -
  let ?hs = "if i = 0 then replicate LH2_BASESTATION_COUNT_MAX zero_matrix else cfg_homographies (n_config n)"
  have "matrix_ok (ms ! i)" using ms(1) i(1) by (simp add: list_all_iff)
  then obtain n1 where n1: "net_inv n1" "n_status n1 = SWRMT_APPLICATION_READY" "n_flash n1 = n_flash n0"
      "n_out n1 = n_out n0" "n_config n1 = store_matrix (length ms) i (ms ! i) (n_config n)"
      "soc_net e (matrix_packet ms i) n =
        (if i = length ms - 1 then commit_config_and_reboot e n1 else Continue n1)"
    using calibration_step [OF env _ ms(2) i(1), of "ms ! i" n] n
    by (auto simp: in_session_def matrix_packet_def)
  have "?hs[i := ms ! i] = take (Suc i) ms @ replicate (16 - Suc i) zero_matrix"
    by (rule homographies_step [OF i(2,3,1) ms(2)])
      (use n i(2) in \<open>simp_all add: in_session_def session_config_def LH2_BASESTATION_COUNT_MAX_def\<close>)
  then have "n_config n1 = session_config ms (Suc i) (n_config n)"
    unfolding n1(5) store_matrix_def session_config_def by (simp only:)
  also have "\<dots> = session_config ms (Suc i) (n_config n0)"
    using n by (cases "k = 0") (simp_all add: in_session_def session_config_def)
  finally have "n_config n1 = session_config ms (Suc i) (n_config n0)" .
  then show ?thesis using n1 by (auto simp: in_session_def)
qed

text \<open>A device that hears every packet at least once commits, and takes no further packet before its reset.\<close>

lemma session_run:
  assumes env: "env_ok e" "probe_distinct e" and ms: "list_all matrix_ok ms" "length ms \<le> 16"
  shows "sorted is \<Longrightarrow> set is \<union> {..<k} = {..<length ms} \<Longrightarrow> \<forall>i\<in>set is. k \<le> Suc i \<Longrightarrow> k < length ms \<Longrightarrow>
    in_session n0 ms k n \<Longrightarrow>
    \<exists>n1. in_session n0 ms (length ms) n1 \<and>
      run_stages (map (\<lambda>i. soc_net e (matrix_packet ms i)) is) n = commit_config_and_reboot e n1"
proof (induction "is" arbitrary: k n)
  case (Cons i js)
  have i: "i < length ms" "k \<le> Suc i" using Cons.prems(2,3) by auto
  have "i \<le> k"
  proof (rule ccontr)
    assume "\<not> i \<le> k"
    then have "k \<notin> set (i # js) \<union> {..<k}" using Cons.prems(1) by auto
    then show False using Cons.prems(2,4) by blast
  qed
  then obtain n1 where n1: "in_session n0 ms (Suc i) n1" "soc_net e (matrix_packet ms i) n =
      (if i = length ms - 1 then commit_config_and_reboot e n1 else Continue n1)"
    using session_packet [OF env ms i(1) _ i(2) Cons.prems(5)] by blast
  show ?case
  proof (cases "i = length ms - 1")
    case True
    then have "Suc i = length ms" using i(1) by simp
    then show ?thesis using n1 True by (auto simp: commit_config_and_reboot_def Let_def)
  next
    case False
    have "{..<Suc i} = insert i {..<k}" using \<open>i \<le> k\<close> i(2) by auto
    then have "set js \<union> {..<Suc i} = {..<length ms}" using Cons.prems(2) by auto
    then show ?thesis
      using Cons.IH [of "Suc i" n1] Cons.prems(1) n1 False i(1) by auto
  qed
qed auto

section \<open>The commit, the reset and localization\<close>

lemma commit_result:
  assumes hw: "nor_flash NET_FLASH_PAGE_SIZE (env_flash_hw e)" and n: "net_inv n"
  shows "\<exists>n'. commit_config_and_reboot e n = Stuck n' \<and> n_out n' = n_out n @ [NE_IpcSend IPC_CHAN_SOC_RESET] \<and>
    read_config (n_flash n') = (n_config n)\<lparr>cfg_magic := SWARMIT_CONFIG_MAGIC_VALUE\<rparr>"
  using read_write_config [OF hw, of "(n_config n)\<lparr>cfg_magic := SWARMIT_CONFIG_MAGIC_VALUE\<rparr>"] n
  by (simp add: commit_config_and_reboot_def Let_def emit_def net_inv_def)

text \<open>The packet of index 0 clears the slots of the session before, but the commit waits for the
  last index only: when the first packet is lost, the matrices of the previous calibration are
  committed with the new one.\<close>

lemma lost_first_packet_keeps_stale:
  assumes "env_ok e" "probe_distinct e" "nor_flash NET_FLASH_PAGE_SIZE (env_flash_hw e)"
    and "net_inv n" "n_status n = SWRMT_APPLICATION_READY" and "matrix_ok m"
  shows "\<exists>n'. soc_net e (calibration_packet 2 1 (matrix_bytes m)) n = Stuck n' \<and>
    cfg_homography_count (read_config (n_flash n')) = 2 \<and>
    cfg_homographies (read_config (n_flash n')) ! 0 = cfg_homographies (n_config n) ! 0"
proof -
  obtain n1 where "net_inv n1" "n_config n1 = store_matrix 2 1 m (n_config n)"
    "soc_net e (calibration_packet 2 1 (matrix_bytes m)) n = commit_config_and_reboot e n1"
    using calibration_step [OF assms(1,2,6) _ _ assms(4,5), of 2 1] by auto
  then show ?thesis using commit_result [OF assms(3), of n1] by (auto simp: store_matrix_def)
qed

text \<open>What the network core, started again, leaves in the shared RAM, and that it announces it.\<close>

lemma reloaded_calibration:
  assumes ms: "list_all matrix_ok ms" "0 < length ms" "length ms \<le> 16" and sh: "shared_ok sh"
    and flash: "read_config f = session_config ms (length ms) c\<lparr>cfg_magic := SWARMIT_CONFIG_MAGIC_VALUE\<rparr>"
    and b: "b = net_main_init id1 id0 (net_reset sh f)"
  shows "n_config b = session_config ms (length ms) c\<lparr>cfg_magic := SWARMIT_CONFIG_MAGIC_VALUE\<rparr>"
    and "n_lh2_calibration_ready b" and "cal_count (lh2_calibration (n_shared b)) = of_nat (length ms)"
    and "take (length ms) (cal_homographies (lh2_calibration (n_shared b))) = ms"
proof -
  have u: "unat (of_nat (length ms) :: u32) = length ms" using ms(3) by (intro of_nat_u32) simp
  have pos: "0 < (of_nat (length ms) :: u32)" using u ms(2) by (simp add: word_less_nat_alt)
  have ok: "matrices_ok (ms @ replicate (16 - length ms) zero_matrix)"
    using ms by (auto simp: matrices_ok_def LH2_BASESTATION_COUNT_MAX_def list_all_iff)
  have dst: "matrices_ok (cal_homographies (lh2_calibration sh))" using sh by (simp add: shared_ok_def)
  show "n_config b = session_config ms (length ms) c\<lparr>cfg_magic := SWARMIT_CONFIG_MAGIC_VALUE\<rparr>"
    "n_lh2_calibration_ready b" "cal_count (lh2_calibration (n_shared b)) = of_nat (length ms)"
    "take (length ms) (cal_homographies (lh2_calibration (n_shared b))) = ms"
    using flash copy_homographies_eq [OF ok dst] u pos ms(3)
    by (auto simp: b net_main_init_def load_config_def Let_def net_reset_def on_shared_def emit_def
          config_net_id_def config_calibrated_def session_config_def LH2_BASESTATION_COUNT_MAX_def)
qed

lemma localization_init_matrices:
  assumes "0 < n" "n \<le> 16" "unat count = n"
  shows "\<exists>l'. localization_init le ms count l = Some l' \<and> calibration_loaded l' \<and>
    (\<forall>i < n. loc_homographies l' (of_nat i) = Some (ms ! i))"
proof -
  have inj: "(of_nat i :: u8) = of_nat j \<longleftrightarrow> i = j" if "i < 16" "j < 16" for i j
    using that by (simp add: word_unat_eq_iff unat_of_nat)
  have "\<forall>i < n. loc_homographies (fold (\<lambda>i l. l\<lparr>loc_homographies := (loc_homographies l)(of_nat i \<mapsto> ms ! i)\<rparr>)
      [0..<n] l0) (of_nat i) = Some (ms ! i)" for l0
    using assms(2) by (induction n) (auto simp: inj less_Suc_eq)
  moreover have "0 < count" using assms(1,3) by (simp add: word_less_nat_alt)
  ultimately show ?thesis using assms by (simp add: localization_init_def Let_def LH2_BASESTATION_COUNT_MAX_def)
qed

text \<open>The bootloader takes the event and the matrices.\<close>

lemma take_event_calibration:
  assumes "\<And>s. a_shared (g s) = a_shared s" "\<And>s. a_events (g s) = a_events s"
  shows "a_shared (take_event ch g s) = a_shared s"
    and "ch \<noteq> IPC_CHAN_CALIBRATION_DATA \<Longrightarrow> (\<And>s. a_lh2_calibration_ready (g s) = a_lh2_calibration_ready s) \<Longrightarrow>
      a_lh2_calibration_ready (take_event ch g s) = a_lh2_calibration_ready s"
    and "ch \<noteq> IPC_CHAN_CALIBRATION_DATA \<Longrightarrow>
      a_events (take_event ch g s) IPC_CHAN_CALIBRATION_DATA = a_events s IPC_CHAN_CALIBRATION_DATA"
    and "a_events s IPC_CHAN_CALIBRATION_DATA \<Longrightarrow> (\<And>s. a_lh2_calibration_ready (h s)) \<Longrightarrow>
      a_lh2_calibration_ready (take_event IPC_CHAN_CALIBRATION_DATA h s)"
  using assms by (simp_all add: take_event_def)

lemma localization_announced:
  assumes "cal_count (lh2_calibration (a_shared s)) = of_nat (length ms)"
    and "take (length ms) (cal_homographies (lh2_calibration (a_shared s))) = ms" and "0 < length ms" "length ms \<le> 16"
  shows "\<exists>s'. app_stage_calibration e (app_irq AppIpcIrq (app_irq (AppIpcReceive IPC_CHAN_CALIBRATION_DATA) s)) = Continue s' \<and>
    calibration_loaded (a_loc s') \<and> (\<forall>i < length ms. loc_homographies (a_loc s') (of_nat i) = Some (ms ! i))"
proof -
  define s1 where "s1 = app_irq AppIpcIrq (app_irq (AppIpcReceive IPC_CHAN_CALIBRATION_DATA) s)"
  have s1: "a_shared s1 = a_shared s" "a_lh2_calibration_ready s1"
    by (simp_all add: s1_def app_ipc_irq_handler_def take_event_calibration app_ipc_receive_def Let_def)
  have u: "unat (of_nat (length ms) :: u32) = length ms" using assms(4) by (intro of_nat_u32) simp
  obtain l where l: "localization_init (ae_lh2 e) (cal_homographies (lh2_calibration (a_shared s)))
      (of_nat (length ms)) (a_loc s1) = Some l" "calibration_loaded l"
    "\<forall>i < length ms. loc_homographies l (of_nat i) = Some (cal_homographies (lh2_calibration (a_shared s)) ! i)"
    using localization_init_matrices [OF assms(3,4) u] by blast
  have "cal_homographies (lh2_calibration (a_shared s)) ! i = ms ! i" if "i < length ms" for i
    using assms(2) nth_take [OF that] by metis
  then show ?thesis
    using l s1 assms(1) unfolding s1_def [symmetric]
    by (simp add: app_stage_calibration_def init_localization_def)
qed

text \<open>A copy of the last packet that comes when the device has started again.\<close>

lemma late_copy:
  assumes env: "env_ok e" "probe_distinct e" "nor_flash NET_FLASH_PAGE_SIZE (env_flash_hw e)"
    and ms: "list_all matrix_ok ms" "0 < length ms" "length ms \<le> 16"
    and b: "net_inv b" "n_status b = SWRMT_APPLICATION_READY"
      "n_config b = session_config ms (length ms) c\<lparr>cfg_magic := SWARMIT_CONFIG_MAGIC_VALUE\<rparr>"
  shows "\<exists>b'. soc_net e (matrix_packet ms (length ms - 1)) b = Stuck b' \<and> read_config (n_flash b') = n_config b"
proof -
  have "in_session b ms (length ms) b" using b by (simp add: in_session_def session_config_def)
  then obtain n1 where "in_session b ms (length ms) n1"
      "soc_net e (matrix_packet ms (length ms - 1)) b = commit_config_and_reboot e n1"
    using session_packet [OF env(1,2) ms(1,3), of "length ms - 1" "length ms" b b] ms(2) by auto
  then show ?thesis
    using commit_result [OF env(3), of n1] b(3) ms(2) by (auto simp: in_session_def session_config_def)
qed

end
