(* ===== verification/Calibration_Properties.thy ===== *)
theory Calibration_Properties
  imports Calibration Examples
begin

text \<open>
  The way of a calibration file through the controller, the radio and both cores.
\<close>

text \<open>C28: A file of one to sixteen matrices, sent by the controller to its ready devices (or to all when it
  knows none), over a radio that loses any packets but lets each through once: the network core asks
  for a reset with exactly the file's matrices in its configuration page, announces them when it
  starts again, and the bootloader then locates with the file's matrices. A copy of the last packet
  that comes after the restart commits the same configuration again.\<close>

theorem calibration_file_deployed:
  assumes env: "env_ok ne" "probe_distinct ne" "nor_flash NET_FLASH_PAGE_SIZE (env_flash_hw ne)"
    and matrices: "list_all matrix_ok ms" "0 < length ms" "length ms \<le> 16"
    and sent: "send_lh2_calibration (calibration_file ms) ready = Inr sent" "a \<in> set ready \<or> ready = []"
    and heard: "subseq heard (addressed a sent)" "set heard = set (addressed a sent)"
    and net: "net_inv n" "n_status n = SWRMT_APPLICATION_READY" and sh: "shared_ok sh"
  shows "\<exists>n' b. run_stages (map (soc_net ne) heard) n = Stuck n' \<and>
    n_out n' = n_out n @ [NE_IpcSend IPC_CHAN_SOC_RESET] \<and>
    net_stage_calibration (net_main_init id1 id0 (net_reset sh (n_flash n'))) = Continue b \<and>
    last (n_out b) = NE_IpcSend IPC_CHAN_CALIBRATION_DATA \<and>
    cfg_homographies (n_config b) = ms @ replicate (16 - length ms) zero_matrix \<and>
    (\<forall>s. a_shared s = n_shared b \<longrightarrow>
       (\<exists>s'. app_stage_calibration ae (app_irq AppIpcIrq (app_irq (AppIpcReceive IPC_CHAN_CALIBRATION_DATA) s)) = Continue s' \<and>
          calibration_loaded (a_loc s') \<and> (\<forall>i < length ms. loc_homographies (a_loc s') (of_nat i) = Some (ms ! i)))) \<and>
    (\<forall>b'. net_inv b' \<and> n_status b' = SWRMT_APPLICATION_READY \<and> n_config b' = n_config b \<longrightarrow>
       (\<exists>b''. soc_net ne (matrix_packet ms (length ms - 1)) b' = Stuck b'' \<and> read_config (n_flash b'') = n_config b))"
proof -
  obtain c where c: "0 < c" "addressed a sent = map (matrix_packet ms) (concat (map (replicate c) [0..<length ms]))"
    using addressed_calibration [OF matrices sent(2,1)] by blast
  obtain js where js: "heard = map (matrix_packet ms) js" "sorted js" "set js = {..<length ms}"
    using heard_indices [OF heard(1,2) [unfolded c(2)] c(1) matrices(3)] by blast
  have "in_session n ms 0 n" using net by (simp add: in_session_def)
  then obtain n1 where n1: "in_session n ms (length ms) n1"
      "run_stages (map (soc_net ne) heard) n = commit_config_and_reboot ne n1"
    using session_run [OF env(1,2) matrices(1,3) js(2), of 0 n n] js(1,3) matrices(2) by (auto simp: comp_def)
  obtain n' where n': "commit_config_and_reboot ne n1 = Stuck n'" "n_out n' = n_out n @ [NE_IpcSend IPC_CHAN_SOC_RESET]"
      "read_config (n_flash n') = session_config ms (length ms) (n_config n)\<lparr>cfg_magic := SWARMIT_CONFIG_MAGIC_VALUE\<rparr>"
    using commit_result [OF env(3), of n1] n1(1) matrices(2) by (auto simp: in_session_def)
  define b0 where "b0 = net_main_init id1 id0 (net_reset sh (n_flash n'))"
  note b0 = reloaded_calibration [OF matrices sh n'(3) b0_def]
  define b where "b = emit (NE_IpcSend IPC_CHAN_CALIBRATION_DATA) (b0\<lparr>n_lh2_calibration_ready := False\<rparr>)"
  have stage: "net_stage_calibration b0 = Continue b" using b0(2) by (simp add: net_stage_calibration_def b_def)
  have b: "n_config b = n_config b0" "n_shared b = n_shared b0" "last (n_out b) = NE_IpcSend IPC_CHAN_CALIBRATION_DATA"
    by (simp_all add: b_def emit_def)
  have u: "unat (of_nat (length ms) :: u32) = length ms" using matrices(3) by (intro of_nat_u32) simp
  have app: "\<exists>s'. app_stage_calibration ae (app_irq AppIpcIrq (app_irq (AppIpcReceive IPC_CHAN_CALIBRATION_DATA) s)) = Continue s' \<and>
      calibration_loaded (a_loc s') \<and> (\<forall>i < length ms. loc_homographies (a_loc s') (of_nat i) = Some (ms ! i))"
    if s: "a_shared s = n_shared b" for s
    using localization_announced [of s] s b(2) b0(3,4) u matrices by simp
  have late: "\<exists>b''. soc_net ne (matrix_packet ms (length ms - 1)) b' = Stuck b'' \<and> read_config (n_flash b'') = n_config b"
    if "net_inv b'" "n_status b' = SWRMT_APPLICATION_READY" "n_config b' = n_config b" for b'
    using late_copy [OF env matrices] that b(1) b0(1) by simp
  show ?thesis using n1(2) n'(1,2) stage b b0(1) app late
    by (auto simp: b0_def session_config_def)
qed

theorem calibration_file_deployed_witness:
  "\<exists>sent n' b. send_lh2_calibration (calibration_file [zero_matrix, zero_matrix]) [7] = Inr sent \<and>
    run_stages (map (soc_net ex_net_env) (addressed 7 sent)) ex_net = Stuck n' \<and>
    net_stage_calibration (net_main_init 1 2 (net_reset shared_zero (n_flash n'))) = Continue b \<and>
    last (n_out b) = NE_IpcSend IPC_CHAN_CALIBRATION_DATA"
proof -
  let ?ms = "[zero_matrix, zero_matrix]"
  have ms: "list_all matrix_ok ?ms" "0 < length ?ms" "length ?ms \<le> 16" by simp_all
  obtain sent where sent: "send_lh2_calibration (calibration_file ?ms) [7] = Inr sent"
    using sent_packets [OF ms] by blast
  have hw: "nor_flash NET_FLASH_PAGE_SIZE (env_flash_hw ex_net_env)" by (simp add: ex_net_env_def)
  have ready: "n_status ex_net = SWRMT_APPLICATION_READY" "(7 :: addr) \<in> set [7] \<or> [7 :: addr] = []"
    by (simp_all add: ex_net_def net_reset_def shared_zero_def)
  have sh: "shared_ok shared_zero" by simp
  show ?thesis
    using calibration_file_deployed [OF ex_net_env_ok hw ms sent ready(2) subseq_order.refl refl ex_net_inv ready(1) sh,
        of 1 2 ex_app_env] sent
    by blast
qed

end
