(* ===== verification/Commands.thy ===== *)
theory Commands
  imports Calibration
begin

text \<open>
  The controller's table of device states and the commands that rest on it
  (\<open>swarmit/testbed/controller.py\<close>): the status frames in \<open>on_frame_received\<close>, \<open>cleanup_inactive\<close>, the
  lists of ready, running and resetting devices, \<open>start\<close>, \<open>stop\<close>, \<open>reset\<close>,
  \<open>send_message\<close>, \<open>request_lh2_capture\<close>. The table is a dictionary that the
  receiving thread and the clean-up thread change while a command sleeps: \<open>evs k\<close> is what they do in
  the sleep after which \<open>k\<close> attempts are left. \<open>_known_devices\<close> is the same dictionary once it is set.
  An exception is a value, with what was sent before.
\<close>

section \<open>The table\<close>

datatype StatusType = Bootloader | Running | Stopping | Resetting | Programming

datatype DeviceType = Unknown | DotBotV3 | DotBotV2 | nRF5340DK | nRF52840DK

definition StatusType_of :: "u8 \<Rightarrow> StatusType option" where
  "StatusType_of v = map_of [(0, Bootloader), (1, Running), (2, Stopping), (3, Resetting), (4, Programming)] v"

definition DeviceType_of :: "u8 \<Rightarrow> DeviceType option" where
  "DeviceType_of v = map_of [(0, Unknown), (1, DotBotV3), (2, DotBotV2), (3, nRF5340DK), (4, nRF52840DK)] v"

text \<open>Positions are read as signed numbers; times are milliseconds.\<close>

record NodeStatus =
  nd_device :: DeviceType
  nd_status :: StatusType
  nd_battery :: nat
  nd_pos_x :: int
  nd_pos_y :: int
  nd_last_updated_at :: nat

type_synonym status_data = "(addr \<times> NodeStatus) list"

datatype controller_error = ValueError | KeyError addr

text \<open>The payload of a status frame, its type byte first.\<close>

definition on_status :: "nat \<Rightarrow> addr \<Rightarrow> bytes \<Rightarrow> status_data \<Rightarrow> controller_error + status_data" where
  "on_status now a b t =
     (case (DeviceType_of (get8 1 b), StatusType_of (get8 2 b)) of
        (Some d, Some st) \<Rightarrow> Inr (AList.update a
          \<lparr>nd_device = d, nd_status = st, nd_battery = unat (get16 3 b),
           nd_pos_x = sint (get32 5 b), nd_pos_y = sint (get32 9 b), nd_last_updated_at = now\<rparr> t)
      | _ \<Rightarrow> Inl ValueError)"

definition INACTIVE_TIMEOUT :: nat where
  "INACTIVE_TIMEOUT = 3000"

definition cleanup_inactive :: "nat \<Rightarrow> nat \<Rightarrow> status_data \<Rightarrow> status_data" where
  "cleanup_inactive timeout now t = filter (\<lambda>(a, n). \<not> timeout < now - nd_last_updated_at n) t"

text \<open>The devices in some states, of those the settings name, if they name any.\<close>

definition devices_in :: "(StatusType \<Rightarrow> bool) \<Rightarrow> addr list \<Rightarrow> status_data \<Rightarrow> addr list" where
  "devices_in P devs t = map fst (filter (\<lambda>(a, n). P (nd_status n) \<and> (devs = [] \<or> a \<in> set devs)) t)"

definition running_devices :: "addr list \<Rightarrow> status_data \<Rightarrow> addr list" where
  "running_devices = devices_in (\<lambda>st. st = Running \<or> st = Programming)"

definition resetting_devices :: "addr list \<Rightarrow> status_data \<Rightarrow> addr list" where
  "resetting_devices = devices_in (\<lambda>st. st = Resetting)"

definition ready_devices :: "addr list \<Rightarrow> status_data \<Rightarrow> addr list" where
  "ready_devices = devices_in (\<lambda>st. st = Bootloader)"

text \<open>What the other threads do: an exception in the receiving thread leaves the table as it was.\<close>

datatype table_event = Status_Frame nat addr bytes | Cleanup nat

fun table_step :: "table_event \<Rightarrow> status_data \<Rightarrow> status_data" where
  "table_step (Status_Frame now a b) t = (case on_status now a b t of Inl e \<Rightarrow> t | Inr t' \<Rightarrow> t')"
| "table_step (Cleanup now) t = cleanup_inactive INACTIVE_TIMEOUT now t"

section \<open>The commands\<close>

text \<open>A command sends its messages until its condition, which may raise an exception, holds, at most
  five times.\<close>

fun command_loop :: "(status_data \<Rightarrow> controller_error + bool) \<Rightarrow> (addr \<times> bytes) list \<Rightarrow> (nat \<Rightarrow> table_event list) \<Rightarrow>
    nat \<Rightarrow> status_data \<Rightarrow> (addr \<times> bytes) list \<times> (controller_error + status_data)" where
  "command_loop cond msgs evs 0 t = ([], Inr t)"
| "command_loop cond msgs evs (Suc k) t =
     (case cond t of
        Inl e \<Rightarrow> ([], Inl e)
      | Inr True \<Rightarrow> ([], Inr t)
      | Inr False \<Rightarrow> (let (sent, r) = command_loop cond msgs evs k (fold table_step (evs k) t) in (msgs @ sent, r)))"

definition all_running :: "addr list \<Rightarrow> status_data \<Rightarrow> controller_error + bool" where
  "all_running as t = Inr (list_all (\<lambda>a. case map_of t a of None \<Rightarrow> False | Some n \<Rightarrow> nd_status n = Running) as)"

fun all_stopped :: "addr list \<Rightarrow> status_data \<Rightarrow> controller_error + bool" where
  "all_stopped [] t = Inr True"
| "all_stopped (a # as) t =
     (case map_of t a of
        None \<Rightarrow> Inl (KeyError a)
      | Some n \<Rightarrow> if nd_status n = Stopping \<or> nd_status n = Bootloader then all_stopped as t else Inr False)"

definition command_devices :: "addr list \<Rightarrow> addr list option \<Rightarrow> addr list" where
  "command_devices sd devices = (case devices of None \<Rightarrow> sd | Some ds \<Rightarrow> ds)"

definition command_targets :: "addr list \<Rightarrow> addr list \<Rightarrow> addr list" where
  "command_targets devs candidates = (if devs = [] then candidates else filter (\<lambda>a. a \<in> set candidates) devs)"

definition command_messages :: "bytes \<Rightarrow> addr list \<Rightarrow> addr list \<Rightarrow> (addr \<times> bytes) list" where
  "command_messages p devs targets = map (\<lambda>a. (a, p)) (if devs = [] then [BROADCAST_ADDRESS] else targets)"

text \<open>\<open>sd\<close> are the settings' devices.\<close>

definition start :: "addr list \<Rightarrow> addr list option \<Rightarrow> (nat \<Rightarrow> table_event list) \<Rightarrow> status_data \<Rightarrow>
    (addr \<times> bytes) list \<times> (controller_error + status_data)" where
  "start sd devices evs t =
     (let devs = command_devices sd devices; targets = command_targets devs (ready_devices sd t)
      in command_loop (all_running targets) (command_messages [msg_code SWRMT_MSG_START] devs targets)
           evs COMMAND_MAX_ATTEMPTS t)"

definition stop :: "addr list \<Rightarrow> addr list option \<Rightarrow> (nat \<Rightarrow> table_event list) \<Rightarrow> status_data \<Rightarrow>
    (addr \<times> bytes) list \<times> (controller_error + status_data)" where
  "stop sd devices evs t =
     (let devs = command_devices sd devices;
          targets = command_targets devs (running_devices sd t @ resetting_devices sd t)
      in command_loop (all_stopped targets) (command_messages [msg_code SWRMT_MSG_STOP] devs targets)
           evs COMMAND_MAX_ATTEMPTS t)"

text \<open>A reset takes the location of each ready device the settings name.\<close>

fun reset :: "addr list \<Rightarrow> addr list \<Rightarrow> (addr \<rightharpoonup> u32 \<times> u32) \<Rightarrow> (addr \<times> bytes) list \<times> controller_error option" where
  "reset [] ready locs = ([], None)"
| "reset (a # as) ready locs =
     (if a \<notin> set ready then reset as ready locs
      else case locs a of
        None \<Rightarrow> ([], Some (KeyError a))
      | Some (x, y) \<Rightarrow> (let (sent, r) = reset as ready locs
          in ((a, msg_code SWRMT_MSG_RESET # le32 x @ le32 y) # sent, r)))"

text \<open>\<open>p\<close> is the encoded text of \<open>n\<close> characters.\<close>

definition send_message :: "addr list \<Rightarrow> addr list \<Rightarrow> nat \<Rightarrow> bytes \<Rightarrow> (addr \<times> bytes) list" where
  "send_message sd running n p =
     map (\<lambda>a. (a, 0xA0 # of_nat n # p))
       (if sd = [] then [BROADCAST_ADDRESS] else filter (\<lambda>a. a \<in> set running) sd)"

definition request_lh2_capture :: "addr \<Rightarrow> (addr \<times> bytes) list" where
  "request_lh2_capture a = [(a, [msg_code SWRMT_MSG_LH2_CAPTURE])]"

end
