(* ===== verification/Command_Properties.thy ===== *)
theory Command_Properties
  imports Commands
begin

text \<open>
  What the controller knows of a device, and what its stop command does when a device falls silent.
\<close>

section \<open>Status\<close>

text \<open>The firmware's values under the controller's names.\<close>

fun host_status :: "swrmt_application_status_t \<Rightarrow> StatusType" where
  "host_status SWRMT_APPLICATION_READY = Bootloader"
| "host_status SWRMT_APPLICATION_RUNNING = Running"
| "host_status SWRMT_APPLICATION_STOPPING = Stopping"
| "host_status SWRMT_APPLICATION_RESETTING = Resetting"
| "host_status SWRMT_APPLICATION_PROGRAMMING = Programming"

fun host_device :: "swrmt_device_type_t \<Rightarrow> DeviceType" where
  "host_device SWRMT_DEVICE_TYPE_UNKNOWN = Unknown"
| "host_device SWRMT_DEVICE_TYPE_DOTBOTV3 = DotBotV3"
| "host_device SWRMT_DEVICE_TYPE_DOTBOTV2 = DotBotV2"
| "host_device SWRMT_DEVICE_TYPE_NRF5340DK = nRF5340DK"
| "host_device SWRMT_DEVICE_TYPE_NRF52840DK = nRF52840DK"

definition signed_mm :: "u32 \<Rightarrow> int" where
  "signed_mm x = (if x < 0x80000000 then uint x else uint x - 2 ^ 32)"

lemma sint_signed_mm: "sint x = signed_mm x"
proof -
  have "uint x < 2 ^ LENGTH(32)" by (rule unsigned_less)
  then have u: "uint x < 2 * 2147483648" "0 \<le> uint x" by simp_all
  then have "uint x div 2147483648 = (if uint x < 2147483648 then 0 else 1)"
    by (auto simp: div_pos_geq not_less)
  then have "bit (uint x) 31 \<longleftrightarrow> \<not> uint x < 2147483648" by (simp add: bit_iff_odd)
  moreover have "take_bit 32 (uint x) = uint x" using u by (simp add: take_bit_int_eq_self_iff)
  ultimately show ?thesis
    using signed_take_bit_eq_take_bit_minus [of 31 "uint x"]
    by (simp add: sint_uint signed_mm_def word_less_def)
qed

lemma codes_known:
  "DeviceType_of (device_code d) = Some (host_device d)" "StatusType_of (status_code st) = Some (host_status st)"
  by (cases d; simp add: DeviceType_of_def) (cases st; simp add: StatusType_of_def)

text \<open>C26: A status report is what the network core has in its shared RAM, and the controller's table
  then holds it for its sender and for no other: the device type, the status, the battery, the
  position (with coordinates from \<open>2 ^ 31\<close> on read as negative) and the time.\<close>

theorem status_reported:
  assumes "net_inv s" and "n_send_status s"
  shows "\<exists>s' m t'. net_stage_status s = Continue s' \<and> n_out s' = n_out s @ [NE_MariTx SWARMIT_TX_DEFAULT m] \<and>
    on_status now a m t = Inr t' \<and> (\<forall>b. b \<noteq> a \<longrightarrow> map_of t' b = map_of t b) \<and>
    map_of t' a = Some
      \<lparr>nd_device = host_device (device_type (n_shared s)), nd_status = host_status (n_status s),
       nd_battery = unat (battery_level (n_shared s)),
       nd_pos_x = signed_mm (pos_x (current_position (n_shared s))),
       nd_pos_y = signed_mm (pos_y (current_position (n_shared s))), nd_last_updated_at = now\<rparr>"
proof -
  define m where "m = status_message (n_shared s)"
  have "length (n_notification_buffer s) = 255" using assms(1) by (simp add: net_inv_def)
  then have "net_stage_status s = Continue (notify m (s\<lparr>n_send_status := False\<rparr>))"
    "n_out (notify m (s\<lparr>n_send_status := False\<rparr>)) = n_out s @ [NE_MariTx SWARMIT_TX_DEFAULT m]"
    using assms(2) by (simp_all add: net_stage_status_def m_def notify_def Let_def blit_0 emit_def)
  moreover have "get8 1 m = device_code (device_type (n_shared s))" "get8 2 m = status_code (n_status s)"
    "get16 3 m = battery_level (n_shared s)" "get32 5 m = pos_x (current_position (n_shared s))"
    "get32 9 m = pos_y (current_position (n_shared s))"
    by (simp_all add: m_def status_message_def position_bytes_def get8_def codec_simps
          get16_skip [of "[a, b, c]" 3 for a b c, simplified])
  ultimately show ?thesis
    by (simp add: on_status_def codes_known sint_signed_mm update_conv')
qed

theorem status_reported_witness:
  "\<exists>s' m t'. net_stage_status (ex_net\<lparr>n_send_status := True\<rparr>) = Continue s' \<and>
    last (n_out s') = NE_MariTx SWARMIT_TX_DEFAULT m \<and> on_status 5 7 m [] = Inr t' \<and>
    map_option nd_status (map_of t' 7) = Some Bootloader"
proof -
  have "net_inv (ex_net\<lparr>n_send_status := True\<rparr>)" using ex_net_inv by (simp add: net_inv_def)
  then obtain s' m t' where "net_stage_status (ex_net\<lparr>n_send_status := True\<rparr>) = Continue s'"
    "n_out s' = n_out (ex_net\<lparr>n_send_status := True\<rparr>) @ [NE_MariTx SWARMIT_TX_DEFAULT m]"
    "on_status 5 7 m [] = Inr t'"
    "map_option nd_status (map_of t' 7) = Some (host_status (n_status (ex_net\<lparr>n_send_status := True\<rparr>)))"
    using status_reported [of "ex_net\<lparr>n_send_status := True\<rparr>" 5 7 "[]"] by fastforce
  then show ?thesis by (fastforce simp: ex_net_def net_reset_def shared_zero_def)
qed

section \<open>Stop and start\<close>

declare all_stopped.simps(2) [simp del]

text \<open>No frame of \<open>a\<close> is among the events.\<close>

definition silent :: "addr \<Rightarrow> table_event list \<Rightarrow> bool" where
  "silent a evs \<longleftrightarrow> (\<forall>now b. Status_Frame now a b \<notin> set evs)"

lemma table_step_distinct: "distinct (map fst t) \<Longrightarrow> distinct (map fst (table_step ev t))"
  by (cases ev) (auto simp: cleanup_inactive_def on_status_def distinct_map_filter distinct_update
      split: option.split)

lemma map_of_cleanup:
  "distinct (map fst t) \<Longrightarrow> map_of (cleanup_inactive d now t) a =
    (case map_of t a of Some n \<Rightarrow> if d < now - nd_last_updated_at n then None else Some n | None \<Rightarrow> None)"
proof (induction t)
  case (Cons x t)
  then show ?case
    by (cases x) (auto simp: cleanup_inactive_def map_of_eq_None_iff image_iff split: option.splits)
qed (simp add: cleanup_inactive_def)

text \<open>The entry of a silent device stays as it is or goes, and goes when it is too old.\<close>

lemma silent_step:
  assumes "distinct (map fst t)" and "silent a [ev]"
  shows "map_of (table_step ev t) a =
    (case map_of t a of
       Some n \<Rightarrow> if \<exists>now. ev = Cleanup now \<and> nd_last_updated_at n + INACTIVE_TIMEOUT < now then None else Some n
     | None \<Rightarrow> None)"
proof (cases ev)
  case (Status_Frame now b p)
  then have "b \<noteq> a" using assms(2) by (auto simp: silent_def)
  then show ?thesis
    using Status_Frame by (auto simp: on_status_def update_conv' split: option.split)
next
  case (Cleanup now)
  then show ?thesis using map_of_cleanup [OF assms(1)] by (auto split: option.split)
qed

lemma silent_steps:
  assumes "silent a evs"
  shows "distinct (map fst t) \<Longrightarrow> distinct (map fst (fold table_step evs t)) \<and>
    map_of (fold table_step evs t) a =
      (case map_of t a of
         Some n \<Rightarrow> if \<exists>now. Cleanup now \<in> set evs \<and> nd_last_updated_at n + INACTIVE_TIMEOUT < now then None else Some n
       | None \<Rightarrow> None)"
  using assms
proof (induction evs arbitrary: t)
  case (Cons ev evs)
  have "silent a [ev]" "silent a evs" using Cons.prems(2) by (auto simp: silent_def)
  then show ?case
    using Cons.IH [OF table_step_distinct [OF Cons.prems(1), of ev]] silent_step [OF Cons.prems(1), of a ev]
    by (auto split: option.split if_splits)
qed (simp split: option.split)

lemma stop_loop_silent:
  assumes "\<forall>k. silent a (evs k)" and "nd_status n \<noteq> Stopping" "nd_status n \<noteq> Bootloader"
  shows "map_of t a = Some n \<Longrightarrow> distinct (map fst t) \<Longrightarrow> 0 < k \<Longrightarrow> k < K \<Longrightarrow>
    Cleanup now \<in> set (evs k) \<Longrightarrow> nd_last_updated_at n + INACTIVE_TIMEOUT < now \<Longrightarrow>
    \<exists>r. 0 < r \<and> r < K \<and> command_loop (all_stopped [a]) msgs evs K t = (concat (replicate r msgs), Inl (KeyError a))"
proof (induction K arbitrary: t)
  case (Suc K)
  define t1 where "t1 = fold table_step (evs K) t"
  have t1: "distinct (map fst t1)" "map_of t1 a = (if \<exists>now. Cleanup now \<in> set (evs K) \<and>
      nd_last_updated_at n + INACTIVE_TIMEOUT < now then None else Some n)"
    using silent_steps [OF spec [OF assms(1)] Suc.prems(2), of K] Suc.prems(1) by (simp_all add: t1_def)
  have loop: "command_loop (all_stopped [a]) msgs evs (Suc K) t =
      (let (sent, r) = command_loop (all_stopped [a]) msgs evs K t1 in (msgs @ sent, r))"
    using Suc.prems(1) assms(2,3) by (simp add: t1_def all_stopped.simps)
  show ?case
  proof (cases "map_of t1 a")
    case None
    have "0 < K" using Suc.prems(3,4) by simp
    then have "command_loop (all_stopped [a]) msgs evs K t1 = ([], Inl (KeyError a))"
      using None by (cases K) (simp_all add: all_stopped.simps)
    then show ?thesis
      using loop \<open>0 < K\<close> by (intro exI [of _ 1]) (simp del: command_loop.simps)
  next
    case (Some n')
    then have "map_of t1 a = Some n" "k \<noteq> K" using t1(2) Suc.prems(5,6) by (auto split: if_splits)
    then obtain r where "0 < r" "r < K"
        "command_loop (all_stopped [a]) msgs evs K t1 = (concat (replicate r msgs), Inl (KeyError a))"
      using Suc.IH [of t1] t1(1) Suc.prems(3-6) by fastforce
    then show ?thesis
      using loop by (intro exI [of _ "Suc r"]) (simp del: command_loop.simps)
  qed
qed simp

lemma start_loop_returns: "\<exists>sent t'. command_loop (all_running as) msgs evs k t = (sent, Inr t')"
proof (induction k arbitrary: t)
  case (Suc k)
  obtain sent t' where "command_loop (all_running as) msgs evs k (fold table_step (evs k) t) = (sent, Inr t')"
    using Suc by blast
  moreover obtain b where "all_running as t = Inr b" by (simp add: all_running_def)
  ultimately show ?case by (simp split: bool.split)
qed simp


definition ex_table :: status_data where
  "ex_table = [(7, \<lparr>nd_device = DotBotV3, nd_status = Running, nd_battery = 2500, nd_pos_x = 0, nd_pos_y = 0,
     nd_last_updated_at = 0\<rparr>)]"


end
