(* ===== verification/Spec2Isabelle.thy ===== *)
theory Spec2Isabelle
  imports Net_Properties App_Properties Device_Properties Update_Properties System_Properties Sample_Properties
    Mutex_Properties Race_Properties Lifecycle_Properties Controller_Properties Image_Properties
    Single_Update User_Properties Calibration_Properties Command_Properties
begin

text \<open>
  SwarmIT device firmware: a model of the bootloader and radio firmware of the robots and boards
  of a SwarmIT testbed (\<open>src/device\<close>), and the theorems that say what it does.

  \<^bold>\<open>The program.\<close> On an nRF5340 the firmware has two parts that run on two cores. The
  network core (\<open>network_core/Source\<close>) owns the radio: its Mari callback classifies packets, its
  main loop answers the testbed's requests (start, stop, reset, firmware update, calibration),
  reports status and logs, and it keeps the network identifier and the lighthouse calibration in
  the last page of its flash. The application core (\<open>bootloader/Source\<close>) holds the secure
  bootloader: it splits flash, RAM and peripherals between the secure and the non-secure side,
  decides at reset whether to start the user image, erases and writes the flash for an update,
  computes positions, and offers the running user image a gateway of secure functions. They share a
  packed struct in RAM and signal each other on the channels of the IPC peripheral. On an nRF52840
  one core does both (\<open>bootloader-single-core/Source\<close>). Each image has its own start-up code
  (\<open>System/\<close>): vector table, reset handler, chip workarounds, clocks and fault handlers. A sample
  user image (\<open>sample/\<close>) shows the gateway in use. An update is driven by the testbed controller, a
  Python program (\<open>swarmit/testbed/controller.py\<close>): it announces the image, sends its chunks, sends
  both again until they are acknowledged or its retries are used up, and reports what was. It also keeps
  a table of what the devices report, starts and stops their images, and sends them a calibration.

  \<^bold>\<open>The theories.\<close>
  \<^item> \<^verbatim>\<open>Prelude\<close>: machine integers, buffers, \<open>memcpy\<close>, little-endian codecs.
  \<^item> \<^verbatim>\<open>Nvmc\<close>: the three flash drivers (\<open>nvmc.c\<close>) over a flash of words; locale \<open>flash_driver\<close> is what
    their clients rely on, interpreted on each driver for NOR flash (\<open>nor_flash\<close>).
  \<^item> \<^verbatim>\<open>Layout\<close>: the packed structs of \<open>ipc.h\<close>, \<open>protocol.h\<close> and \<open>localization.h\<close> with sizes and offsets.
  \<^item> \<^verbatim>\<open>Protocol\<close>: the codes and packets of \<open>protocol.h\<close>, headers and device identifiers.
  \<^item> \<^verbatim>\<open>Main_Loop\<close>: an iteration of a firmware's \<open>while (1)\<close> as a list of stages, interrupts between
    them as a step relation, busy-waits; locale \<open>main_loop\<close> is the contract of a firmware's stages
    and handlers, with what holds in every state it reaches, interpreted on all three firmwares;
    locale \<open>refinement\<close> is an operation that implements a specification, carried to sequences of
    operations, interpreted on the update across both cores, on the update of the single-core bootloader
    and on the loop of the sample image.
  \<^item> \<^verbatim>\<open>Ipc\<close>: the shared RAM as a record, its well-formedness, and the memory behind \<open>ota.chunk\<close>.
  \<^item> \<^verbatim>\<open>Config\<close>: the configuration page and the loops that read and write it.
  \<^item> \<^verbatim>\<open>Netcore\<close>, \<^verbatim>\<open>Netcore_Facts\<close>: the network core (\<open>main.c\<close>), one definition per case of the request
    switch, per stage and per handler, composed as the code does; the invariant \<open>net_inv\<close>.
  \<^item> \<^verbatim>\<open>Trustzone\<close>: \<open>tz.c\<close>, \<open>setup_ns_user\<close> and the partition that results.
  \<^item> \<^verbatim>\<open>Localization\<close>: \<open>localization.c\<close>.
  \<^item> \<^verbatim>\<open>Appcore\<close>, \<^verbatim>\<open>Bootloader\<close>, \<^verbatim>\<open>Bootloader_Facts\<close>: the state of the application core, the drivers it
    calls the network core with (\<open>ipc.c\<close>, \<open>mari.c\<close>, \<open>rng.c\<close>, \<open>battery.c\<close>), and \<open>main.c\<close>: start-up,
    stages, interrupt handler; the invariant \<open>app_inv\<close>.
  \<^item> \<^verbatim>\<open>Gateway\<close>: \<open>cmse_implib.c\<close>, the functions the user image calls.
  \<^item> \<^verbatim>\<open>Single_Core\<close>: the single-core bootloader, on the drivers and codecs above; \<open>sc_inv\<close>.
  \<^item> \<^verbatim>\<open>Ota_Flash\<close>, \<^verbatim>\<open>Net_Service\<close>, \<^verbatim>\<open>Ota\<close>: the update across both cores. \<open>image_cells\<close> is the abstract
    flash with some chunks of an image in place, and the erase loop and the chunk writes implement
    it; locale \<open>net_service\<close> is the request interface between the cores, provided by the network
    core when idle and connected; \<open>soc_packet\<close> takes one packet of the controller through radio
    callback, request stage, IPC interrupt, update stages and acknowledgement.
  \<^item> \<^verbatim>\<open>Mutex\<close>: the shared RAM access by access: the hardware mutex, the programs of the stages and
    handlers that use it, and their interleavings on two cores with interrupts.
  \<^item> \<^verbatim>\<open>Handshake\<close>: \<open>ipc_network_call\<close> against the network core's request stage and IPC handler, access by
    access as a step relation (\<open>hs_step\<close>), with its invariant \<open>hs_inv\<close> and the requests that are lost;
    every other stage and handler keeps out of it (\<open>aloof\<close>).
  \<^item> \<^verbatim>\<open>Chunk_Race\<close>: the bootloader's chunk stage against the network core's chunk request, cut into the
    segments between which the other core can act, in all their interleavings.
  \<^item> \<^verbatim>\<open>Lifecycle\<close>: what an update, a start request, the resets and the boot decision have in common.
  \<^item> \<^verbatim>\<open>User_Image\<close>: a running user image as any sequence of gateway calls, stores behind the partition,
    shared RAM contents and events (\<open>user_act\<close>), and what it cannot change (\<open>confined\<close>). That its own
    stores stay behind the partition is the hardware's doing and part of \<open>in_bounds\<close>; that the pointers it
    passes do is up to the image, since the gateway does not check them (\<open>gateway_writes_anywhere\<close>).
  \<^item> \<^verbatim>\<open>Updater\<close>: the specification of an update, without cores, messages or flags, and the proof that
    \<open>soc_packet\<close> refines it (\<open>updater_of\<close> is the abstraction).
  \<^item> \<^verbatim>\<open>Single_Update\<close>: the proof that the single-core bootloader (\<open>sc_packet\<close>, a packet and a whole pass of
    its loop) refines the same specification.
  \<^item> \<^verbatim>\<open>Controller\<close>, \<^verbatim>\<open>Controller_Facts\<close>: the controller's side of an update (\<open>start_ota\<close>, \<open>send_chunk\<close>,
    \<open>transfer\<close>, \<open>on_frame_received\<close>) on any radio; locale \<open>radio_client\<close> is what an invariant of radio
    and controller must satisfy to survive both sending loops.
  \<^item> \<^verbatim>\<open>Commands\<close>: the controller's table of devices, which its threads change, and the commands on it.
  \<^item> \<^verbatim>\<open>Calibration\<close>: the controller's \<open>send_lh2_calibration\<close> and what becomes of the file: the packets a
    device hears, the network core's session (\<open>in_session\<close>), the configuration page, the matrices the
    bootloader locates with.
  \<^item> \<^verbatim>\<open>Air\<close>: a radio that loses packets and acknowledgements, with one device (\<open>soc_packet\<close>) behind it and
    other devices heard; the interpretation of \<open>radio_client\<close> for the two phases of an update.
  \<^item> \<^verbatim>\<open>Arm_Core\<close>: a core as start-up code sees it: memory, registers, stack pointers, what was called.
  \<^item> \<^verbatim>\<open>Clock\<close>: \<open>clock.c\<close>. \<^verbatim>\<open>Word_Copy\<close>: the word-copying loops and when they do what they are for.
  \<^item> \<^verbatim>\<open>System_Init\<close>, \<^verbatim>\<open>System_Init52\<close>: \<open>system_init.c\<close> of the nRF5340's two cores and of the nRF52.
  \<^item> \<^verbatim>\<open>Startup\<close>, \<^verbatim>\<open>Startup_Facts\<close>, \<^verbatim>\<open>System_Facts\<close>: the reset handlers of the four \<open>startup.c\<close>, what
    their sections hold afterwards, and what the initialisation leaves of memory and reset reason.
  \<^item> \<^verbatim>\<open>Vectors\<close>: vector tables and weak handlers. \<^verbatim>\<open>Faults\<close>: \<open>fault_handlers.c\<close> and its bit fields.
  \<^item> \<^verbatim>\<open>Images\<close>: what each image declares for itself, from its own file, and compared: the enumerations and
    structs of the protocol headers and of the controller's \<open>protocol.py\<close>, the identifiers of \<open>tz.h\<close>, the
    fault records and fault handlers.
  \<^item> \<^verbatim>\<open>Sample_App\<close>: \<open>sample/Source/main.c\<close> on the gateway's functions.
  \<^item> \<^verbatim>\<open>Examples\<close>: concrete parameters and states for the witnesses.
  \<^item> \<^verbatim>\<open>Net_Properties\<close>, \<^verbatim>\<open>App_Properties\<close>, \<^verbatim>\<open>Device_Properties\<close>, \<^verbatim>\<open>Update_Properties\<close>,
    \<^verbatim>\<open>System_Properties\<close>, \<^verbatim>\<open>Sample_Properties\<close>, \<^verbatim>\<open>Mutex_Properties\<close>, \<^verbatim>\<open>Race_Properties\<close>,
    \<^verbatim>\<open>Lifecycle_Properties\<close>, \<^verbatim>\<open>User_Properties\<close>, \<^verbatim>\<open>Controller_Properties\<close>,
    \<^verbatim>\<open>Calibration_Properties\<close>, \<^verbatim>\<open>Command_Properties\<close>, \<^verbatim>\<open>Image_Properties\<close> and this theory: the properties,
    those of the network core, of booting and TrustZone, of localization and gateway, of the update,
    of start-up, clocks, vectors and faults, of the sample image, of the mutex, of the other races
    between the cores, of the way from an update to the new image's \<open>main\<close>, of the running image and the
    stop, of the controller, of the calibration's way, of status and commands, of the declarations the
    images share, and, here, of the whole device.

  \<^bold>\<open>How state and code correspond.\<close> A record holds the variables of a core's static struct under
  their names with a prefix (\<open>n_\<close>, \<open>a_\<close>, \<open>s_\<close>), the shared RAM, the flash, the pending IPC events,
  the registers the code sets, and a list of what the core has sent (\<open>n_out\<close>, \<open>a_out\<close>, \<open>s_out\<close>). An
  operation maps the state to an \<open>outcome\<close>: \<open>Continue\<close>; \<open>Stuck\<close> where the code never comes back (a
  busy-wait whose condition never holds, a reset, the jump to the user image); \<open>Undefined\<close> where it
  would leave what C defines and the model does not follow it. Copies the code does not bound but
  that stay inside a struct of the repository are followed (\<open>memcpy_ota_chunk\<close>, \<open>chunk_source\<close>).
  Integers are words of their width; a \<open>double\<close> is a rational, an infinity or a NaN. Start-up code
  works on a \<open>core\<close> instead: a register is stored as written, except the reset reason and the hard
  fault status, which clear the bits written as one, and UICR, which is flash.

  \<^bold>\<open>Parameters.\<close> What is not in the repository is an argument: SHA-256, Mari's broadcast address,
  metrics probe and connection state, the random numbers and times (\<open>net_env\<close>, \<open>net_input\<close>), the
  register values of the vendor's header (\<open>mdk\<close>), the board's pins, the LH2 driver, its position
  arithmetic and float rounding (\<open>lh2_env\<close>), what a store does to flash (\<open>flash_hw\<close>), what the other
  core does to the shared RAM (\<open>ae_net\<close>); for start-up the fields of the vendor's headers
  (\<open>sys_mdk\<close>, \<open>clock_mdk\<close>), which errata a chip has, what a busy-wait reads (\<open>sys_env\<close>), the linker's
  symbols (\<open>link_map\<close>) and the macros of a build (\<open>build_flags\<close>). \<open>env_ok\<close>, \<open>mdk_ok\<close>, \<open>app_env_ok\<close>, \<open>sc_env_ok\<close> and \<open>nor_flash\<close>
  state the documented behaviour that is relied on: the probe fits the buffer, a digest has 32
  bytes, erased flash reads as ones and a write clears bits, the other core keeps the shared RAM
  well formed, the position arithmetic does not give a NaN. \<open>link_ok\<close> is a link map whose sections
  end where they say, fit the address space and do not overwrite their own source; \<open>reset_ok\<close> adds
  that \<open>.tdata\<close> needs no copy, that the constructor loop ends, that the oscillators start, that the
  trimming table names peripherals, and that the initialisation neither copies FICR into RAM nor
  rewrites UICR. For the controller, \<open>radio\<close> is the gateway, the air and the clock: sending, sleeping
  (which yields the frames that came) and the time; \<open>clock_runs\<close> says that time passes in a sleep.

  \<^bold>\<open>Loops.\<close> The region loop of \<open>tz.c\<close>, the busy-waits and the pointer loops of the start-up code are
  partial functions, \<open>None\<close> if they do not end, and so are the controller's sending loops, which
  \<open>update_ends\<close> shows to end; all other loops are structural, folds over their bounds or come with a
  measure. The only fuel is that of \<open>c_string\<close>, the text \<open>printf\<close> reads: 256
  bytes, and the callback has put a zero among them.

  \<^bold>\<open>Grain.\<close> A stage and a handler are one step, the other core acting between stages and while this
  one waits, in all theories but three: \<open>Mutex\<close> has the accesses of those that use the mutex and of the
  status message, \<open>Handshake\<close> those of a request between the cores, \<open>Chunk_Race\<close> the segments of an
  update's chunk. There the stage run alone is shown to be the accesses one after the other. In \<open>Air\<close>
  packets arrive in the order they were sent, and the device finishes with one before it takes the
  next.

  \<^bold>\<open>What is not modelled.\<close> Races of accesses outside those three theories. That Mari calls the
  firmware from an interrupt is an assumption. Timers and GPIO set-up of DotBot-libs, log output, heap
  set-up, and of the testbed's Python and TypeScript all but the controller's update, device table,
  commands, calibration and payload formats: log listeners, display, the command line, the server and the
  dashboard work on network services and terminals. Functions that are only declared (the TDMA messages of \<open>protocol.h\<close>)
  have their structs here and no behaviour. An address of the controller is a number, not the text it
  compares.
\<close>

section \<open>No undefined behaviour in the loops\<close>





text \<open>The same for the single-core bootloader's loop.\<close>

lemma single_core_never_undefined:
  assumes "sc_env_ok e" and "sc_inv a" and "fw_reach (sc_stages e) (sc_irq e) a (k, s)"
    and "k < length (sc_stages e i)"
  shows "(sc_stages e i ! k) s \<noteq> Undefined"
  by (rule sc_loop.reach_no_undefined [OF assms(3,1,2,4)])

definition ex_single :: single where
  "ex_single =
     \<lparr>s_notification_buffer = replicate 255 0, s_base_addr = 0x10000, s_ota_start_request = False,
      s_ota_require_erase = True, s_ota_chunk_request = False, s_battery_update = False,
      s_req_received = False, s_log_received = False, s_send_status = False,
      s_req_buffer = replicate 255 0, s_expected_hash = replicate 32 0,
      s_computed_hash = replicate 32 0, s_device_id = 0, s_metrics_rx_counter = 0,
      s_metrics_tx_counter = 0, s_metrics_received = False, s_status = SWRMT_APPLICATION_READY,
      s_battery_level = 0, s_device_type = SWRMT_DEVICE_TYPE_NRF52840DK,
      s_log = sh_log shared_zero, s_ota = ota shared_zero, s_tx_pdu = tx_pdu shared_zero,
      s_wdt = ex_watchdog, s_resetreas = 0, s_led = False, s_flash = ex_flash, s_out = []\<rparr>"

definition ex_sc_env :: sc_env where
  "ex_sc_env = net_env.extend (ex_net_env\<lparr>env_flash_hw := nor_hw 4096\<rparr>)
     \<lparr>se_after_req = (\<lambda>_. replicate 14 0), se_sreq = 4, se_device_type = SWRMT_DEVICE_TYPE_NRF52840DK,
      se_float = ex_lh2_env\<rparr>"

section \<open>The two cores agree\<close>

text \<open>The two declarations of the shared RAM give every field the same offset and size; and behind
  \<open>ota.chunk\<close> come the two positions and \<open>tx_pdu\<close>, which an over-long chunk runs into.\<close>

lemma shared_layouts_agree:
  "Layout.fields app_ipc_shared_data_t = Layout.fields net_ipc_shared_data_t \<and>
   Layout.fields app_ipc_ota_data_t = Layout.fields net_ipc_ota_data_t \<and>
   (case (offsetof net_ipc_shared_data_t ''ota'', offsetof net_ipc_ota_data_t ''chunk'') of
      (Some a, Some b) \<Rightarrow>
        offsetof net_ipc_shared_data_t ''target_position'' = Some (a + b + 128) \<and>
        offsetof net_ipc_shared_data_t ''current_position'' = Some (a + b + 136) \<and>
        offsetof net_ipc_shared_data_t ''tx_pdu'' = Some (a + b + 144)
    | _ \<Rightarrow> False)"
  by (simp add: shared_layouts offsetof_def)

text \<open>The channels the network core triggers are those the application core receives, and the other
  way round; all of them but the stop channel, which works in hardware, interrupt it; and its
  handler clears every event that does but the radio's, which is the user image's.\<close>

lemma channels_wired:
  "set app_ipc_receive_cnf = set net_ipc_send_cnf \<and> set net_ipc_receive_cnf = set app_ipc_send_cnf \<and>
   set app_ipc_intenset = set app_ipc_receive_cnf - {IPC_CHAN_APPLICATION_STOP} \<and>
   (a_events (app_ipc_irq_handler s) ch \<longleftrightarrow>
      a_events s ch \<and> ch \<notin> set app_ipc_intenset - {IPC_CHAN_RADIO_RX})"
  by (auto simp: app_ipc_receive_cnf_def net_ipc_send_cnf_def net_ipc_receive_cnf_def
        app_ipc_send_cnf_def app_ipc_intenset_def app_ipc_irq_handler_def take_event_def)

section \<open>Requests between the cores\<close>

text \<open>With the network core idle and connected, every request of the application core is served
  and acknowledged: the call returns, having changed nothing of the shared RAM but the request,
  the acknowledgement and the random byte.\<close>

lemma request_answered:
  assumes "net_idle n" and "connected ni" and "ae_net e t = net_answers ne ni n"
    and "req \<noteq> IPC_REQ_NONE"
  shows "\<exists>v. ipc_network_call e t req s =
    Continue (s\<lparr>a_out := a_out s @ [AE_IpcSend IPC_CHAN_REQ],
                a_shared := (a_shared s)\<lparr>sh_req := req, net_ack := False, rng_value := v\<rparr>\<rparr>)"
  using net_serves.call_returns [of n ni e t ne req s] assms by simp

lemma ex_net_idle: "net_idle ex_net" "connected ex_net_input"
  by (simp_all add: net_idle_def ex_net_def net_reset_def connected_def ex_net_input_def)

text \<open>A transmission requested while the network core never gets a connection is never
  acknowledged: the network core spins, and the application core with it.\<close>

lemma unconnected_transmission_hangs:
  assumes "net_idle n" and "\<And>k. \<not> in_connected ni k" and "ae_net e t = net_answers ne ni n"
    and "\<not> net_ack (a_shared s)"
  shows "\<exists>s'. ipc_network_call e t IPC_MARI_NODE_TX_REQ s = Stuck s'"
proof -
  define s1 where "s1 = app_emit (AE_IpcSend IPC_CHAN_REQ)
    (app_shared (\<lambda>sh. sh\<lparr>sh_req := IPC_MARI_NODE_TX_REQ\<rparr>) s)"
  define sh where "sh = a_shared s1"
  have sh: "sh_req sh = IPC_MARI_NODE_TX_REQ" "\<not> net_ack sh"
    using assms(4) by (simp_all add: sh_def s1_def)
  define n1 where "n1 = net_irq ne NetIpcIrq (net_irq ne (NetIpcReceive IPC_CHAN_REQ) (n\<lparr>n_shared := sh\<rparr>))"
  have n1: "n1 = n\<lparr>n_shared := sh, n_events := (n_events n)(IPC_CHAN_REQ := False),
                   n_ipc_req := IPC_MARI_NODE_TX_REQ\<rparr>"
    using assms(1) sh(1) by (simp add: n1_def net_ipc_irq_handler_def Let_def net_idle_def)
  have "net_serve ne ni n sh = Stuck (n1\<lparr>n_shared := sh\<lparr>net_ack := False\<rparr>\<rparr>)"
    unfolding net_serve_def n1_def [symmetric]
    using assms(1,2)
    by (subst idle_stages)
       (simp_all add: n1 net_idle_def net_stage_ipc_def net_ipc_serve_def spin_cases on_shared_def)
  then have "\<not> net_ack (net_answers ne ni n sh k)" for k
    using sh(2) by (simp add: net_answers_def)
  then have "wait_shared (ae_net e t sh) net_ack s1 = Stuck s1"
    using spin_until_None [of 0] assms(3) by (simp add: wait_shared_def)
  then show ?thesis
    by (simp add: ipc_network_call_def Let_def s1_def [symmetric] sh_def)
qed

text \<open>A transmission request, once connected, sends the bytes of \<open>tx_pdu\<close> and acknowledges: as
  traffic to forward while a user image runs or is being stopped, as the bootloader's otherwise.\<close>

lemma transmission_routed:
  assumes "n_ipc_req s = IPC_MARI_NODE_TX_REQ" and "in_connected i k"
  shows "\<exists>s'. net_stage_ipc i s = Continue s' \<and> net_ack (n_shared s') \<and> n_ipc_req s' = IPC_REQ_NONE \<and>
    n_out s' = n_out s @ [NE_MariTx
      (if n_status s \<in> {SWRMT_APPLICATION_RUNNING, SWRMT_APPLICATION_STOPPING}
       then SWARMIT_TX_DOTBOT_FORWARD else SWARMIT_TX_DEFAULT)
      (take (unat (pdu_length (tx_pdu (n_shared s)))) (pdu_buffer (tx_pdu (n_shared s))))]"
  using assms
  by (auto simp: net_stage_ipc_def net_ipc_serve_def spin_cases net_upd_defs user_running_def)

section \<open>The single-core bootloader\<close>

text \<open>The single-core bootloader writes and erases the flash exactly as the two-core one does: from
  the same update state, base address and flash, the start of an update and a chunk of up to 128
  bytes leave the same flash.\<close>

lemma single_core_flashes_alike:
  assumes "s_ota s = ota (a_shared a)" and "s_base_addr s = a_base_addr a" and "s_flash s = a_flash a"
    and "env_flash_hw e = ae_flash_hw ae" and "length (ota_chunk (s_ota s)) = 128"
    and "unat (ota_chunk_size (s_ota s)) \<le> 128"
  shows "sc_erase_image (env_flash_hw e) n (s_flash s) = erase_image (ae_flash_hw ae) n (a_flash a) \<and>
    s_flash (sc_write_chunk e s) = a_flash (write_chunk ae a)"
proof
  show "sc_erase_image (env_flash_hw e) n (s_flash s) = erase_image (ae_flash_hw ae) n (a_flash a)"
    using assms(3,4)
    by (simp add: sc_erase_image_def erase_image_def pages_of_def APP_FLASH_PAGE_SIZE_def
          sc_nvmc_page_erase_def app_nvmc_page_erase_def)
  have "take (4 * (unat (ota_chunk_size (ota (a_shared a))) div 4)) (sc_ota_tail s) =
      take (4 * (unat (ota_chunk_size (ota (a_shared a))) div 4)) (ota_tail (a_shared a))"
    using assms(1,5,6) by (simp add: sc_ota_tail_def ota_tail_def)
  then have eq: "nvmc_write_words hw addr (sc_ota_tail s) (unat (ota_chunk_size (ota (a_shared a))) div 4) f =
      nvmc_write_words hw addr (ota_tail (a_shared a)) (unat (ota_chunk_size (ota (a_shared a))) div 4) f"
    for hw addr f by (rule write_words_prefix)
  show "s_flash (sc_write_chunk e s) = a_flash (write_chunk ae a)"
    by (simp add: sc_write_chunk_def write_chunk_def sc_nvmc_write_def app_nvmc_write_def
          chunk_addr_def SWRMT_OTA_CHUNK_SIZE_def assms(1-4) eq)
qed


definition ex_sc_input :: sc_input where
  "ex_sc_input = net_input.extend ex_net_input \<lparr>si_time = 0, si_saadc = 3000\<rparr>"

lemma ex_sc_ready: "sc_update_env ex_sc_env ex_sc_input ex_net_env" "sc_idle ex_single"
proof -
  have "sc_env_ok ex_sc_env"
    by (simp add: sc_env_ok_def ex_sc_env_def net_env.defs ex_net_env_def ex_sha256_def
          SWRMT_OTA_SHA256_LENGTH_def)
  then show "sc_update_env ex_sc_env ex_sc_input ex_net_env"
    by (simp add: sc_update_env_def ex_sc_env_def ex_sc_input_def net_env.defs net_input.defs ex_net_input_def
          ex_net_env_def APP_FLASH_PAGE_SIZE_def env_ok_def ex_sha256_def SWRMT_OTA_SHA256_LENGTH_def)
  show "sc_idle ex_single"
    by (simp add: sc_idle_def sc_inv_def ex_single_def shared_zero_def SWARMIT_BASE_ADDRESS_def)
qed


lemma sc_tail_memcpy:
  assumes "sc_inv s" and "length src \<le> 255"
  shows "sc_ota_tail (sc_memcpy_chunk src s) = blit 0 src (sc_ota_tail s)"
proof -
  define m where "m = blit 0 src (sc_ota_tail s)"
  have m: "length m = 384" using assms by (simp add: m_def sc_ota_tail_def sc_inv_def)
  then have "sub_bytes 128 (Suc 0) m = [m ! 128]" by (intro sub_bytes_Suc_0) simp
  then have "sub_bytes 0 128 m @ [get8 128 m] @ sub_bytes 129 255 m =
      (sub_bytes 0 128 m @ sub_bytes (0 + 128) 1 m) @ sub_bytes (0 + 129) 255 m"
    by (simp add: get8_def)
  also have "\<dots> = sub_bytes 0 384 m"
    using sub_bytes_join [of 0 128 m 1] sub_bytes_join [of 0 129 m 255] by simp
  also have "\<dots> = m" using m by (intro sub_bytes_all) simp
  finally show ?thesis
    by (simp add: sc_memcpy_chunk_def Let_def m_def [symmetric] sc_ota_tail_def [of "_ \<lparr>s_ota := _, s_tx_pdu := _\<rparr>"])
qed

text \<open>Its request handler takes a chunk by the same rule as the network core: exactly when an
  update is possible, the index is below the announced count, and the chunk was acknowledged just
  before or the first eight bytes of the SHA-256 of its data are the packet's.\<close>

lemma single_core_takes_verified:
  assumes "sc_env_ok e" and "sc_inv s" and "\<not> s_ota_chunk_request s"
  shows "\<exists>s'. sc_req_ota_chunk e i s = Continue s' \<and> sc_inv s' \<and>
    (s_ota_chunk_request s' \<longleftrightarrow>
       s_status s \<in> {SWRMT_APPLICATION_READY, SWRMT_APPLICATION_PROGRAMMING} \<and>
       get32 1 (s_req_buffer s) < ota_chunk_count (s_ota s) \<and>
       (ota_last_chunk_acked (s_ota s) = get32 1 (s_req_buffer s) \<or>
        take 8 (env_sha256 e (sc_chunk_source e i s (s_req_buffer s ! 5))) =
          sub_bytes OTA_CHUNK_SHA 8 (s_req_buffer s)))"
proof -
  let ?b = "s_req_buffer s" and ?sz = "s_req_buffer s ! 5"
  define s1 where "s1 = sc_on_ota (\<lambda>o1. o1\<lparr>ota_chunk_index := get32 1 ?b\<rparr>) s"
  have pkt: "ota_chunk_of ?b = \<lparr>oc_index = get32 1 ?b, oc_chunk_size = ?sz\<rparr>"
    by (simp add: ota_chunk_of_def get8_def)
  have s1: "sc_inv s1" "s_req_buffer s1 = ?b" "s_ota_chunk_request s1 = s_ota_chunk_request s"
    using assms(2) by (simp_all add: s1_def sc_inv_def sc_on_ota_def)
  define src where "src = sc_chunk_source e i s ?sz"
  define s2 where "s2 = sc_on_ota (\<lambda>o1. o1\<lparr>ota_chunk_size := ucast ?sz\<rparr>) s1"
  have s2: "sc_inv s2" "sc_chunk_source e i s2 ?sz = src" "s_req_buffer s2 = ?b"
    "sc_ota_tail s2 = sc_ota_tail s" "ota_chunk_size (s_ota s2) = ucast ?sz"
    using s1(1,2) unat_u8_le [of ?sz]
    by (simp_all add: s2_def s1_def sc_inv_def sc_on_ota_def src_def sc_chunk_source_def sc_ota_tail_def)
  have "14 \<le> length (se_after_req e (si_time i))" using assms(1) by (simp add: sc_env_ok_def)
  then have len: "length src = unat ?sz"
    using assms(2) unat_u8_le [of ?sz]
    by (simp add: src_def sc_chunk_source_def sc_inv_def OTA_CHUNK_DATA_def)
  have "length src \<le> 255" using len unat_u8_le [of ?sz] by simp
  note tail = sc_tail_memcpy [OF s2(1) this]
  define s4 where "s4 = sc_store_chunk e i (ota_chunk_of ?b) s1"
  define s3 where "s3 = sc_memcpy_chunk src s2"
  have s3: "s_req_buffer s3 = ?b" "s_ota_chunk_request s3 = s_ota_chunk_request s"
    "unat (ota_chunk_size (s_ota s3)) = length src" "take (length src) (sc_ota_tail s3) = src"
    using s1(3) s2(3,5) len tail
    by (simp_all add: s3_def sc_memcpy_chunk_def Let_def s2_def sc_on_ota_def blit_0)
  have s4: "s4 = s3\<lparr>s_expected_hash := sub_bytes OTA_CHUNK_SHA SWRMT_OTA_SHA256_LENGTH ?b,
      s_computed_hash := env_sha256 e src\<rparr>"
    using s2(2) s3
    by (simp add: s4_def sc_store_chunk_def pkt Let_def s2_def [symmetric] s3_def [symmetric]
          sc_ota_tail_def)
  have "sc_inv s4" unfolding s4_def by (rule sc_inv_store_chunk [OF assms(1) s1(1)])
  moreover have "take 8 (s_computed_hash s4) = take 8 (env_sha256 e src)"
    "take 8 (s_expected_hash s4) = sub_bytes OTA_CHUNK_SHA 8 ?b"
    "s_ota_chunk_request s4 = s_ota_chunk_request s"
    using s3(2) by (simp_all add: s4 sub_bytes_def SWRMT_OTA_SHA256_LENGTH_def min_def)
  moreover have "sc_inv (s4\<lparr>s_ota_chunk_request := True\<rparr>) = sc_inv s4"
    "sc_inv (s1\<lparr>s_ota_chunk_request := True\<rparr>) = sc_inv s1" by (simp_all add: sc_inv_def)
  moreover have "sc_req_ota_chunk e i s =
     (if s_status s \<noteq> SWRMT_APPLICATION_PROGRAMMING \<and> s_status s \<noteq> SWRMT_APPLICATION_READY
      then Continue s
      else if ota_chunk_count (s_ota s) \<le> get32 1 ?b then Continue s1
      else if ota_last_chunk_acked (s_ota s) \<noteq> get32 1 ?b
      then if take 8 (s_computed_hash s4) = take 8 (s_expected_hash s4)
           then Continue (s4\<lparr>s_ota_chunk_request := True\<rparr>) else Continue s4
      else Continue (s1\<lparr>s_ota_chunk_request := True\<rparr>))"
    by (simp add: sc_req_ota_chunk_def Let_def pkt s4_def s1_def sc_on_ota_def)
  ultimately show ?thesis
    using assms(2,3) s1(1,3) by (auto simp: src_def not_le not_less)
qed

end
